theory Spec2Isabelle
  imports Main "HOL-Library.List_Lexorder"
begin

section \<open>Front-end data: entities, symbols and declarations\<close>

text \<open>
  The objects of the analyzer (\<open>AstEntity\<close>, \<open>AstSymbol\<close>, \<open>AstDeclaration\<close>) are compared by
  identity in the source.  Here every object carries a natural number as its identity; an
  object table (association list) maps the identity of an entity to its immutable fields.
  The fields that the collector mutates (\<open>declarationMetadata\<close>, \<open>apiItemMetadata\<close>,
  \<open>symbolMetadata\<close>) live in an explicit store keyed by identity.
\<close>

datatype ReleaseTag =
  ReleaseTag_None | ReleaseTag_Internal | ReleaseTag_Alpha | ReleaseTag_Beta | ReleaseTag_Public

text \<open>The numeric values of the enum, used by the comparison \<open>>\<close> of the source.\<close>

fun releaseTagValue :: "ReleaseTag \<Rightarrow> nat" where
  "releaseTagValue ReleaseTag_None = 0"
| "releaseTagValue ReleaseTag_Internal = 1"
| "releaseTagValue ReleaseTag_Alpha = 2"
| "releaseTagValue ReleaseTag_Beta = 3"
| "releaseTagValue ReleaseTag_Public = 4"

datatype SyntaxKind =
  CallSignature | Constructor | ConstructSignature | ClassDeclaration | EnumDeclaration
| EnumMember | FunctionDeclaration | GetAccessor | SetAccessor | IndexSignature
| InterfaceDeclaration | MethodDeclaration | MethodSignature | ModuleDeclaration
| PropertyDeclaration | PropertySignature | TypeAliasDeclaration | VariableDeclaration
| OtherSyntaxKind nat

datatype ModifierFlags = ModifierFlags_Private | ModifierFlags_Static | ModifierFlags_Other nat

datatype AstEntityReferenceKind = Plain | Inheritance

text \<open>
  The part of a parsed doc comment that the collector reads: the modifier tag set
  (\<open>parserContext.docComment.modifierTagSet\<close>).
\<close>

record ModifierTagSet =
  isPublic :: bool
  isBeta :: bool
  isAlpha :: bool
  isInternal :: bool
  isEventProperty :: bool
  isOverride :: bool
  isSealed :: bool
  isVirtual :: bool
  hasPreapproved :: bool

text \<open>
  A declaration.  \<open>declTsdoc\<close> is what \<open>_parseTsdocForAstDeclaration\<close> returns for it
  (the parser is an external collaborator).  The children are embedded, the parent and the
  symbol are referred to by identity.
\<close>

datatype AstDeclaration = AstDeclaration
  (declId: nat)
  (declKind: SyntaxKind)
  (modifierFlags: "ModifierFlags list")
  (astSymbol: nat)
  (parent: "nat option")
  (declTsdoc: "ModifierTagSet option")
  (astEntityReferences: "(nat \<times> AstEntityReferenceKind) list")
  (children: "AstDeclaration list")

datatype AstEntity =
  AstSymbol
    (symLocalName: string)
    (isExternal: bool)
    (parentAstSymbol: "nat option")
    (rootAstSymbol: nat)
    (astDeclarations: "AstDeclaration list")
| AstNamespaceImport
    (nsLocalName: string)
    (nsModuleSymbolName: string)
    (nsExportedLocalEntities: "(string \<times> nat) list")
| AstImport
    (importLocalName: string)

fun localName :: "AstEntity \<Rightarrow> string" where
  "localName (AstSymbol n _ _ _ _) = n"
| "localName (AstNamespaceImport n _ _) = n"
| "localName (AstImport n) = n"

text \<open>
  What the collector consumes from the front end and from the configuration: the object
  table, the export table of the entry point (an ordered map), the names of the global
  scope (\<open>globalVariableAnalyzer.hasGlobalName\<close>), whether the TSDoc configuration defines
  \<open>@preapproved\<close>, and \<open>extractorConfig.includeForgottenExports\<close>.
\<close>

record FrontEnd =
  astEntities :: "(nat \<times> AstEntity) list"
  exportedLocalEntities :: "(string \<times> nat) list"
  globalNames :: "string list"
  preapprovedTagDefined :: bool
  includeForgottenExports :: bool

definition lookupEntity :: "FrontEnd \<Rightarrow> nat \<Rightarrow> AstEntity option" where
  "lookupEntity fe e = map_of (astEntities fe) e"

text \<open>
  \<open>forEachDeclarationRecursive\<close>: each declaration is visited before its children
  (pre-order), the declarations of a symbol in their order.
\<close>

fun declarationsRecursive :: "AstDeclaration \<Rightarrow> AstDeclaration list" where
  "declarationsRecursive (AstDeclaration i k m s p t r cs) =
     AstDeclaration i k m s p t r cs # concat (map declarationsRecursive cs)"

definition allDeclarations :: "FrontEnd \<Rightarrow> AstDeclaration list" where
  "allDeclarations fe =
     concat (map (\<lambda>(_, e). case e of
                    AstSymbol n x p r ds \<Rightarrow> concat (map declarationsRecursive ds)
                  | _ \<Rightarrow> [])
                 (astEntities fe))"

definition lookupDeclaration :: "FrontEnd \<Rightarrow> nat \<Rightarrow> AstDeclaration option" where
  "lookupDeclaration fe i = find (\<lambda>d. declId d = i) (allDeclarations fe)"

section \<open>CollectorEntity\<close>

record CollectorEntity =
  astEntity :: nat
  exportNames :: "string list"
  consumableViaInheritance :: bool
  nameForEmit :: "string option"
  astNamespaceImports :: "nat list"

definition newCollectorEntity :: "nat \<Rightarrow> CollectorEntity" where
  "newCollectorEntity e =
     \<lparr> astEntity = e, exportNames = [], consumableViaInheritance = False,
       nameForEmit = None, astNamespaceImports = [] \<rparr>"

text \<open>
  Modelled from the spec: the accessors of \<open>CollectorEntity\<close> (its class is not among the
  sources).  The export names are a set in insertion order; an entity is exported when it
  has an export name; it is consumable when it is exported or reachable by inheritance;
  \<open>singleExportName\<close> is defined when there is exactly one export name.
\<close>

definition addExportName :: "string \<Rightarrow> CollectorEntity \<Rightarrow> CollectorEntity" where
  "addExportName n ce =
     (if n \<in> set (exportNames ce) then ce else ce\<lparr>exportNames := exportNames ce @ [n]\<rparr>)"

definition addAstNamespaceImports :: "nat \<Rightarrow> CollectorEntity \<Rightarrow> CollectorEntity" where
  "addAstNamespaceImports ns ce =
     (if ns \<in> set (astNamespaceImports ce) then ce
      else ce\<lparr>astNamespaceImports := astNamespaceImports ce @ [ns]\<rparr>)"

definition exported :: "CollectorEntity \<Rightarrow> bool" where
  "exported ce = (exportNames ce \<noteq> [])"

definition consumable :: "CollectorEntity \<Rightarrow> bool" where
  "consumable ce = (exported ce \<or> consumableViaInheritance ce)"

definition singleExportName :: "CollectorEntity \<Rightarrow> string option" where
  "singleExportName ce = (case exportNames ce of [n] \<Rightarrow> Some n | _ \<Rightarrow> None)"

text \<open>
  \<open>_entities\<close> and \<open>_entitiesByAstEntity\<close> are always updated together and hold the same
  objects, so the model keeps the array; the map lookup is the search by entity.
\<close>

fun getEntity :: "CollectorEntity list \<Rightarrow> nat \<Rightarrow> CollectorEntity option" where
  "getEntity [] e = None"
| "getEntity (ce # ces) e = (if astEntity ce = e then Some ce else getEntity ces e)"

fun updateEntity ::
  "nat \<Rightarrow> (CollectorEntity \<Rightarrow> CollectorEntity) \<Rightarrow> CollectorEntity list \<Rightarrow> CollectorEntity list"
where
  "updateEntity e f [] = []"
| "updateEntity e f (ce # ces) =
     (if astEntity ce = e then f ce # ces else ce # updateEntity e f ces)"

section \<open>Errors and messages\<close>

datatype error = Error string | InternalError string | TypeError

datatype ExtractorMessageId =
  MissingGetter | SetterWithDocs | ExtraReleaseTag | PreapprovedBadReleaseTag
| PreapprovedUnsupportedType | MissingReleaseTag

datatype MessageTarget = OnDeclaration nat | OnSymbol nat

type_synonym message = "ExtractorMessageId \<times> string \<times> MessageTarget"

definition dq :: string where
  "dq = [CHR 0x22]"

section \<open>Metadata store\<close>

record InternalDeclarationMetadata =
  tsdocParserContext :: "ModifierTagSet option"
  isAncillary :: bool
  ancillaryDeclarations :: "nat list"
  inheritedDeclarations :: "nat list"

record ApiItemMetadata =
  declaredReleaseTag :: ReleaseTag
  effectiveReleaseTag :: ReleaseTag
  isEventProperty_md :: bool
  isOverride_md :: bool
  isSealed_md :: bool
  isVirtual_md :: bool
  isPreapproved :: bool
  releaseTagSameAsParent :: bool
  tsdocComment :: "ModifierTagSet option"

text \<open>
  The mutable fields of the analyzer objects and the message router.  A reference to an
  \<open>ApiItemMetadata\<close> object is its address together with its fields (the object is not
  changed once it is attached): two declarations share one object exactly when they hold
  the same address.  \<open>nextAddress\<close> is the address that the next \<open>new ApiItemMetadata\<close> gets.
\<close>

type_synonym ApiItemMetadataRef = "nat \<times> ApiItemMetadata"

record MetadataState =
  symbolMetadata :: "nat \<Rightarrow> ReleaseTag option"
  declarationMetadata :: "nat \<Rightarrow> InternalDeclarationMetadata option"
  apiItemMetadata :: "nat \<Rightarrow> ApiItemMetadataRef option"
  nextAddress :: nat
  messages :: "message list"

definition addAnalyzerIssue ::
  "ExtractorMessageId \<Rightarrow> string \<Rightarrow> MessageTarget \<Rightarrow> MetadataState \<Rightarrow> MetadataState" where
  "addAnalyzerIssue i text t st = st\<lparr>messages := messages st @ [(i, text, t)]\<rparr>"

section \<open>Entity graph builder\<close>

text \<open>
  \<open>_createCollectorEntity\<close>: fetch the node of the entity or install a new one, record the
  export name (an empty name is falsy and records nothing) and raise the inheritance flag.
  The reference directives that the source collects on creation are not part of this model.
\<close>
definition createCollectorEntity ::
  "nat \<Rightarrow> string option \<Rightarrow> bool \<Rightarrow> CollectorEntity list \<Rightarrow> CollectorEntity list" where
  "createCollectorEntity e exportedName cvi ents =
     (let ents1 = (case getEntity ents e of
                     None \<Rightarrow> ents @ [newCollectorEntity e]
                   | Some entity \<Rightarrow> ents);
          ents2 = (case exportedName of
                     Some n \<Rightarrow> (if n \<noteq> [] then updateEntity e (addExportName n) ents1 else ents1)
                   | None \<Rightarrow> ents1)
      in if cvi then updateEntity e (\<lambda>ce. ce\<lparr>consumableViaInheritance := True\<rparr>) ents2
         else ents2)"

definition symbolReferences :: "AstDeclaration list \<Rightarrow> (nat \<times> AstEntityReferenceKind) list" where
  "symbolReferences ds = concat (map astEntityReferences (concat (map declarationsRecursive ds)))"

definition createReferencedEntity ::
  "FrontEnd \<Rightarrow> CollectorEntity \<Rightarrow> nat \<Rightarrow> AstEntityReferenceKind \<Rightarrow> CollectorEntity list
     \<Rightarrow> CollectorEntity list" where
  "createReferencedEntity fe entity t k ents =
     (let cvi = (consumable entity \<and> k = Inheritance)
      in case lookupEntity fe t of
           Some (AstSymbol n x p r ds) \<Rightarrow>
             (if p = None then createCollectorEntity t None cvi ents else ents)
         | _ \<Rightarrow> createCollectorEntity t None cvi ents)"

definition createExportedEntity :: "nat \<Rightarrow> nat \<Rightarrow> CollectorEntity list \<Rightarrow> CollectorEntity list" where
  "createExportedEntity ns x ents =
     updateEntity x (addAstNamespaceImports ns) (createCollectorEntity x None False ents)"

type_synonym graphState = "CollectorEntity list \<times> nat list"

function createEntityForIndirectReferences ::
    "FrontEnd \<Rightarrow> nat \<Rightarrow> graphState \<Rightarrow> error + graphState"
  and forEachReference ::
    "FrontEnd \<Rightarrow> nat \<Rightarrow> (nat \<times> AstEntityReferenceKind) list \<Rightarrow> graphState \<Rightarrow> error + graphState"
  and forEachExportedEntity ::
    "FrontEnd \<Rightarrow> nat \<Rightarrow> nat list \<Rightarrow> graphState \<Rightarrow> error + graphState"
where
  "createEntityForIndirectReferences fe e (ents, seen) =
     (if e \<in> set seen then Inr (ents, seen)
      else case lookupEntity fe e of
             Some (AstSymbol n x p r ds) \<Rightarrow>
               forEachReference fe e (symbolReferences ds) (ents, seen @ [e])
           | Some (AstNamespaceImport n mn xs) \<Rightarrow>
               forEachExportedEntity fe e (map snd xs) (ents, seen @ [e])
           | _ \<Rightarrow> Inr (ents, seen @ [e]))"
| "forEachReference fe e [] st = Inr st"
| "forEachReference fe e ((t, k) # rs) (ents, seen) =
     (case getEntity ents e of
        None \<Rightarrow> Inl (Error [])
      | Some entity \<Rightarrow>
          (case createEntityForIndirectReferences fe t
                  (createReferencedEntity fe entity t k ents, seen) of
             Inl err \<Rightarrow> Inl err
           | Inr st' \<Rightarrow> forEachReference fe e rs st'))"
| "forEachExportedEntity fe e [] st = Inr st"
| "forEachExportedEntity fe e (x # xs) (ents, seen) =
     (case createEntityForIndirectReferences fe x (createExportedEntity e x ents, seen) of
        Inl err \<Rightarrow> Inl err
      | Inr st' \<Rightarrow> forEachExportedEntity fe e xs st')"
  by pat_completeness auto

lemma seen_mono_dom:
  "createEntityForIndirectReferences_forEachReference_forEachExportedEntity_dom (Inl (fe, e, st)) \<Longrightarrow>
     createEntityForIndirectReferences fe e st = Inr st' \<Longrightarrow> set (snd st) \<subseteq> set (snd st')"
  "createEntityForIndirectReferences_forEachReference_forEachExportedEntity_dom (Inr (Inl (fe, e, rs, st))) \<Longrightarrow>
     forEachReference fe e rs st = Inr st' \<Longrightarrow> set (snd st) \<subseteq> set (snd st')"
  "createEntityForIndirectReferences_forEachReference_forEachExportedEntity_dom (Inr (Inr (fe, e, xs, st))) \<Longrightarrow>
     forEachExportedEntity fe e xs st = Inr st' \<Longrightarrow> set (snd st) \<subseteq> set (snd st')"
proof (induction fe e st and fe e rs st and fe e xs st arbitrary: st' and st' and st'
       rule: createEntityForIndirectReferences_forEachReference_forEachExportedEntity.pinduct)
  case (1 fe e ents seen)
  show ?case
  proof (cases "e \<in> set seen")
    case True
    with 1(1,4) show ?thesis by (simp add: createEntityForIndirectReferences.psimps)
  next
    case False
    show ?thesis
    proof (cases "lookupEntity fe e")
      case None
      with False 1(1,4) show ?thesis
        by (auto simp: createEntityForIndirectReferences.psimps)
    next
      case (Some a)
      show ?thesis
      proof (cases a)
        case (AstSymbol n x p r ds)
        with False Some 1(1,4)
        have "forEachReference fe e (symbolReferences ds) (ents, seen @ [e]) = Inr st'"
          by (simp add: createEntityForIndirectReferences.psimps)
        from 1(2)[OF False Some AstSymbol this] show ?thesis by simp
      next
        case (AstNamespaceImport n mn xs)
        with False Some 1(1,4)
        have "forEachExportedEntity fe e (map snd xs) (ents, seen @ [e]) = Inr st'"
          by (simp add: createEntityForIndirectReferences.psimps)
        from 1(3)[OF False Some AstNamespaceImport this] show ?thesis by simp
      next
        case (AstImport n)
        with False Some 1(1,4) show ?thesis
          by (auto simp: createEntityForIndirectReferences.psimps)
      qed
    qed
  qed
next
  case (2 fe e st)
  then show ?case by (simp add: forEachReference.psimps)
next
  case (3 fe e t k rs ents seen)
  from 3(1,4) obtain entity st1 where
    g: "getEntity ents e = Some entity" and
    v: "createEntityForIndirectReferences fe t (createReferencedEntity fe entity t k ents, seen) = Inr st1" and
    r: "forEachReference fe e rs st1 = Inr st'"
    by (auto simp: forEachReference.psimps split: option.splits sum.splits)
  from 3(2)[OF g v] have "set seen \<subseteq> set (snd st1)" by simp
  moreover from 3(3)[OF g v r] have "set (snd st1) \<subseteq> set (snd st')" .
  ultimately show ?case by simp
next
  case (4 fe e st)
  then show ?case by (simp add: forEachExportedEntity.psimps)
next
  case (5 fe e x xs ents seen)
  from 5(1,4) obtain st1 where
    v: "createEntityForIndirectReferences fe x (createExportedEntity e x ents, seen) = Inr st1" and
    r: "forEachExportedEntity fe e xs st1 = Inr st'"
    by (auto simp: forEachExportedEntity.psimps split: sum.splits)
  from 5(2)[OF v] have "set seen \<subseteq> set (snd st1)" by simp
  moreover from 5(3)[OF v r] have "set (snd st1) \<subseteq> set (snd st')" .
  ultimately show ?case by simp
qed

definition unseen :: "FrontEnd \<Rightarrow> nat list \<Rightarrow> nat" where
  "unseen fe seen = card (fst ` set (astEntities fe) - set seen)"

lemma unseen_mono: "set seen \<subseteq> set seen' \<Longrightarrow> unseen fe seen' \<le> unseen fe seen"
  unfolding unseen_def by (intro card_mono) auto

lemma unseen_less:
  assumes "lookupEntity fe e = Some a" "e \<notin> set seen"
  shows "unseen fe (seen @ [e]) < unseen fe seen"
proof -
  from assms(1) have "e \<in> fst ` set (astEntities fe)"
    unfolding lookupEntity_def by (metis domI dom_map_of_conv_image_fst)
  with assms(2) show ?thesis
    unfolding unseen_def by (intro psubset_card_mono) auto
qed

text \<open>
  The recursion terminates on every front end and every state: each expansion adds an
  entity of the object table to the visited set.
\<close>

lemma createEntityForIndirectReferences_total:
  "All createEntityForIndirectReferences_forEachReference_forEachExportedEntity_dom"
proof (relation "measures
    [\<lambda>x. case x of Inl (fe, e, ents, seen) \<Rightarrow> unseen fe seen
               | Inr (Inl (fe, e, rs, ents, seen)) \<Rightarrow> unseen fe seen
               | Inr (Inr (fe, e, xs, ents, seen)) \<Rightarrow> unseen fe seen,
     \<lambda>x. case x of Inl (fe, e, ents, seen) \<Rightarrow> 0
               | Inr (Inl (fe, e, rs, ents, seen)) \<Rightarrow> Suc (length rs)
               | Inr (Inr (fe, e, xs, ents, seen)) \<Rightarrow> Suc (length xs)]", goal_cases)
  case 1
  then show ?case by simp
next
  case (2 fe e ents seen a n x p r ds)
  then show ?case by (simp add: unseen_less)
next
  case (3 fe e ents seen a n xs)
  then show ?case by (simp add: unseen_less)
next
  case (4 fe e t k rs ents seen entity)
  then show ?case by simp
next
  case (5 fe e t k rs ents seen entity st')
  then have "set seen \<subseteq> set (snd st')"
    using seen_mono_dom(1)[of fe t "(createReferencedEntity fe entity t k ents, seen)" st']
    by auto
  then have "unseen fe (snd st') \<le> unseen fe seen" by (rule unseen_mono)
  then show ?case by (cases st') auto
next
  case (6 fe e x xs ents seen)
  then show ?case by simp
next
  case (7 fe e x xs ents seen st')
  then have "set seen \<subseteq> set (snd st')"
    using seen_mono_dom(1)[of fe x "(createExportedEntity e x ents, seen)" st']
    by auto
  then have "unseen fe (snd st') \<le> unseen fe seen" by (rule unseen_mono)
  then show ?case by (cases st') auto
qed

termination createEntityForIndirectReferences
  by (rule createEntityForIndirectReferences_total)

declare createEntityForIndirectReferences.simps [simp del]

section \<open>Metadata propagator\<close>

text \<open>
  The functions below return \<open>None\<close> when the model has no result: the fuel of the
  recursion through parents is used up, or an identity does not denote an object of the
  table.  \<open>Some (Inl err)\<close> is an exception of the source, \<open>Some (Inr x)\<close> a normal return.
\<close>

definition newInternalDeclarationMetadata :: InternalDeclarationMetadata where
  "newInternalDeclarationMetadata =
     \<lparr> tsdocParserContext = None, isAncillary = False, ancillaryDeclarations = [],
       inheritedDeclarations = [] \<rparr>"

text \<open>First loop of \<open>_calculateDeclarationMetadataForDeclarations\<close>.\<close>

fun initializeDeclarationMetadata ::
  "AstDeclaration list \<Rightarrow> MetadataState \<Rightarrow> error + MetadataState" where
  "initializeDeclarationMetadata [] st = Inr st"
| "initializeDeclarationMetadata (d # ds) st =
     (if declarationMetadata st (declId d) \<noteq> None
      then Inl (InternalError
             ''AstDeclaration.declarationMetadata is not expected to have been initialized yet'')
      else initializeDeclarationMetadata ds
             (st\<lparr>declarationMetadata := (declarationMetadata st)
                   (declId d \<mapsto> newInternalDeclarationMetadata
                                  \<lparr>tsdocParserContext := declTsdoc d\<rparr>)\<rparr>))"

definition addAncillaryDeclaration ::
  "AstDeclaration \<Rightarrow> AstDeclaration \<Rightarrow> MetadataState \<Rightarrow> error + MetadataState" where
  "addAncillaryDeclaration mainAstDeclaration ancillaryAstDeclaration st =
     (case declarationMetadata st (declId mainAstDeclaration) of
        None \<Rightarrow> Inl TypeError
      | Some mainMetadata \<Rightarrow>
          if declId ancillaryAstDeclaration \<in> set (ancillaryDeclarations mainMetadata)
          then Inr st
          else if astSymbol mainAstDeclaration \<noteq> astSymbol ancillaryAstDeclaration
          then Inl (InternalError
                 (''Invalid call to _addAncillaryDeclaration() because declarations do not''
                  @ '' belong to the same symbol''))
          else if isAncillary mainMetadata
          then Inl (InternalError
                 ''Invalid call to _addAncillaryDeclaration() because the target is ancillary itself'')
          else (case declarationMetadata st (declId ancillaryAstDeclaration) of
                  None \<Rightarrow> Inl TypeError
                | Some ancillaryMetadata \<Rightarrow>
                    if isAncillary ancillaryMetadata
                    then Inl (InternalError
                           (''Invalid call to _addAncillaryDeclaration() because source is already ancillary''
                            @ '' to another declaration''))
                    else if apiItemMetadata st (declId mainAstDeclaration) \<noteq> None
                            \<or> apiItemMetadata st (declId ancillaryAstDeclaration) \<noteq> None
                    then Inl (InternalError
                           (''Invalid call to _addAncillaryDeclaration() because the API item metadata''
                            @ '' has already been constructed''))
                    else
                      (let st1 = st\<lparr>declarationMetadata := (declarationMetadata st)
                                      (declId ancillaryAstDeclaration \<mapsto>
                                         ancillaryMetadata\<lparr>isAncillary := True\<rparr>)\<rparr>
                       in case declarationMetadata st1 (declId mainAstDeclaration) of
                            None \<Rightarrow> Inl TypeError
                          | Some m \<Rightarrow>
                              Inr (st1\<lparr>declarationMetadata := (declarationMetadata st1)
                                     (declId mainAstDeclaration \<mapsto>
                                        m\<lparr>ancillaryDeclarations :=
                                            ancillaryDeclarations m
                                            @ [declId ancillaryAstDeclaration]\<rparr>)\<rparr>))))"

text \<open>
  The inner loop over the getters of the setter's symbol; the flag is \<open>foundGetter\<close>.
\<close>

fun linkGetters ::
  "AstDeclaration \<Rightarrow> AstDeclaration list \<Rightarrow> bool \<Rightarrow> MetadataState
     \<Rightarrow> error + (bool \<times> MetadataState)" where
  "linkGetters setter [] foundGetter st = Inr (foundGetter, st)"
| "linkGetters setter (g # gs) foundGetter st =
     (if declKind g = GetAccessor
      then (case addAncillaryDeclaration g setter st of
              Inl err \<Rightarrow> Inl err
            | Inr st' \<Rightarrow> linkGetters setter gs True st')
      else linkGetters setter gs foundGetter st)"

text \<open>Second loop of \<open>_calculateDeclarationMetadataForDeclarations\<close>.\<close>

fun detectAncillaryDeclarations ::
  "FrontEnd \<Rightarrow> AstDeclaration list \<Rightarrow> MetadataState \<Rightarrow> (error + MetadataState) option" where
  "detectAncillaryDeclarations fe [] st = Some (Inr st)"
| "detectAncillaryDeclarations fe (d # ds) st =
     (if declKind d = SetAccessor
      then (case lookupEntity fe (astSymbol d) of
              Some (AstSymbol n x p r gs) \<Rightarrow>
                (case linkGetters d gs False st of
                   Inl err \<Rightarrow> Some (Inl err)
                 | Inr (foundGetter, st') \<Rightarrow>
                     detectAncillaryDeclarations fe ds
                       (if \<not> foundGetter
                        then addAnalyzerIssue MissingGetter
                               (''The property '' @ dq @ n @ dq @ '' has a setter but no getter.'')
                               (OnDeclaration (declId d)) st'
                        else st'))
            | _ \<Rightarrow> None)
      else detectAncillaryDeclarations fe ds st)"

definition calculateDeclarationMetadataForDeclarations ::
  "FrontEnd \<Rightarrow> AstDeclaration list \<Rightarrow> MetadataState \<Rightarrow> (error + MetadataState) option" where
  "calculateDeclarationMetadataForDeclarations fe ds st =
     (case initializeDeclarationMetadata ds st of
        Inl err \<Rightarrow> Some (Inl err)
      | Inr st' \<Rightarrow> detectAncillaryDeclarations fe ds st')"

text \<open>
  \<open>_calculateApiItemMetadata\<close>, the part that reads the doc comment: the declared release
  tag and whether more than one release tag was found.  The four tags are tried in the
  order public, beta, alpha, internal; the first one found is kept.
\<close>

definition nextReleaseTag :: "bool \<Rightarrow> ReleaseTag \<Rightarrow> ReleaseTag \<times> bool \<Rightarrow> ReleaseTag \<times> bool" where
  "nextReleaseTag present tag acc =
     (if present
      then (if fst acc \<noteq> ReleaseTag_None then (fst acc, True) else (tag, snd acc))
      else acc)"

definition readReleaseTags :: "ModifierTagSet \<Rightarrow> ReleaseTag \<times> bool" where
  "readReleaseTags modifierTagSet =
     nextReleaseTag (isInternal modifierTagSet) ReleaseTag_Internal
       (nextReleaseTag (isAlpha modifierTagSet) ReleaseTag_Alpha
          (nextReleaseTag (isBeta modifierTagSet) ReleaseTag_Beta
             (if isPublic modifierTagSet then ReleaseTag_Public else ReleaseTag_None, False)))"

definition defaultOptions :: ApiItemMetadata where
  "defaultOptions =
     \<lparr> declaredReleaseTag = ReleaseTag_None, effectiveReleaseTag = ReleaseTag_None,
       isEventProperty_md = False, isOverride_md = False, isSealed_md = False,
       isVirtual_md = False, isPreapproved = False, releaseTagSameAsParent = False,
       tsdocComment = None \<rparr>"

definition supportsPreapproved :: "SyntaxKind \<Rightarrow> bool" where
  "supportsPreapproved k =
     (k = ClassDeclaration \<or> k = EnumDeclaration \<or> k = InterfaceDeclaration
      \<or> k = ModuleDeclaration)"

text \<open>
  The options after the doc comment was read, with the messages reported on the way
  (\<open>symName\<close> and \<open>symExternal\<close> are \<open>astSymbol.localName\<close> and \<open>astSymbol.isExternal\<close>).
\<close>

definition readDocComment ::
  "FrontEnd \<Rightarrow> AstDeclaration \<Rightarrow> string \<Rightarrow> bool \<Rightarrow> ModifierTagSet option \<Rightarrow> MetadataState
     \<Rightarrow> ApiItemMetadata \<times> MetadataState" where
  "readDocComment fe d symName symExternal parserContext st =
     (case parserContext of
        None \<Rightarrow> (defaultOptions, st)
      | Some modifierTagSet \<Rightarrow>
          (let (declared, extraReleaseTags) = readReleaseTags modifierTagSet;
               st1 = (if extraReleaseTags \<and> \<not> symExternal
                      then addAnalyzerIssue ExtraReleaseTag
                             ''The doc comment should not contain more than one release tag''
                             (OnDeclaration (declId d)) st
                      else st);
               options = defaultOptions
                 \<lparr> declaredReleaseTag := declared,
                   isEventProperty_md := isEventProperty modifierTagSet,
                   isOverride_md := isOverride modifierTagSet,
                   isSealed_md := isSealed modifierTagSet,
                   isVirtual_md := isVirtual modifierTagSet \<rparr>
           in if preapprovedTagDefined fe \<and> hasPreapproved modifierTagSet
              then (if supportsPreapproved (declKind d)
                    then (if declared = ReleaseTag_Internal
                          then (options\<lparr>isPreapproved := True\<rparr>, st1)
                          else (options,
                                addAnalyzerIssue PreapprovedBadReleaseTag
                                  (''The @preapproved tag cannot be applied to '' @ dq @ symName @ dq
                                   @ '' without an @internal release tag'')
                                  (OnDeclaration (declId d)) st1))
                    else (options,
                          addAnalyzerIssue PreapprovedUnsupportedType
                            (''The @preapproved tag cannot be applied to '' @ dq @ symName @ dq
                             @ '' because it is not a supported declaration type'')
                            (OnDeclaration (declId d)) st1))
              else (options, st1)))"

text \<open>
  The effective release tag from the declared one and the parent's metadata
  (\<open>None\<close> when the declaration has no parent).
\<close>

definition inheritReleaseTag :: "ApiItemMetadata option \<Rightarrow> ApiItemMetadata \<Rightarrow> ApiItemMetadata" where
  "inheritReleaseTag parentApiItemMetadata options =
     (case parentApiItemMetadata of
        Some pm \<Rightarrow>
          (let eff = (if declaredReleaseTag options = ReleaseTag_None
                      then effectiveReleaseTag pm else declaredReleaseTag options)
           in options\<lparr> effectiveReleaseTag := eff,
                       releaseTagSameAsParent := (effectiveReleaseTag pm = eff) \<rparr>)
      | None \<Rightarrow> options\<lparr> effectiveReleaseTag := declaredReleaseTag options \<rparr>)"

text \<open>
  The treatment of a missing release tag: \<open>symId\<close>, \<open>symExternal\<close> and \<open>root\<close> are the
  declaration's symbol, its \<open>isExternal\<close> and its \<open>rootAstSymbol\<close>.
\<close>

definition healMissingReleaseTag ::
  "FrontEnd \<Rightarrow> CollectorEntity list \<Rightarrow> nat \<Rightarrow> bool \<Rightarrow> nat \<Rightarrow> ApiItemMetadata \<Rightarrow> MetadataState
     \<Rightarrow> (ApiItemMetadata \<times> MetadataState) option" where
  "healMissingReleaseTag fe ents symId symExternal root options st =
     (if effectiveReleaseTag options = ReleaseTag_None
      then (if \<not> symExternal
            then (case getEntity ents root of
                    None \<Rightarrow> Some (options, st)
                  | Some entity \<Rightarrow>
                      if consumable entity
                      then (case lookupEntity fe root of
                              None \<Rightarrow> None
                            | Some rootEntity \<Rightarrow>
                                Some (options\<lparr>effectiveReleaseTag := ReleaseTag_Public\<rparr>,
                                      if localName rootEntity \<noteq> ''_default''
                                      then addAnalyzerIssue MissingReleaseTag
                                             (dq @ localName rootEntity @ dq
                                              @ '' is exported by the package, but it is missing ''
                                              @ ''a release tag (@alpha, @beta, @public, or @internal)'')
                                             (OnSymbol symId) st
                                      else st))
                      else Some (options, st))
            else Some (options\<lparr>effectiveReleaseTag := ReleaseTag_Public\<rparr>, st))
      else Some (options, st))"

text \<open>The new object is attached to the declaration and shared with its ancillary ones.\<close>

fun shareApiItemMetadata :: "ApiItemMetadataRef \<Rightarrow> nat list \<Rightarrow> MetadataState \<Rightarrow> MetadataState" where
  "shareApiItemMetadata r [] st = st"
| "shareApiItemMetadata r (a # as) st =
     shareApiItemMetadata r as (st\<lparr>apiItemMetadata := (apiItemMetadata st)(a \<mapsto> r)\<rparr>)"

definition attachApiItemMetadata ::
  "AstDeclaration \<Rightarrow> ModifierTagSet option \<Rightarrow> ApiItemMetadata \<Rightarrow> MetadataState
     \<Rightarrow> (error + MetadataState)" where
  "attachApiItemMetadata d parserContext options st =
     (let r = (nextAddress st, options\<lparr>tsdocComment := parserContext\<rparr>);
          st1 = st\<lparr> nextAddress := Suc (nextAddress st),
                    apiItemMetadata := (apiItemMetadata st)(declId d \<mapsto> r) \<rparr>
      in case declarationMetadata st1 (declId d) of
           None \<Rightarrow> Inl TypeError
         | Some md \<Rightarrow> Inr (shareApiItemMetadata r (ancillaryDeclarations md) st1))"

text \<open>The loop that finds the most public effective release tag of a symbol.\<close>

fun maxEffectiveReleaseTag ::
  "MetadataState \<Rightarrow> AstDeclaration list \<Rightarrow> ReleaseTag \<Rightarrow> error + ReleaseTag" where
  "maxEffectiveReleaseTag st [] m = Inr m"
| "maxEffectiveReleaseTag st (d # ds) m =
     (case apiItemMetadata st (declId d) of
        None \<Rightarrow> Inl TypeError
      | Some (a, md) \<Rightarrow>
          maxEffectiveReleaseTag st ds
            (if releaseTagValue (effectiveReleaseTag md) > releaseTagValue m
             then effectiveReleaseTag md else m))"

type_synonym 'a outcome = "(error + 'a) option"

text \<open>Sequencing: an exception or a missing result of the first step ends the computation.\<close>

definition thenDo :: "'a outcome \<Rightarrow> ('a \<Rightarrow> 'b outcome) \<Rightarrow> 'b outcome" where
  "thenDo r k = (case r of None \<Rightarrow> None | Some (Inl err) \<Rightarrow> Some (Inl err) | Some (Inr x) \<Rightarrow> k x)"

definition setSymbolMetadata ::
  "nat \<Rightarrow> AstDeclaration list \<Rightarrow> MetadataState \<Rightarrow> MetadataState outcome" where
  "setSymbolMetadata s ds st =
     (case maxEffectiveReleaseTag st ds ReleaseTag_None of
        Inl err \<Rightarrow> Some (Inl err)
      | Inr m \<Rightarrow> Some (Inr (st\<lparr>symbolMetadata := (symbolMetadata st)(s \<mapsto> m)\<rparr>)))"

text \<open>
  \<open>parentApiItemMetadata.effectiveReleaseTag\<close>: reading a field of the fetched object, which
  fails when the declaration has none.
\<close>

definition dereference ::
  "ApiItemMetadataRef option \<times> MetadataState \<Rightarrow> (ApiItemMetadata option \<times> MetadataState) outcome" where
  "dereference r =
     (case r of
        (None, st) \<Rightarrow> Some (Inl TypeError)
      | (Some (a, pm), st) \<Rightarrow> Some (Inr (Some pm, st)))"

text \<open>The steps of \<open>_calculateApiItemMetadata\<close> after the parent's metadata was fetched.\<close>

definition finishApiItemMetadata ::
  "FrontEnd \<Rightarrow> CollectorEntity list \<Rightarrow> AstDeclaration \<Rightarrow> bool \<Rightarrow> nat
     \<Rightarrow> ModifierTagSet option \<Rightarrow> ApiItemMetadata
     \<Rightarrow> ApiItemMetadata option \<times> MetadataState \<Rightarrow> MetadataState outcome" where
  "finishApiItemMetadata fe ents d symExternal root parserContext options r =
     (case r of
        (parentApiItemMetadata, st2) \<Rightarrow>
          (case healMissingReleaseTag fe ents (astSymbol d) symExternal root
                  (inheritReleaseTag parentApiItemMetadata options) st2 of
             None \<Rightarrow> None
           | Some (options', st3) \<Rightarrow>
               Some (attachApiItemMetadata d parserContext options' st3)))"

text \<open>The early return of \<open>_calculateApiItemMetadata\<close> for an ancillary declaration.\<close>

definition skipAncillary ::
  "AstDeclaration \<Rightarrow> string \<Rightarrow> InternalDeclarationMetadata \<Rightarrow> MetadataState \<Rightarrow> MetadataState" where
  "skipAncillary d symName md st =
     (if declKind d = SetAccessor \<and> tsdocParserContext md \<noteq> None
      then addAnalyzerIssue SetterWithDocs
             (''The doc comment for the property '' @ dq @ symName @ dq
              @ '' must appear on the getter, not the setter.'')
             (OnDeclaration (declId d)) st
      else st)"

function fetchSymbolMetadata_private ::
    "nat \<Rightarrow> FrontEnd \<Rightarrow> CollectorEntity list \<Rightarrow> nat \<Rightarrow> MetadataState \<Rightarrow> MetadataState outcome"
  and calculateApiItemMetadataForDeclarations ::
    "nat \<Rightarrow> FrontEnd \<Rightarrow> CollectorEntity list \<Rightarrow> AstDeclaration list \<Rightarrow> MetadataState
       \<Rightarrow> MetadataState outcome"
  and calculateApiItemMetadata ::
    "nat \<Rightarrow> FrontEnd \<Rightarrow> CollectorEntity list \<Rightarrow> AstDeclaration \<Rightarrow> MetadataState
       \<Rightarrow> MetadataState outcome"
  and fetchApiItemMetadata ::
    "nat \<Rightarrow> FrontEnd \<Rightarrow> CollectorEntity list \<Rightarrow> AstDeclaration \<Rightarrow> MetadataState
       \<Rightarrow> (ApiItemMetadataRef option \<times> MetadataState) outcome"
where
  "fetchSymbolMetadata_private fuel0 fe ents s st =
     (case fuel0 of
        0 \<Rightarrow> None
      | Suc fuel \<Rightarrow>
          if symbolMetadata st s \<noteq> None then Some (Inr st)
          else case lookupEntity fe s of
            Some (AstSymbol n x p r ds) \<Rightarrow>
              thenDo (case p of
                        None \<Rightarrow> Some (Inr st)
                      | Some ps \<Rightarrow>
                          if symbolMetadata st ps = None
                          then fetchSymbolMetadata_private fuel fe ents ps st
                          else Some (Inr st))
                (\<lambda>st1. thenDo (calculateDeclarationMetadataForDeclarations fe ds st1)
                  (\<lambda>st2. thenDo (calculateApiItemMetadataForDeclarations fuel fe ents ds st2)
                    (\<lambda>st3. setSymbolMetadata s ds st3)))
          | _ \<Rightarrow> None)"
| "calculateApiItemMetadataForDeclarations fuel fe ents decls st =
     (case decls of
        [] \<Rightarrow> Some (Inr st)
      | d # ds \<Rightarrow>
          thenDo (calculateApiItemMetadata fuel fe ents d st)
            (\<lambda>st'. calculateApiItemMetadataForDeclarations fuel fe ents ds st'))"
| "calculateApiItemMetadata fuel fe ents d st =
     (case declarationMetadata st (declId d) of
        None \<Rightarrow> Some (Inl TypeError)
      | Some md \<Rightarrow>
          (case lookupEntity fe (astSymbol d) of
             Some (AstSymbol n x p r ds) \<Rightarrow>
               if isAncillary md then Some (Inr (skipAncillary d n md st))
               else
                 (case readDocComment fe d n x (tsdocParserContext md) st of
                    (options, st1) \<Rightarrow>
                      thenDo (case parent d of
                                None \<Rightarrow> Some (Inr (None, st1))
                              | Some pid \<Rightarrow>
                                  (case lookupDeclaration fe pid of
                                     None \<Rightarrow> None
                                   | Some pd \<Rightarrow>
                                       thenDo (fetchApiItemMetadata fuel fe ents pd st1)
                                         dereference))
                        (finishApiItemMetadata fe ents d x r (tsdocParserContext md) options))
           | _ \<Rightarrow> None))"
| "fetchApiItemMetadata fuel fe ents d st =
     (case apiItemMetadata st (declId d) of
        Some r \<Rightarrow> Some (Inr (Some r, st))
      | None \<Rightarrow>
          thenDo (fetchSymbolMetadata_private fuel fe ents (astSymbol d) st)
            (\<lambda>st'. Some (Inr (apiItemMetadata st' (declId d), st'))))"
  by pat_completeness auto
termination fetchSymbolMetadata_private
  by (relation "measures
        [\<lambda>x. case x of Inl (Inl (fuel, _)) \<Rightarrow> fuel
                  | Inl (Inr (fuel, _)) \<Rightarrow> fuel
                  | Inr (Inl (fuel, _)) \<Rightarrow> fuel
                  | Inr (Inr (fuel, _)) \<Rightarrow> fuel,
         \<lambda>x. case x of Inl (Inl _) \<Rightarrow> 0
                  | Inl (Inr _) \<Rightarrow> 3
                  | Inr (Inl _) \<Rightarrow> 2
                  | Inr (Inr _) \<Rightarrow> 1,
         \<lambda>x. case x of Inl (Inr (fuel, fe, ents, ds, st)) \<Rightarrow> length ds
                  | _ \<Rightarrow> 0]") auto

declare fetchSymbolMetadata_private.simps [simp del]
declare calculateApiItemMetadataForDeclarations.simps [simp del]
declare calculateApiItemMetadata.simps [simp del]
declare fetchApiItemMetadata.simps [simp del]

section \<open>Name assigner\<close>

text \<open>The decimal rendering of a number, as the template literal of the source gives it.\<close>

definition digitChar :: "nat \<Rightarrow> char" where
  "digitChar n = char_of (48 + n)"

fun showNat :: "nat \<Rightarrow> string" where
  "showNat n = (if n < 10 then [digitChar n] else showNat (n div 10) @ [digitChar (n mod 10)])"

declare showNat.simps [simp del]

lemma digitChar_inj: "a < 10 \<Longrightarrow> b < 10 \<Longrightarrow> digitChar a = digitChar b \<Longrightarrow> a = b"
  by (simp add: digitChar_def char_of_eq_iff take_bit_eq_mod)

lemma showNat_not_Nil: "showNat n \<noteq> []"
  by (subst showNat.simps) simp

lemma showNat_inj: "showNat n = showNat m \<Longrightarrow> n = m"
proof (induction n arbitrary: m rule: less_induct)
  case (less n)
  show ?case
  proof (cases "n < 10")
    case True
    show ?thesis
    proof (cases "m < 10")
      case mlt: True
      from less.prems True mlt have "digitChar n = digitChar m"
        by (simp add: showNat.simps[of n] showNat.simps[of m])
      with True mlt show ?thesis by (simp add: digitChar_inj)
    next
      case mge: False
      from less.prems True mge
      have "[digitChar n] = showNat (m div 10) @ [digitChar (m mod 10)]"
        by (simp add: showNat.simps[of n] showNat.simps[of m])
      then have "showNat (m div 10) = []" by simp
      with showNat_not_Nil show ?thesis by blast
    qed
  next
    case False
    show ?thesis
    proof (cases "m < 10")
      case mlt: True
      from less.prems False mlt
      have "showNat (n div 10) @ [digitChar (n mod 10)] = [digitChar m]"
        by (simp add: showNat.simps[of n] showNat.simps[of m])
      then have "showNat (n div 10) = []" by simp
      with showNat_not_Nil show ?thesis by blast
    next
      case mge: False
      from less.prems False mge
      have "showNat (n div 10) @ [digitChar (n mod 10)]
            = showNat (m div 10) @ [digitChar (m mod 10)]"
        by (simp add: showNat.simps[of n] showNat.simps[of m])
      then have a: "showNat (n div 10) = showNat (m div 10)"
        and b: "digitChar (n mod 10) = digitChar (m mod 10)" by simp_all
      from False have "n div 10 < n" by simp
      from less.IH[OF this a] have q: "n div 10 = m div 10" .
      from b have r: "n mod 10 = m mod 10" by (intro digitChar_inj) simp_all
      from q r show ?thesis by (metis div_mult_mod_eq)
    qed
  qed
qed

text \<open>First loop of \<open>_makeUniqueNames\<close>: the export names are collected; a repeated one is fatal.\<close>

fun collectExportNames :: "string list \<Rightarrow> string list \<Rightarrow> error + string list" where
  "collectExportNames [] usedNames = Inr usedNames"
| "collectExportNames (exportName # ns) usedNames =
     (if exportName \<in> set usedNames
      then Inl (InternalError
             (''A package cannot have two exports with the name '' @ dq @ exportName @ dq))
      else collectExportNames ns (usedNames @ [exportName]))"

fun collectAllExportNames :: "CollectorEntity list \<Rightarrow> string list \<Rightarrow> error + string list" where
  "collectAllExportNames [] usedNames = Inr usedNames"
| "collectAllExportNames (entity # es) usedNames =
     (case collectExportNames (exportNames entity) usedNames of
        Inl err \<Rightarrow> Inl err
      | Inr usedNames' \<Rightarrow> collectAllExportNames es usedNames')"

definition hasGlobalName :: "FrontEnd \<Rightarrow> string \<Rightarrow> bool" where
  "hasGlobalName fe n = (n \<in> set (globalNames fe))"

text \<open>
  The name the entity would ideally be emitted under; \<open>local\<close> is
  \<open>entity.astEntity.localName\<close>.  \<open>split('.')[0]\<close> is the text before the first dot.
\<close>

definition idealNameForEmit :: "CollectorEntity \<Rightarrow> string \<Rightarrow> string" where
  "idealNameForEmit entity local =
     (let ideal = (case singleExportName entity of
                     Some n \<Rightarrow> if n \<noteq> ''default'' then n else local
                   | None \<Rightarrow> local)
      in if CHR ''.'' \<in> set ideal then takeWhile (\<lambda>c. c \<noteq> CHR ''.'') ideal else ideal)"

definition nameTaken :: "FrontEnd \<Rightarrow> string list \<Rightarrow> string \<Rightarrow> bool" where
  "nameTaken fe usedNames n =
     (n = ''default'' \<or> n \<in> set usedNames \<or> hasGlobalName fe n)"

definition suffixed :: "string \<Rightarrow> nat \<Rightarrow> string" where
  "suffixed ideal k = ideal @ ''_'' @ showNat k"

lemma suffixed_inj: "suffixed ideal k = suffixed ideal k' \<Longrightarrow> k = k'"
  by (simp add: suffixed_def showNat_inj)

lemma finite_taken_suffixes: "finite {k. nameTaken fe usedNames (suffixed ideal k)}"
proof -
  have "{k. nameTaken fe usedNames (suffixed ideal k)}
        \<subseteq> suffixed ideal -` ({''default''} \<union> set usedNames \<union> set (globalNames fe))"
    by (auto simp: nameTaken_def hasGlobalName_def)
  moreover have "finite (suffixed ideal -` ({''default''} \<union> set usedNames \<union> set (globalNames fe)))"
    by (intro finite_vimageI) (auto simp: inj_on_def dest: suffixed_inj)
  ultimately show ?thesis by (rule finite_subset)
qed

text \<open>
  The \<open>while\<close> loop that looks for a free name: \<open>suffix\<close> and \<open>candidate\<close> (the
  variable \<open>nameForEmit\<close> of the source) are the two variables of the loop.
\<close>

function chooseUniqueName :: "FrontEnd \<Rightarrow> string list \<Rightarrow> string \<Rightarrow> nat \<Rightarrow> string \<Rightarrow> string" where
  "chooseUniqueName fe usedNames ideal suffix candidate =
     (if nameTaken fe usedNames candidate
      then chooseUniqueName fe usedNames ideal (Suc suffix) (suffixed ideal (Suc suffix))
      else candidate)"
  by pat_completeness auto
termination chooseUniqueName
proof (relation "measure (\<lambda>(fe, usedNames, ideal, suffix, candidate).
         card {k. suffix < k \<and> nameTaken fe usedNames (suffixed ideal k)}
         + (if nameTaken fe usedNames candidate then 1 else 0))", goal_cases)
  case 1
  then show ?case by simp
next
  case (2 fe usedNames ideal suffix candidate)
  let ?T = "\<lambda>s. {k. s < k \<and> nameTaken fe usedNames (suffixed ideal k)}"
  have fin: "finite (?T suffix)"
    by (rule finite_subset[OF _ finite_taken_suffixes[of fe usedNames ideal]]) auto
  show ?case
  proof (cases "nameTaken fe usedNames (suffixed ideal (Suc suffix))")
    case True
    have "?T suffix = insert (Suc suffix) (?T (Suc suffix))"
      using True by (auto simp: less_Suc_eq_le Suc_le_eq)
    moreover have "Suc suffix \<notin> ?T (Suc suffix)" by simp
    moreover have "finite (?T (Suc suffix))"
      by (rule finite_subset[OF _ fin]) auto
    ultimately have "card (?T suffix) = Suc (card (?T (Suc suffix)))"
      by (metis (no_types, lifting) card_insert_disjoint)
    with 2 True show ?thesis by simp
  next
    case False
    have "?T suffix = ?T (Suc suffix)"
      using False by (auto simp: Suc_lessI intro: Suc_lessI)
    with 2 False show ?thesis by simp
  qed
qed

declare chooseUniqueName.simps [simp del]

text \<open>
  Second loop of \<open>_makeUniqueNames\<close>.  The result is missing when the entity of a node is
  not an object of the table.
\<close>

fun assignNames ::
  "FrontEnd \<Rightarrow> CollectorEntity list \<Rightarrow> string list \<Rightarrow> CollectorEntity list option" where
  "assignNames fe [] usedNames = Some []"
| "assignNames fe (entity # es) usedNames =
     (case lookupEntity fe (astEntity entity) of
        None \<Rightarrow> None
      | Some a \<Rightarrow>
          (let ideal = idealNameForEmit entity (localName a)
           in if ideal \<in> set (exportNames entity) \<and> \<not> hasGlobalName fe ideal
                 \<and> ideal \<noteq> ''default''
              then map_option ((#) (entity\<lparr>nameForEmit := Some ideal\<rparr>))
                     (assignNames fe es usedNames)
              else (let n = chooseUniqueName fe usedNames ideal 1 ideal
                    in map_option ((#) (entity\<lparr>nameForEmit := Some n\<rparr>))
                         (assignNames fe es (usedNames @ [n])))))"

definition makeUniqueNames :: "FrontEnd \<Rightarrow> CollectorEntity list \<Rightarrow> CollectorEntity list outcome" where
  "makeUniqueNames fe ents =
     (case collectAllExportNames ents [] of
        Inl err \<Rightarrow> Some (Inl err)
      | Inr usedNames \<Rightarrow> map_option Inr (assignNames fe ents usedNames))"

section \<open>The analysis of the collector\<close>

record Collector =
  astEntryPoint :: bool
  entities :: "CollectorEntity list"
  metadata :: MetadataState

definition newMetadataState :: MetadataState where
  "newMetadataState =
     \<lparr> symbolMetadata = (\<lambda>s. None), declarationMetadata = (\<lambda>d. None),
       apiItemMetadata = (\<lambda>d. None), nextAddress = 0, messages = [] \<rparr>"

definition newCollector :: Collector where
  "newCollector = \<lparr> astEntryPoint = False, entities = [], metadata = newMetadataState \<rparr>"

text \<open>The public accessors that compute the metadata on demand.\<close>

definition fetchSymbolMetadata ::
  "nat \<Rightarrow> FrontEnd \<Rightarrow> CollectorEntity list \<Rightarrow> nat \<Rightarrow> MetadataState
     \<Rightarrow> (ReleaseTag option \<times> MetadataState) outcome" where
  "fetchSymbolMetadata fuel fe ents s st =
     (if symbolMetadata st s = None
      then thenDo (fetchSymbolMetadata_private fuel fe ents s st)
             (\<lambda>st'. Some (Inr (symbolMetadata st' s, st')))
      else Some (Inr (symbolMetadata st s, st)))"

definition fetchDeclarationMetadata ::
  "nat \<Rightarrow> FrontEnd \<Rightarrow> CollectorEntity list \<Rightarrow> AstDeclaration \<Rightarrow> MetadataState
     \<Rightarrow> (InternalDeclarationMetadata option \<times> MetadataState) outcome" where
  "fetchDeclarationMetadata fuel fe ents d st =
     (if declarationMetadata st (declId d) = None
      then thenDo (fetchSymbolMetadata_private fuel fe ents (astSymbol d) st)
             (\<lambda>st'. Some (Inr (declarationMetadata st' (declId d), st')))
      else Some (Inr (declarationMetadata st (declId d), st)))"

text \<open>
  \<open>getNonAncillaryDeclarations\<close>, over the declarations of the symbol; reading
  \<open>isAncillary\<close> of a missing metadata object fails.
\<close>

fun getNonAncillaryDeclarations ::
  "nat \<Rightarrow> FrontEnd \<Rightarrow> CollectorEntity list \<Rightarrow> AstDeclaration list \<Rightarrow> MetadataState
     \<Rightarrow> (AstDeclaration list \<times> MetadataState) outcome" where
  "getNonAncillaryDeclarations fuel fe ents [] st = Some (Inr ([], st))"
| "getNonAncillaryDeclarations fuel fe ents (d # ds) st =
     thenDo (fetchDeclarationMetadata fuel fe ents d st)
       (\<lambda>r. case r of
               (None, st1) \<Rightarrow> Some (Inl TypeError)
             | (Some md, st1) \<Rightarrow>
                 thenDo (getNonAncillaryDeclarations fuel fe ents ds st1)
                   (\<lambda>r'. case r' of
                      (result, st2) \<Rightarrow>
                        Some (Inr (if \<not> isAncillary md then d # result else result, st2))))"

text \<open>The loop of \<open>analyze\<close> over the export table that creates the exported nodes.\<close>

fun createExportedCollectorEntities ::
  "(string \<times> nat) list \<Rightarrow> CollectorEntity list \<Rightarrow> CollectorEntity list" where
  "createExportedCollectorEntities [] ents = ents"
| "createExportedCollectorEntities ((exportName, e) # xs) ents =
     createExportedCollectorEntities xs (createCollectorEntity e (Some exportName) False ents)"

text \<open>
  The loop of \<open>analyze\<close> over the exported entities: the indirect references of each are
  traversed with one visited set, and the metadata of an exported symbol is fetched.
\<close>

definition fetchExportedSymbolMetadata ::
  "nat \<Rightarrow> FrontEnd \<Rightarrow> CollectorEntity list \<Rightarrow> nat \<Rightarrow> MetadataState \<Rightarrow> MetadataState outcome" where
  "fetchExportedSymbolMetadata fuel fe ents e st =
     (case lookupEntity fe e of
        Some (AstSymbol n x p r ds) \<Rightarrow>
          thenDo (fetchSymbolMetadata fuel fe ents e st) (\<lambda>r. Some (Inr (snd r)))
      | _ \<Rightarrow> Some (Inr st))"

fun createIndirectEntities ::
  "nat \<Rightarrow> FrontEnd \<Rightarrow> nat list \<Rightarrow> graphState \<Rightarrow> MetadataState
     \<Rightarrow> (graphState \<times> MetadataState) outcome" where
  "createIndirectEntities fuel fe [] g st = Some (Inr (g, st))"
| "createIndirectEntities fuel fe (e # es) g st =
     (case createEntityForIndirectReferences fe e g of
        Inl err \<Rightarrow> Some (Inl err)
      | Inr g' \<Rightarrow>
          thenDo (fetchExportedSymbolMetadata fuel fe (fst g') e st)
            (\<lambda>st'. createIndirectEntities fuel fe es g' st'))"

text \<open>
  \<open>String.prototype.toLowerCase\<close> on strings of code units below 256 (a character of the
  model is such a code unit): the letters \<open>A\<close> to \<open>Z\<close> (65 to 90) and the capital letters
  of the Latin-1 range (192 to 222 without the multiplication sign 215) are mapped to
  the letter 32 code units above, every other code unit below 256 is left as it is.
\<close>

definition lowerCaseCode :: "nat \<Rightarrow> nat" where
  "lowerCaseCode n =
     (if (65 \<le> n \<and> n \<le> 90) \<or> (192 \<le> n \<and> n \<le> 222 \<and> n \<noteq> 215) then n + 32 else n)"

definition toLowerCase :: "string \<Rightarrow> string" where
  "toLowerCase s = map (\<lambda>c. char_of (lowerCaseCode (of_char c))) s"

text \<open>\<open>getSortKeyIgnoringUnderscore\<close>.\<close>

definition getSortKeyIgnoringUnderscore :: "string option \<Rightarrow> string" where
  "getSortKeyIgnoringUnderscore identifier =
     (case identifier of
        None \<Rightarrow> []
      | Some [] \<Rightarrow> []
      | Some (c # cs) \<Rightarrow>
          if c = CHR ''_''
          then toLowerCase cs @ ''*'' @ cs @ ''*'' @ ''_''
          else toLowerCase (c # cs) @ ''*'' @ (c # cs))"

text \<open>
  Modelled from the spec: the sort key of a node (\<open>CollectorEntity.getSortKey\<close> is not among
  the sources) is the key above of its emitted name; keys are compared as sequences of
  character codes and the sort is stable.
\<close>

definition getSortKey :: "CollectorEntity \<Rightarrow> nat list" where
  "getSortKey ce = map of_char (getSortKeyIgnoringUnderscore (nameForEmit ce))"

text \<open>
  \<open>analyze\<close>: the nodes of the exports, the nodes of the indirect references, the names,
  the order.  The compiler diagnostics, the package doc comment and the star exports of
  the source do not touch the graph and are left out.
\<close>

definition analyze :: "nat \<Rightarrow> FrontEnd \<Rightarrow> Collector \<Rightarrow> Collector outcome" where
  "analyze fuel fe c =
     (if astEntryPoint c
      then Some (Inl (Error ''DtsRollupGenerator.analyze() was already called''))
      else thenDo (createIndirectEntities fuel fe (map snd (exportedLocalEntities fe))
                     (createExportedCollectorEntities (exportedLocalEntities fe) (entities c), [])
                     (metadata c))
             (\<lambda>r. thenDo (makeUniqueNames fe (fst (fst r)))
                (\<lambda>ents. Some (Inr \<lparr> astEntryPoint = True,
                                      entities = sort_key getSortKey ents,
                                      metadata = snd r \<rparr>))))"

section \<open>Model builder\<close>

text \<open>
  The items of the output model, as far as the walk of the model builder decides them:
  the kind, the parts of the container key (name, static flag, overload index; a part
  that a kind does not use is empty), the release tag and the members.  Excerpts,
  parameters and doc comments are not part of this model.
\<close>

datatype ApiItemKind =
  ApiCallSignature | ApiConstructor | ApiConstructSignature | ApiClass | ApiEnum
| ApiEnumMember | ApiFunction | ApiIndexSignature | ApiInterface | ApiMethod
| ApiMethodSignature | ApiNamespace | ApiProperty | ApiPropertySignature | ApiTypeAlias
| ApiVariable | ApiEntryPoint | ApiPackage

type_synonym containerKey = "ApiItemKind \<times> string \<times> bool \<times> nat"

datatype ApiItem = ApiItem
  (containerKey: containerKey)
  (releaseTag: ReleaseTag)
  (members: "ApiItem list")

fun tryGetMemberByKey :: "ApiItem list \<Rightarrow> containerKey \<Rightarrow> ApiItem option" where
  "tryGetMemberByKey [] key = None"
| "tryGetMemberByKey (m # ms) key =
     (if containerKey m = key then Some m else tryGetMemberByKey ms key)"

fun replaceMember :: "containerKey \<Rightarrow> ApiItem \<Rightarrow> ApiItem list \<Rightarrow> ApiItem list" where
  "replaceMember key m' [] = []"
| "replaceMember key m' (m # ms) =
     (if containerKey m = key then m' # ms else m # replaceMember key m' ms)"

definition addMember :: "ApiItem \<Rightarrow> ApiItem \<Rightarrow> ApiItem" where
  "addMember parentApiItem m =
     ApiItem (containerKey parentApiItem) (releaseTag parentApiItem)
       (members parentApiItem @ [m])"

definition setMember :: "ApiItem \<Rightarrow> containerKey \<Rightarrow> ApiItem \<Rightarrow> ApiItem" where
  "setMember parentApiItem key m =
     ApiItem (containerKey parentApiItem) (releaseTag parentApiItem)
       (replaceMember key m (members parentApiItem))"

text \<open>The dispatch of \<open>_processDeclaration\<close> on the syntax kind; unknown kinds are ignored.\<close>

fun apiItemKindOf :: "SyntaxKind \<Rightarrow> ApiItemKind option" where
  "apiItemKindOf CallSignature = Some ApiCallSignature"
| "apiItemKindOf Constructor = Some ApiConstructor"
| "apiItemKindOf ConstructSignature = Some ApiConstructSignature"
| "apiItemKindOf ClassDeclaration = Some ApiClass"
| "apiItemKindOf EnumDeclaration = Some ApiEnum"
| "apiItemKindOf EnumMember = Some ApiEnumMember"
| "apiItemKindOf FunctionDeclaration = Some ApiFunction"
| "apiItemKindOf GetAccessor = Some ApiProperty"
| "apiItemKindOf SetAccessor = Some ApiProperty"
| "apiItemKindOf IndexSignature = Some ApiIndexSignature"
| "apiItemKindOf InterfaceDeclaration = Some ApiInterface"
| "apiItemKindOf MethodDeclaration = Some ApiMethod"
| "apiItemKindOf MethodSignature = Some ApiMethodSignature"
| "apiItemKindOf ModuleDeclaration = Some ApiNamespace"
| "apiItemKindOf PropertyDeclaration = Some ApiProperty"
| "apiItemKindOf PropertySignature = Some ApiPropertySignature"
| "apiItemKindOf TypeAliasDeclaration = Some ApiTypeAlias"
| "apiItemKindOf VariableDeclaration = Some ApiVariable"
| "apiItemKindOf (OtherSyntaxKind k) = None"

definition processesChildren :: "ApiItemKind \<Rightarrow> bool" where
  "processesChildren k = (k = ApiClass \<or> k = ApiEnum \<or> k = ApiInterface \<or> k = ApiNamespace)"

definition keyHasName :: "ApiItemKind \<Rightarrow> bool" where
  "keyHasName k =
     (k \<noteq> ApiCallSignature \<and> k \<noteq> ApiConstructor \<and> k \<noteq> ApiConstructSignature
      \<and> k \<noteq> ApiIndexSignature)"

definition keyHasStatic :: "ApiItemKind \<Rightarrow> bool" where
  "keyHasStatic k = (k = ApiMethod \<or> k = ApiProperty)"

definition keyHasOverloadIndex :: "ApiItemKind \<Rightarrow> bool" where
  "keyHasOverloadIndex k =
     (k = ApiCallSignature \<or> k = ApiConstructor \<or> k = ApiConstructSignature
      \<or> k = ApiFunction \<or> k = ApiIndexSignature \<or> k = ApiMethod \<or> k = ApiMethodSignature)"

text \<open>
  \<open>getOverloadIndex\<close>: the position, counted from 1, of the declaration among the
  declarations of its symbol that have its kind; the cache of the source holds these
  positions.  A declaration that is not found among them is the fatal case.
\<close>

fun overloadPosition :: "AstDeclaration \<Rightarrow> AstDeclaration list \<Rightarrow> nat \<Rightarrow> nat option" where
  "overloadPosition d [] nextIndex = None"
| "overloadPosition d (other # ds) nextIndex =
     (if declKind other = declKind d
      then (if declId other = declId d then Some nextIndex
            else overloadPosition d ds (Suc nextIndex))
      else overloadPosition d ds nextIndex)"

definition getOverloadIndex :: "FrontEnd \<Rightarrow> AstDeclaration \<Rightarrow> nat outcome" where
  "getOverloadIndex fe d =
     (case lookupEntity fe (astSymbol d) of
        Some (AstSymbol n x p r decls) \<Rightarrow>
          if length decls = 1 then Some (Inr 1)
          else (case overloadPosition d decls 1 of
                  None \<Rightarrow> Some (Inl (InternalError
                                     ''Error calculating overload index for declaration''))
                | Some i \<Rightarrow> Some (Inr i))
      | _ \<Rightarrow> None)"

text \<open>The container key that the function of the kind computes before it looks the member up.\<close>

definition containerKeyOf ::
  "FrontEnd \<Rightarrow> AstDeclaration \<Rightarrow> ApiItemKind \<Rightarrow> string option \<Rightarrow> containerKey outcome" where
  "containerKeyOf fe d k exportedName =
     (case lookupEntity fe (astSymbol d) of
        Some (AstSymbol n x p r ds) \<Rightarrow>
          (let name = (if keyHasName k
                       then (case exportedName of
                               Some en \<Rightarrow> if en \<noteq> [] then en else n
                             | None \<Rightarrow> n)
                       else []);
               isStatic = (keyHasStatic k \<and> ModifierFlags_Static \<in> set (modifierFlags d))
           in if keyHasOverloadIndex k
              then thenDo (getOverloadIndex fe d) (\<lambda>i. Some (Inr (k, name, isStatic, i)))
              else Some (Inr (k, name, isStatic, 0)))
      | _ \<Rightarrow> None)"

text \<open>The member for the key: the one that exists, or a new one added at the end.\<close>

definition ensureMember :: "ApiItem \<Rightarrow> containerKey \<Rightarrow> ReleaseTag \<Rightarrow> ApiItem" where
  "ensureMember parentApiItem key tag =
     (case tryGetMemberByKey (members parentApiItem) key of
        None \<Rightarrow> addMember parentApiItem (ApiItem key tag [])
      | Some m \<Rightarrow> parentApiItem)"

text \<open>
  \<open>apiItemMetadata.effectiveReleaseTag\<close> of the fetched object in \<open>_processDeclaration\<close>.
\<close>

definition fetchEffectiveReleaseTag ::
  "nat \<Rightarrow> FrontEnd \<Rightarrow> CollectorEntity list \<Rightarrow> AstDeclaration \<Rightarrow> MetadataState
     \<Rightarrow> (ReleaseTag \<times> MetadataState) outcome" where
  "fetchEffectiveReleaseTag fuel fe ents d st =
     thenDo (fetchApiItemMetadata fuel fe ents d st)
       (\<lambda>r. case r of
               (None, st') \<Rightarrow> Some (Inl TypeError)
             | (Some (a, md), st') \<Rightarrow> Some (Inr (effectiveReleaseTag md, st')))"

lemma size_children: "Suc (2 * size_list size (children d)) < 2 * size d"
  by (cases d) simp

text \<open>
  \<open>_processDeclaration\<close> with \<open>_processChildDeclarations\<close>.  The functions of the kinds
  share one shape: compute the key, add the item unless a member has the key, and for a
  class, an enum, an interface or a namespace process the children into the member.  The
  metadata that they fetch again is the object fetched here.
\<close>

function processDeclaration ::
    "nat \<Rightarrow> FrontEnd \<Rightarrow> CollectorEntity list \<Rightarrow> AstDeclaration \<Rightarrow> string option \<Rightarrow> ApiItem
       \<Rightarrow> MetadataState \<Rightarrow> (ApiItem \<times> MetadataState) outcome"
  and processChildDeclarations ::
    "nat \<Rightarrow> FrontEnd \<Rightarrow> CollectorEntity list \<Rightarrow> AstDeclaration list \<Rightarrow> ApiItem
       \<Rightarrow> MetadataState \<Rightarrow> (ApiItem \<times> MetadataState) outcome"
where
  "processDeclaration fuel fe ents d exportedName parentApiItem st =
     (if ModifierFlags_Private \<in> set (modifierFlags d) then Some (Inr (parentApiItem, st))
      else thenDo (fetchEffectiveReleaseTag fuel fe ents d st)
        (\<lambda>r. case r of
           (tag, st1) \<Rightarrow>
             if tag = ReleaseTag_Internal \<or> tag = ReleaseTag_Alpha
             then Some (Inr (parentApiItem, st1))
             else (case apiItemKindOf (declKind d) of
                     None \<Rightarrow> Some (Inr (parentApiItem, st1))
                   | Some k \<Rightarrow>
                       thenDo (containerKeyOf fe d k exportedName)
                         (\<lambda>key.
                            if processesChildren k
                            then (case tryGetMemberByKey
                                         (members (ensureMember parentApiItem key tag)) key of
                                    None \<Rightarrow> None
                                  | Some m \<Rightarrow>
                                      thenDo (processChildDeclarations fuel fe ents
                                                (children d) m st1)
                                        (\<lambda>r'. Some (Inr (setMember
                                                            (ensureMember parentApiItem key tag)
                                                            key (fst r'),
                                                          snd r'))))
                            else Some (Inr (ensureMember parentApiItem key tag, st1))))))"
| "processChildDeclarations fuel fe ents cs parentApiItem st =
     (case cs of
        [] \<Rightarrow> Some (Inr (parentApiItem, st))
      | childDeclaration # cs' \<Rightarrow>
          thenDo (processDeclaration fuel fe ents childDeclaration None parentApiItem st)
            (\<lambda>r. processChildDeclarations fuel fe ents cs' (fst r) (snd r)))"
  by pat_completeness auto
termination processDeclaration
  by (relation "measure (\<lambda>x. case x of
          Inl (fuel, fe, ents, d, exportedName, parentApiItem, st) \<Rightarrow> 2 * size d
        | Inr (fuel, fe, ents, cs, parentApiItem, st) \<Rightarrow> 2 * size_list size cs + 1)")
     (auto simp: size_children)

declare processDeclaration.simps [simp del]
declare processChildDeclarations.simps [simp del]

text \<open>The loop of \<open>_processAstEntity\<close> over the declarations that are not ancillary.\<close>

fun processDeclarations ::
  "nat \<Rightarrow> FrontEnd \<Rightarrow> CollectorEntity list \<Rightarrow> AstDeclaration list \<Rightarrow> string option \<Rightarrow> ApiItem
     \<Rightarrow> MetadataState \<Rightarrow> (ApiItem \<times> MetadataState) outcome" where
  "processDeclarations fuel fe ents [] exportedName parentApiItem st =
     Some (Inr (parentApiItem, st))"
| "processDeclarations fuel fe ents (d # ds) exportedName parentApiItem st =
     thenDo (processDeclaration fuel fe ents d exportedName parentApiItem st)
       (\<lambda>r. processDeclarations fuel fe ents ds exportedName (fst r) (snd r))"





section \<open>Properties of the indirect-reference traversal\<close>

lemma seen_distinct:
  "createEntityForIndirectReferences fe e st = Inr st' \<Longrightarrow> distinct (snd st) \<Longrightarrow>
     distinct (snd st') \<and> set (snd st) \<subseteq> set (snd st') \<and> e \<in> set (snd st')"
  "forEachReference fe e rs st = Inr st' \<Longrightarrow> distinct (snd st) \<Longrightarrow>
     distinct (snd st') \<and> set (snd st) \<subseteq> set (snd st')"
  "forEachExportedEntity fe e xs st = Inr st' \<Longrightarrow> distinct (snd st) \<Longrightarrow>
     distinct (snd st') \<and> set (snd st) \<subseteq> set (snd st')"
proof (induction fe e st and fe e rs st and fe e xs st arbitrary: st' and st' and st'
       rule: createEntityForIndirectReferences_forEachReference_forEachExportedEntity.induct)
  case (1 fe e ents seen)
  show ?case
  proof (cases "e \<in> set seen")
    case True
    with 1(3,4) show ?thesis by (auto simp: createEntityForIndirectReferences.simps)
  next
    case False
    show ?thesis
    proof (cases "lookupEntity fe e")
      case None
      with False 1(3,4) show ?thesis by (auto simp: createEntityForIndirectReferences.simps)
    next
      case (Some a)
      show ?thesis
      proof (cases a)
        case (AstSymbol n x p r ds)
        with False Some 1(3)
        have "forEachReference fe e (symbolReferences ds) (ents, seen @ [e]) = Inr st'"
          by (simp add: createEntityForIndirectReferences.simps)
        from 1(1)[OF False Some AstSymbol this] False 1(4) show ?thesis by auto
      next
        case (AstNamespaceImport n mn xs)
        with False Some 1(3)
        have "forEachExportedEntity fe e (map snd xs) (ents, seen @ [e]) = Inr st'"
          by (simp add: createEntityForIndirectReferences.simps)
        from 1(2)[OF False Some AstNamespaceImport this] False 1(4) show ?thesis by auto
      next
        case (AstImport n)
        with False Some 1(3,4) show ?thesis by (auto simp: createEntityForIndirectReferences.simps)
      qed
    qed
  qed
next
  case (2 fe e st)
  then show ?case by simp
next
  case (3 fe e t k rs ents seen)
  from 3(3) obtain entity st1 where
    g: "getEntity ents e = Some entity" and
    v: "createEntityForIndirectReferences fe t (createReferencedEntity fe entity t k ents, seen) = Inr st1" and
    r: "forEachReference fe e rs st1 = Inr st'"
    by (auto split: option.splits sum.splits)
  from 3(1)[OF g v] 3(4) have a: "distinct (snd st1) \<and> set seen \<subseteq> set (snd st1)" by simp
  with 3(2)[OF g v r] show ?case by auto
next
  case (4 fe e st)
  then show ?case by simp
next
  case (5 fe e x xs ents seen)
  from 5(3) obtain st1 where
    v: "createEntityForIndirectReferences fe x (createExportedEntity e x ents, seen) = Inr st1" and
    r: "forEachExportedEntity fe e xs st1 = Inr st'"
    by (auto split: sum.splits)
  from 5(1)[OF v] 5(4) have a: "distinct (snd st1) \<and> set seen \<subseteq> set (snd st1)" by simp
  with 5(2)[OF v r] show ?case by auto
qed

definition cyclicInheritance :: FrontEnd where
  "cyclicInheritance =
     \<lparr> astEntities =
         [(1, AstSymbol ''A'' False None 1
                [AstDeclaration 10 ClassDeclaration [] 1 None None [(2, Inheritance)] []]),
          (2, AstSymbol ''B'' False None 2
                [AstDeclaration 20 ClassDeclaration [] 2 None None [(1, Inheritance)] []])],
       exportedLocalEntities = [(''A'', 1)], globalNames = [],
       preapprovedTagDefined = False, includeForgottenExports = False \<rparr>"

text \<open>
  C9.  The indirect-reference traversal terminates on every reference graph, cyclic ones
  included: every call lies in the domain of the recursion.  The visited set bounds the
  work: an entity already visited is not expanded again (the call returns the state
  unchanged), and since an entity is appended to the visited sequence exactly when it is
  expanded, a sequence without repetitions stays without repetitions, so no entity is
  expanded twice.
\<close>

theorem traversal_terminates_expanding_once:
  "createEntityForIndirectReferences_forEachReference_forEachExportedEntity_dom
     (Inl (fe, e, ents, seen))
   \<and> (e \<in> set seen \<longrightarrow> createEntityForIndirectReferences fe e (ents, seen) = Inr (ents, seen))
   \<and> (distinct seen \<longrightarrow>
        (\<forall>ents' seen'. createEntityForIndirectReferences fe e (ents, seen) = Inr (ents', seen')
           \<longrightarrow> distinct seen' \<and> set seen \<subseteq> set seen' \<and> e \<in> set seen'))"
proof (intro conjI impI allI)
  show "createEntityForIndirectReferences_forEachReference_forEachExportedEntity_dom
          (Inl (fe, e, ents, seen))"
    using createEntityForIndirectReferences_total by blast
next
  assume "e \<in> set seen"
  then show "createEntityForIndirectReferences fe e (ents, seen) = Inr (ents, seen)"
    by (simp add: createEntityForIndirectReferences.simps)
next
  fix ents' seen'
  assume d: "distinct seen"
    and r: "createEntityForIndirectReferences fe e (ents, seen) = Inr (ents', seen')"
  from seen_distinct(1)[OF r] d
  show "distinct seen'" "set seen \<subseteq> set seen'" "e \<in> set seen'" by simp_all
qed

theorem traversal_terminates_expanding_once_witness:
  "distinct ([] :: nat list)
   \<and> createEntityForIndirectReferences cyclicInheritance 1
         (createCollectorEntity 1 (Some ''A'') False [], [])
       = Inr ([\<lparr>astEntity = 1, exportNames = [''A''], consumableViaInheritance = True,
                 nameForEmit = None, astNamespaceImports = []\<rparr>,
               \<lparr>astEntity = 2, exportNames = [], consumableViaInheritance = True,
                 nameForEmit = None, astNamespaceImports = []\<rparr>], [1, 2])
   \<and> distinct [1, 2 :: nat]
   \<and> createEntityForIndirectReferences_forEachReference_forEachExportedEntity_dom
         (Inl (cyclicInheritance, 1, createCollectorEntity 1 (Some ''A'') False [], []))"
proof -
  have ev: "createEntityForIndirectReferences cyclicInheritance 1
              (createCollectorEntity 1 (Some ''A'') False [], [])
            = Inr ([\<lparr>astEntity = 1, exportNames = [''A''], consumableViaInheritance = True,
                      nameForEmit = None, astNamespaceImports = []\<rparr>,
                    \<lparr>astEntity = 2, exportNames = [], consumableViaInheritance = True,
                      nameForEmit = None, astNamespaceImports = []\<rparr>], [1, 2])"
    by (simp add: createEntityForIndirectReferences.simps cyclicInheritance_def
          createCollectorEntity_def lookupEntity_def symbolReferences_def
          newCollectorEntity_def addExportName_def createReferencedEntity_def
          consumable_def exported_def)
  from traversal_terminates_expanding_once
         [of cyclicInheritance 1 "createCollectorEntity 1 (Some ''A'') False []" "[]"] ev
  show ?thesis by simp
qed

text \<open>
  Nested siblings of an exported namespace that refer to each other:
  \<open>export namespace N { export class A extends B {}  export class B extends Z {} }\<close>.
  The traversal of \<open>N\<close> reaches the nested \<open>B\<close>, which has no node, and aborts at the
  reference of \<open>B\<close>.
\<close>

definition nestedSiblings :: FrontEnd where
  "nestedSiblings =
     \<lparr> astEntities =
         [(1, AstSymbol ''N'' False None 1
                [AstDeclaration 10 ModuleDeclaration [] 1 None None []
                   [AstDeclaration 20 ClassDeclaration [] 2 (Some 10) None [(3, Inheritance)] [],
                    AstDeclaration 30 ClassDeclaration [] 3 (Some 10) None [(4, Inheritance)] []]]),
          (2, AstSymbol ''A'' False (Some 1) 1
                [AstDeclaration 20 ClassDeclaration [] 2 (Some 10) None [(3, Inheritance)] []]),
          (3, AstSymbol ''B'' False (Some 1) 1
                [AstDeclaration 30 ClassDeclaration [] 3 (Some 10) None [(4, Inheritance)] []]),
          (4, AstSymbol ''Z'' False None 4
                [AstDeclaration 40 ClassDeclaration [] 4 None None [] []])],
       exportedLocalEntities = [(''N'', 1)], globalNames = [],
       preapprovedTagDefined = False, includeForgottenExports = False \<rparr>"

lemma nestedSiblings_abort:
  "createEntityForIndirectReferences nestedSiblings 1
     (createCollectorEntity 1 (Some ''N'') False [], []) = Inl (Error [])"
  by (simp add: createEntityForIndirectReferences.simps nestedSiblings_def
        createCollectorEntity_def lookupEntity_def symbolReferences_def
        newCollectorEntity_def addExportName_def createReferencedEntity_def
        consumable_def exported_def)

definition nestedReferrer :: FrontEnd where
  "nestedReferrer =
     \<lparr> astEntities =
         [(1, AstSymbol ''B'' False None 1
                [AstDeclaration 10 ClassDeclaration [] 1 None None [(2, Inheritance)] []]),
          (2, AstSymbol ''A'' False (Some 3) 3
                [AstDeclaration 20 ClassDeclaration [] 2 (Some 30) None [(4, Inheritance)] []]),
          (3, AstSymbol ''N'' False None 3
                [AstDeclaration 30 ModuleDeclaration [] 3 None None []
                   [AstDeclaration 20 ClassDeclaration [] 2 (Some 30) None [(4, Inheritance)] []]]),
          (4, AstSymbol ''Z'' False None 4
                [AstDeclaration 40 ClassDeclaration [] 4 None None [] []])],
       exportedLocalEntities = [(''B'', 1)], globalNames = [],
       preapprovedTagDefined = False, includeForgottenExports = False \<rparr>"

text \<open>
  C8.  The abort of the traversal carries no context.  In the object table
  \<open>nestedReferrer\<close> the exported class \<open>B\<close> has a reference to the symbol \<open>A\<close>, which is
  nested in the namespace \<open>N\<close> and has a reference of its own (the same happens for
  nested siblings of an exported namespace that refer to each other).  No node is
  installed for the nested \<open>A\<close>; when its own reference is reached, the lookup of its node
  fails and the traversal throws \<open>new Error()\<close>, whose message is empty: it names neither
  the symbol nor the declaration.
\<close>

theorem traversal_abort_has_empty_message:
  "createEntityForIndirectReferences nestedReferrer 1
     (createCollectorEntity 1 (Some ''B'') False [], []) = Inl (Error [])"
  by (simp add: createEntityForIndirectReferences.simps nestedReferrer_def
        createCollectorEntity_def lookupEntity_def symbolReferences_def
        newCollectorEntity_def addExportName_def createReferencedEntity_def
        consumable_def exported_def)

section \<open>Properties of the metadata propagator\<close>

text \<open>
  The step of \<open>_calculateApiItemMetadata\<close> that fetches the metadata of the parent
  declaration (the expression of the function above, named for the statements below).
\<close>

definition fetchParentApiItemMetadata ::
  "nat \<Rightarrow> FrontEnd \<Rightarrow> CollectorEntity list \<Rightarrow> AstDeclaration \<Rightarrow> MetadataState
     \<Rightarrow> (ApiItemMetadata option \<times> MetadataState) outcome" where
  "fetchParentApiItemMetadata fuel fe ents d st1 =
     (case parent d of
        None \<Rightarrow> Some (Inr (None, st1))
      | Some pid \<Rightarrow>
          (case lookupDeclaration fe pid of
             None \<Rightarrow> None
           | Some pd \<Rightarrow> thenDo (fetchApiItemMetadata fuel fe ents pd st1) dereference))"

text \<open>What a computation leaves for a declaration, and the messages it reported.\<close>

definition metadataOf :: "MetadataState outcome \<Rightarrow> nat \<Rightarrow> ApiItemMetadata option" where
  "metadataOf r i = (case r of Some (Inr st) \<Rightarrow> map_option snd (apiItemMetadata st i) | _ \<Rightarrow> None)"

definition messagesOf :: "MetadataState outcome \<Rightarrow> message list" where
  "messagesOf r = (case r of Some (Inr st) \<Rightarrow> messages st | _ \<Rightarrow> [])"

text \<open>
  The rule of the specification for the effective release tag, with the treatment of a
  missing tag: the declared tag if there is one, otherwise the effective tag of the
  parent, otherwise none; a tag that is still missing becomes \<open>Public\<close> where the engine
  heals it.
\<close>

definition specEffectiveReleaseTag :: "ReleaseTag \<Rightarrow> ReleaseTag option \<Rightarrow> bool \<Rightarrow> ReleaseTag" where
  "specEffectiveReleaseTag declared parentEffective healed =
     (let inherited = (if declared \<noteq> ReleaseTag_None then declared
                       else case parentEffective of Some t \<Rightarrow> t | None \<Rightarrow> ReleaseTag_None)
      in if inherited = ReleaseTag_None \<and> healed then ReleaseTag_Public else inherited)"

text \<open>
  Where a missing tag is healed: the symbol is external, or the node of its root symbol
  exists and is consumable.
\<close>

definition missingTagIsHealed :: "CollectorEntity list \<Rightarrow> bool \<Rightarrow> nat \<Rightarrow> bool" where
  "missingTagIsHealed ents symExternal root =
     (symExternal \<or> (case getEntity ents root of Some entity \<Rightarrow> consumable entity | None \<Rightarrow> False))"

text \<open>The declared tag according to the order public, beta, alpha, internal.\<close>

definition firstReleaseTag :: "ModifierTagSet \<Rightarrow> ReleaseTag" where
  "firstReleaseTag t =
     (if isPublic t then ReleaseTag_Public
      else if isBeta t then ReleaseTag_Beta
      else if isAlpha t then ReleaseTag_Alpha
      else if isInternal t then ReleaseTag_Internal
      else ReleaseTag_None)"

definition releaseTagCount :: "ModifierTagSet \<Rightarrow> nat" where
  "releaseTagCount t =
     (if isPublic t then 1 else 0) + (if isBeta t then 1 else 0)
     + (if isAlpha t then 1 else 0) + (if isInternal t then 1 else 0)"

lemma readReleaseTags_eq:
  "readReleaseTags t = (firstReleaseTag t, 2 \<le> releaseTagCount t)"
  by (simp add: readReleaseTags_def nextReleaseTag_def firstReleaseTag_def releaseTagCount_def)

lemma thenDo_Some_Inr:
  "thenDo r k = Some (Inr y) \<longleftrightarrow> (\<exists>x. r = Some (Inr x) \<and> k x = Some (Inr y))"
  by (auto simp: thenDo_def split: option.splits sum.splits)

lemma shareApiItemMetadata_apply:
  "apiItemMetadata (shareApiItemMetadata r as st) i
     = (if i \<in> set as then Some r else apiItemMetadata st i)"
  by (induction as arbitrary: st) auto

lemma shareApiItemMetadata_other:
  "messages (shareApiItemMetadata r as st) = messages st"
  "declarationMetadata (shareApiItemMetadata r as st) = declarationMetadata st"
  "symbolMetadata (shareApiItemMetadata r as st) = symbolMetadata st"
  by (induction as arbitrary: st) auto

lemma attachApiItemMetadata_result:
  assumes "attachApiItemMetadata d pc options st = Inr st'"
  shows "apiItemMetadata st' (declId d) = Some (nextAddress st, options\<lparr>tsdocComment := pc\<rparr>)"
    and "messages st' = messages st"
    and "declarationMetadata st' = declarationMetadata st"
  using assms
  by (auto simp: attachApiItemMetadata_def Let_def shareApiItemMetadata_apply
        shareApiItemMetadata_other split: option.splits)

lemma readDocComment_frame:
  assumes "readDocComment fe d n x pc st = (options, st1)"
  shows "apiItemMetadata st1 = apiItemMetadata st"
    and "declarationMetadata st1 = declarationMetadata st"
    and "symbolMetadata st1 = symbolMetadata st"
    and "nextAddress st1 = nextAddress st"
  using assms
  by (auto simp: readDocComment_def Let_def addAnalyzerIssue_def
        split: option.splits if_splits prod.splits)

lemma readDocComment_declared:
  assumes "readDocComment fe d n x pc st = (options, st1)"
  shows "declaredReleaseTag options
           = (case pc of None \<Rightarrow> ReleaseTag_None | Some t \<Rightarrow> firstReleaseTag t)"
  using assms
  by (auto simp: readDocComment_def Let_def defaultOptions_def readReleaseTags_eq
        split: option.splits if_splits)

lemma readDocComment_messages:
  assumes "readDocComment fe d n x pc st = (options, st1)"
  shows "\<exists>ms. messages st1 = messages st @ ms"
  using assms
  by (auto simp: readDocComment_def Let_def addAnalyzerIssue_def readReleaseTags_eq
        split: option.splits if_splits)

lemma readDocComment_extra:
  assumes "readDocComment fe d n x (Some t) st = (options, st1)"
    and "2 \<le> releaseTagCount t" and "\<not> x"
  shows "(ExtraReleaseTag, ''The doc comment should not contain more than one release tag'',
          OnDeclaration (declId d)) \<in> set (messages st1)"
  using assms
  by (auto simp: readDocComment_def Let_def addAnalyzerIssue_def readReleaseTags_eq
        split: option.splits if_splits)

lemma healMissingReleaseTag_result:
  assumes "healMissingReleaseTag fe ents s x r options st = Some (options', st')"
  shows "effectiveReleaseTag options'
           = (if effectiveReleaseTag options = ReleaseTag_None \<and> missingTagIsHealed ents x r
              then ReleaseTag_Public else effectiveReleaseTag options)"
    and "declaredReleaseTag options' = declaredReleaseTag options"
    and "\<exists>ms. messages st' = messages st @ ms"
    and "apiItemMetadata st' = apiItemMetadata st"
    and "declarationMetadata st' = declarationMetadata st"
  using assms
  by (auto simp: healMissingReleaseTag_def missingTagIsHealed_def addAnalyzerIssue_def
        split: option.splits if_splits)

lemma inheritReleaseTag_result:
  "effectiveReleaseTag (inheritReleaseTag po options)
     = (if declaredReleaseTag options \<noteq> ReleaseTag_None then declaredReleaseTag options
        else case po of Some pm \<Rightarrow> effectiveReleaseTag pm | None \<Rightarrow> ReleaseTag_None)"
  "declaredReleaseTag (inheritReleaseTag po options) = declaredReleaseTag options"
  by (auto simp: inheritReleaseTag_def Let_def split: option.splits)

text \<open>The steps of a successful \<open>_calculateApiItemMetadata\<close> on a declaration that is not ancillary.\<close>

lemma calculateApiItemMetadata_steps:
  assumes "calculateApiItemMetadata fuel fe ents d st = Some (Inr st')"
    and "declarationMetadata st (declId d) = Some md" and "\<not> isAncillary md"
    and "lookupEntity fe (astSymbol d) = Some (AstSymbol n x p r ds)"
  obtains options st1 po st2 options' st3 where
    "readDocComment fe d n x (tsdocParserContext md) st = (options, st1)"
    "fetchParentApiItemMetadata fuel fe ents d st1 = Some (Inr (po, st2))"
    "healMissingReleaseTag fe ents (astSymbol d) x r (inheritReleaseTag po options) st2
       = Some (options', st3)"
    "attachApiItemMetadata d (tsdocParserContext md) options' st3 = Inr st'"
proof -
  obtain options st1 where rd: "readDocComment fe d n x (tsdocParserContext md) st = (options, st1)"
    by (cases "readDocComment fe d n x (tsdocParserContext md) st") auto
  from assms rd have
    "thenDo (fetchParentApiItemMetadata fuel fe ents d st1)
       (finishApiItemMetadata fe ents d x r (tsdocParserContext md) options) = Some (Inr st')"
    by (simp add: calculateApiItemMetadata.simps fetchParentApiItemMetadata_def)
  then obtain po st2 where
    fp: "fetchParentApiItemMetadata fuel fe ents d st1 = Some (Inr (po, st2))" and
    fin: "finishApiItemMetadata fe ents d x r (tsdocParserContext md) options (po, st2)
            = Some (Inr st')"
    by (auto simp: thenDo_Some_Inr)
  from fin obtain options' st3 where
    "healMissingReleaseTag fe ents (astSymbol d) x r (inheritReleaseTag po options) st2
       = Some (options', st3)"
    "attachApiItemMetadata d (tsdocParserContext md) options' st3 = Inr st'"
    by (auto simp: finishApiItemMetadata_def split: option.splits)
  with rd fp show ?thesis using that by blast
qed

lemma fetchParentApiItemMetadata_None:
  "fetchParentApiItemMetadata fuel fe ents d st1 = Some (Inr (po, st2))
     \<Longrightarrow> (po = None) = (parent d = None)"
  by (auto simp: fetchParentApiItemMetadata_def thenDo_Some_Inr dereference_def
        split: option.splits prod.splits)

lemma readDocComment_state:
  assumes "readDocComment fe d n x pc st = (options, st1)"
  shows "st1 = st \<or> (\<exists>i t y. st1 = addAnalyzerIssue i t y st)
         \<or> (\<exists>i t y i' t' y'. st1 = addAnalyzerIssue i' t' y' (addAnalyzerIssue i t y st))"
proof (cases pc)
  case None
  with assms show ?thesis by (simp add: readDocComment_def)
next
  case (Some ts)
  with assms show ?thesis
    unfolding readDocComment_def readReleaseTags_eq Let_def
    by (simp split: if_splits) blast+
qed

text \<open>
  A relation between states that holds across the primitive updates of the propagator
  holds across the whole recursion.
\<close>

lemma propagator_preserves:
  assumes Rrefl: "\<And>fe st. R fe st st"
    and Rtrans: "\<And>fe a b c. R fe a b \<Longrightarrow> R fe b c \<Longrightarrow> R fe a c"
    and decl: "\<And>fe s n x p r ds st st'. lookupEntity fe s = Some (AstSymbol n x p r ds)
                 \<Longrightarrow> calculateDeclarationMetadataForDeclarations fe ds st = Some (Inr st')
                 \<Longrightarrow> R fe st st'"
    and msg: "\<And>fe st i t x. R fe st (addAnalyzerIssue i t x st)"
    and attach: "\<And>fe d pc opts st st'. attachApiItemMetadata d pc opts st = Inr st' \<Longrightarrow> R fe st st'"
    and sym: "\<And>fe st s m. R fe st (st\<lparr>symbolMetadata := (symbolMetadata st)(s \<mapsto> m)\<rparr>)"
  shows "fetchSymbolMetadata_private fuel fe ents s st = Some (Inr st') \<Longrightarrow> R fe st st'"
    and "calculateApiItemMetadataForDeclarations fuel fe ents ds st = Some (Inr st') \<Longrightarrow> R fe st st'"
    and "calculateApiItemMetadata fuel fe ents d st = Some (Inr st') \<Longrightarrow> R fe st st'"
    and "fetchApiItemMetadata fuel fe ents d st = Some (Inr (res, st')) \<Longrightarrow> R fe st st'"
proof (induction fuel fe ents s st and fuel fe ents ds st and fuel fe ents d st
         and fuel fe ents d st
       arbitrary: st' and st' and st' and res st'
       rule: fetchSymbolMetadata_private_calculateApiItemMetadataForDeclarations_calculateApiItemMetadata_fetchApiItemMetadata.induct)
  case (1 fuel0 fe ents s st)
  show ?case
  proof (cases "symbolMetadata st s \<noteq> None")
    case True
    with "1.prems" have "st' = st"
      by (auto simp: fetchSymbolMetadata_private.simps split: nat.splits)
    then show ?thesis by (simp add: Rrefl)
  next
    case False
    from "1.prems" False obtain fuel n x p r ds where
      f: "fuel0 = Suc fuel" and l: "lookupEntity fe s = Some (AstSymbol n x p r ds)"
      by (auto simp: fetchSymbolMetadata_private.simps
            split: nat.splits option.splits AstEntity.splits)
    from "1.prems" False f l obtain st1 st2 st3 where
      a: "(case p of None \<Rightarrow> Some (Inr st)
           | Some ps \<Rightarrow> if symbolMetadata st ps = None
                        then fetchSymbolMetadata_private fuel fe ents ps st
                        else Some (Inr st)) = Some (Inr st1)" and
      b: "calculateDeclarationMetadataForDeclarations fe ds st1 = Some (Inr st2)" and
      c: "calculateApiItemMetadataForDeclarations fuel fe ents ds st2 = Some (Inr st3)" and
      e: "setSymbolMetadata s ds st3 = Some (Inr st')"
      by (auto simp: fetchSymbolMetadata_private.simps thenDo_Some_Inr)
    have r1: "R fe st st1"
    proof (cases p)
      case None
      with a show ?thesis by (simp add: Rrefl)
    next
      case (Some ps)
      show ?thesis
      proof (cases "symbolMetadata st ps = None")
        case True
        with a Some have "fetchSymbolMetadata_private fuel fe ents ps st = Some (Inr st1)"
          by simp
        from "1.IH"(1)[OF f False l refl Some True this] show ?thesis .
      next
        case no: False
        with a Some show ?thesis by (simp add: Rrefl)
      qed
    qed
    have r2: "R fe st1 st2" using l b by (rule decl)
    have r3: "R fe st2 st3" using "1.IH"(2)[OF f False l refl c] .
    have r4: "R fe st3 st'" using e
      by (auto simp: setSymbolMetadata_def sym split: sum.splits)
    from r1 r2 r3 r4 show ?thesis by (blast intro: Rtrans)
  qed
next
  case (2 fuel fe ents decls st)
  show ?case
  proof (cases decls)
    case Nil
    with "2.prems" show ?thesis
      by (simp add: calculateApiItemMetadataForDeclarations.simps Rrefl)
  next
    case (Cons d ds)
    with "2.prems" obtain st1 where
      a: "calculateApiItemMetadata fuel fe ents d st = Some (Inr st1)" and
      b: "calculateApiItemMetadataForDeclarations fuel fe ents ds st1 = Some (Inr st')"
      by (auto simp: calculateApiItemMetadataForDeclarations.simps thenDo_Some_Inr)
    from "2.IH"(1)[OF Cons a] "2.IH"(2)[OF Cons b] show ?thesis by (rule Rtrans)
  qed
next
  case (3 fuel fe ents d st)
  from "3.prems" obtain md n x p r ds where
    m: "declarationMetadata st (declId d) = Some md" and
    l: "lookupEntity fe (astSymbol d) = Some (AstSymbol n x p r ds)"
    by (auto simp: calculateApiItemMetadata.simps split: option.splits AstEntity.splits)
  show ?case
  proof (cases "isAncillary md")
    case True
    with "3.prems" m l have "st' = skipAncillary d n md st"
      by (simp add: calculateApiItemMetadata.simps)
    then show ?thesis by (simp add: skipAncillary_def msg Rrefl)
  next
    case False
    from calculateApiItemMetadata_steps[OF "3.prems" m False l]
    obtain options st1 po st2 options' st3 where
      rd: "readDocComment fe d n x (tsdocParserContext md) st = (options, st1)" and
      fp: "fetchParentApiItemMetadata fuel fe ents d st1 = Some (Inr (po, st2))" and
      hl: "healMissingReleaseTag fe ents (astSymbol d) x r (inheritReleaseTag po options) st2
             = Some (options', st3)" and
      at: "attachApiItemMetadata d (tsdocParserContext md) options' st3 = Inr st'"
      by blast
    have r1: "R fe st st1" using readDocComment_state[OF rd]
      by (auto intro: Rrefl msg Rtrans)
    have r2: "R fe st1 st2"
    proof (cases "parent d")
      case None
      with fp show ?thesis by (simp add: fetchParentApiItemMetadata_def Rrefl)
    next
      case (Some pid)
      with fp obtain pd ref where
        pl: "lookupDeclaration fe pid = Some pd" and
        pf: "fetchApiItemMetadata fuel fe ents pd st1 = Some (Inr (ref, st2))"
        by (auto simp: fetchParentApiItemMetadata_def thenDo_Some_Inr dereference_def
              split: option.splits prod.splits)
      from "3.IH"[OF m l refl False rd[symmetric] Some pl pf] show ?thesis .
    qed
    have r3: "R fe st2 st3" using hl
      by (auto simp: healMissingReleaseTag_def split: option.splits if_splits
            intro: Rrefl msg)
    have r4: "R fe st3 st'" using at by (rule attach)
    from r1 r2 r3 r4 show ?thesis by (blast intro: Rtrans)
  qed
next
  case (4 fuel fe ents d st)
  show ?case
  proof (cases "apiItemMetadata st (declId d)")
    case None
    with "4.prems" have "fetchSymbolMetadata_private fuel fe ents (astSymbol d) st = Some (Inr st')"
      by (auto simp: fetchApiItemMetadata.simps thenDo_Some_Inr)
    from "4.IH"[OF None this] show ?thesis .
  next
    case (Some a)
    with "4.prems" show ?thesis by (simp add: fetchApiItemMetadata.simps Rrefl)
  qed
qed

definition messagesGrow :: "MetadataState \<Rightarrow> MetadataState \<Rightarrow> bool" where
  "messagesGrow st st' = (\<exists>ms. messages st' = messages st @ ms)"

lemma messagesGrow_refl: "messagesGrow st st"
  by (simp add: messagesGrow_def)

lemma messagesGrow_trans: "messagesGrow a b \<Longrightarrow> messagesGrow b c \<Longrightarrow> messagesGrow a c"
  by (auto simp: messagesGrow_def)

lemma messagesGrow_addAnalyzerIssue: "messagesGrow st (addAnalyzerIssue i t x st)"
  by (simp add: messagesGrow_def addAnalyzerIssue_def)

lemma initializeDeclarationMetadata_messages:
  "initializeDeclarationMetadata ds st = Inr st' \<Longrightarrow> messages st' = messages st"
  by (induction ds arbitrary: st) (auto split: if_splits)

lemma addAncillaryDeclaration_messages:
  "addAncillaryDeclaration g t st = Inr st' \<Longrightarrow> messages st' = messages st"
  by (auto simp: addAncillaryDeclaration_def Let_def split: option.splits if_splits)

lemma linkGetters_messages:
  "linkGetters t gs found st = Inr (found', st') \<Longrightarrow> messages st' = messages st"
proof (induction gs arbitrary: found st)
  case Nil
  then show ?case by simp
next
  case (Cons g gs)
  then show ?case
    by (auto split: if_splits sum.splits dest: addAncillaryDeclaration_messages)
qed

lemma detectAncillaryDeclarations_messages:
  "detectAncillaryDeclarations fe ds st = Some (Inr st') \<Longrightarrow> messagesGrow st st'"
proof (induction ds arbitrary: st)
  case Nil
  then show ?case by (simp add: messagesGrow_refl)
next
  case (Cons d ds)
  show ?case
  proof (cases "declKind d = SetAccessor")
    case False
    with Cons show ?thesis by simp
  next
    case True
    with Cons.prems obtain n x p r gs found st1 where
      l: "linkGetters d gs False st = Inr (found, st1)" and
      rest: "detectAncillaryDeclarations fe ds
               (if \<not> found
                then addAnalyzerIssue MissingGetter
                       (''The property '' @ dq @ n @ dq @ '' has a setter but no getter.'')
                       (OnDeclaration (declId d)) st1
                else st1) = Some (Inr st')"
      by (auto split: option.splits AstEntity.splits sum.splits)
    from linkGetters_messages[OF l] have "messagesGrow st st1"
      by (simp add: messagesGrow_def)
    moreover have "messagesGrow st1 (if \<not> found
                then addAnalyzerIssue MissingGetter
                       (''The property '' @ dq @ n @ dq @ '' has a setter but no getter.'')
                       (OnDeclaration (declId d)) st1
                else st1)"
      by (simp add: messagesGrow_refl messagesGrow_addAnalyzerIssue)
    moreover note Cons.IH[OF rest]
    ultimately show ?thesis by (blast intro: messagesGrow_trans)
  qed
qed

lemma calculateDeclarationMetadataForDeclarations_messages:
  "calculateDeclarationMetadataForDeclarations fe ds st = Some (Inr st') \<Longrightarrow> messagesGrow st st'"
  by (auto simp: calculateDeclarationMetadataForDeclarations_def messagesGrow_def
        split: sum.splits
        dest!: initializeDeclarationMetadata_messages detectAncillaryDeclarations_messages)

lemma fetchApiItemMetadata_messages:
  "fetchApiItemMetadata fuel fe ents d st = Some (Inr (res, st')) \<Longrightarrow> messagesGrow st st'"
proof (rule propagator_preserves(4)[where R = "\<lambda>fe. messagesGrow"])
  show "\<And>fe d pc opts st st'. attachApiItemMetadata d pc opts st = Inr st' \<Longrightarrow> messagesGrow st st'"
    by (simp add: messagesGrow_def attachApiItemMetadata_result(2))
  show "\<And>fe st s m. messagesGrow st (st\<lparr>symbolMetadata := (symbolMetadata st)(s \<mapsto> m)\<rparr>)"
    by (simp add: messagesGrow_def)
qed (auto simp: messagesGrow_refl messagesGrow_addAnalyzerIssue
       calculateDeclarationMetadataForDeclarations_messages
     intro: messagesGrow_trans)

lemma fetchParentApiItemMetadata_messages:
  "fetchParentApiItemMetadata fuel fe ents d st = Some (Inr (po, st')) \<Longrightarrow> messagesGrow st st'"
  by (auto simp: fetchParentApiItemMetadata_def thenDo_Some_Inr dereference_def messagesGrow_refl
        split: option.splits prod.splits dest: fetchApiItemMetadata_messages)

lemma firstReleaseTag_not_None: "1 \<le> releaseTagCount t \<Longrightarrow> firstReleaseTag t \<noteq> ReleaseTag_None"
  by (auto simp: firstReleaseTag_def releaseTagCount_def split: if_splits)

lemma calculateApiItemMetadata_declared:
  assumes "calculateApiItemMetadata fuel fe ents d st = Some (Inr st')"
    and "declarationMetadata st (declId d) = Some md"
    and "\<not> isAncillary md"
    and "lookupEntity fe (astSymbol d) = Some (AstSymbol n x p r ds)"
    and "apiItemMetadata st' (declId d) = Some (a, m)"
  shows "declaredReleaseTag m
           = (case tsdocParserContext md of
                None \<Rightarrow> ReleaseTag_None
              | Some t \<Rightarrow> firstReleaseTag t)"
proof -
  from calculateApiItemMetadata_steps[OF assms(1-4)]
  obtain options st1 po st2 options' st3 where
    rd: "readDocComment fe d n x (tsdocParserContext md) st = (options, st1)" and
    fp: "fetchParentApiItemMetadata fuel fe ents d st1 = Some (Inr (po, st2))" and
    hl: "healMissingReleaseTag fe ents (astSymbol d) x r (inheritReleaseTag po options) st2
           = Some (options', st3)" and
    at: "attachApiItemMetadata d (tsdocParserContext md) options' st3 = Inr st'"
    by blast
  from attachApiItemMetadata_result(1)[OF at] assms(5)
  have "m = options'\<lparr>tsdocComment := tsdocParserContext md\<rparr>" by simp
  then show ?thesis
    using healMissingReleaseTag_result(2)[OF hl] readDocComment_declared[OF rd]
    by (simp add: inheritReleaseTag_result(2))
qed

text \<open>Scenario: a class \<open>K\<close> with a method \<open>m\<close>; the doc comment of the class is a parameter.\<close>

definition noTags :: ModifierTagSet where
  "noTags = \<lparr> isPublic = False, isBeta = False, isAlpha = False, isInternal = False,
              isEventProperty = False, isOverride = False, isSealed = False,
              isVirtual = False, hasPreapproved = False \<rparr>"

definition methodOfK :: AstDeclaration where
  "methodOfK = AstDeclaration 20 MethodDeclaration [] 2 (Some 10) None [] []"

definition classK :: "ModifierTagSet option \<Rightarrow> AstDeclaration" where
  "classK doc = AstDeclaration 10 ClassDeclaration [] 1 None doc [] [methodOfK]"

definition classWithMethod :: "ModifierTagSet option \<Rightarrow> FrontEnd" where
  "classWithMethod doc =
     \<lparr> astEntities = [(1, AstSymbol ''K'' False None 1 [classK doc]),
                      (2, AstSymbol ''m'' False (Some 1) 1 [methodOfK])],
       exportedLocalEntities = [(''K'', 1)], globalNames = [],
       preapprovedTagDefined = False, includeForgottenExports = False \<rparr>"

definition exportedK :: "CollectorEntity list" where
  "exportedK = [(newCollectorEntity 1)\<lparr>exportNames := [''K'']\<rparr>]"

definition forgottenK :: "CollectorEntity list" where
  "forgottenK = [newCollectorEntity 1]"

text \<open>The state in which the declaration metadata of the class was initialized.\<close>

definition classInitialized :: "ModifierTagSet option \<Rightarrow> MetadataState" where
  "classInitialized doc =
     newMetadataState\<lparr>declarationMetadata :=
       (\<lambda>d. None)(10 \<mapsto> newInternalDeclarationMetadata\<lparr>tsdocParserContext := doc\<rparr>)\<rparr>"

text \<open>
  C6.  As the claim states it, a doc comment with more than one release tag leaves the
  declared tag at \<open>None\<close>.  The code keeps the first tag found: for a class with
  \<open>@public\<close> and \<open>@beta\<close> the declared tag is \<open>Public\<close>.
\<close>

theorem declared_tag_with_two_modifiers_counterexample:
  "map_option declaredReleaseTag
     (metadataOf
        (calculateApiItemMetadata 1
           (classWithMethod (Some (noTags\<lparr>isPublic := True, isBeta := True\<rparr>))) exportedK
           (classK (Some (noTags\<lparr>isPublic := True, isBeta := True\<rparr>)))
           (classInitialized (Some (noTags\<lparr>isPublic := True, isBeta := True\<rparr>))))
        10)
   = Some ReleaseTag_Public"
  by (simp add: calculateApiItemMetadata.simps metadataOf_def classWithMethod_def classK_def
        methodOfK_def classInitialized_def newMetadataState_def exportedK_def noTags_def
        newInternalDeclarationMetadata_def lookupEntity_def readDocComment_def
        readReleaseTags_def nextReleaseTag_def defaultOptions_def addAnalyzerIssue_def
        thenDo_def finishApiItemMetadata_def inheritReleaseTag_def healMissingReleaseTag_def
        attachApiItemMetadata_def Let_def)

text \<open>
  C6, amended.  For a declaration that is not ancillary, the declared release tag is the
  first of \<open>Public\<close>, \<open>Beta\<close>, \<open>Alpha\<close>, \<open>Internal\<close> that its doc comment defines, and \<open>None\<close>
  when the comment is absent or defines none of them.  When the comment defines more than
  one of them the declared tag is therefore not \<open>None\<close>, and the diagnostic
  \<open>ExtraReleaseTag\<close> is reported for the declaration unless its symbol is external.
\<close>

theorem declared_release_tag_first_wins:
  assumes "calculateApiItemMetadata fuel fe ents d st = Some (Inr st')"
    and "declarationMetadata st (declId d) = Some md"
    and "\<not> isAncillary md"
    and "lookupEntity fe (astSymbol d) = Some (AstSymbol n x p r ds)"
  shows "\<exists>a m. apiItemMetadata st' (declId d) = Some (a, m)
           \<and> declaredReleaseTag m
               = (case tsdocParserContext md of
                    None \<Rightarrow> ReleaseTag_None
                  | Some t \<Rightarrow> firstReleaseTag t)
           \<and> (\<forall>t. tsdocParserContext md = Some t \<and> 2 \<le> releaseTagCount t
                  \<longrightarrow> declaredReleaseTag m \<noteq> ReleaseTag_None
                      \<and> (\<not> x \<longrightarrow>
                            (ExtraReleaseTag,
                             ''The doc comment should not contain more than one release tag'',
                             OnDeclaration (declId d)) \<in> set (messages st')))"
proof -
  from calculateApiItemMetadata_steps[OF assms]
  obtain options st1 po st2 options' st3 where
    rd: "readDocComment fe d n x (tsdocParserContext md) st = (options, st1)" and
    fp: "fetchParentApiItemMetadata fuel fe ents d st1 = Some (Inr (po, st2))" and
    hl: "healMissingReleaseTag fe ents (astSymbol d) x r (inheritReleaseTag po options) st2
           = Some (options', st3)" and
    at: "attachApiItemMetadata d (tsdocParserContext md) options' st3 = Inr st'"
    by blast
  let ?m = "options'\<lparr>tsdocComment := tsdocParserContext md\<rparr>"
  have stored: "apiItemMetadata st' (declId d) = Some (nextAddress st3, ?m)"
    using attachApiItemMetadata_result(1)[OF at] .
  have declared: "declaredReleaseTag ?m
      = (case tsdocParserContext md of None \<Rightarrow> ReleaseTag_None | Some t \<Rightarrow> firstReleaseTag t)"
    using healMissingReleaseTag_result(2)[OF hl] readDocComment_declared[OF rd]
    by (simp add: inheritReleaseTag_result(2))
  have grow: "set (messages st1) \<subseteq> set (messages st')"
    using fetchParentApiItemMetadata_messages[OF fp] healMissingReleaseTag_result(3)[OF hl]
      attachApiItemMetadata_result(2)[OF at]
    by (auto simp: messagesGrow_def)
  have extra: "(ExtraReleaseTag, ''The doc comment should not contain more than one release tag'',
                OnDeclaration (declId d)) \<in> set (messages st')"
    if "tsdocParserContext md = Some t" "2 \<le> releaseTagCount t" "\<not> x" for t
    using readDocComment_extra[of fe d n x t st options st1] rd that grow by auto
  have nonNone: "declaredReleaseTag ?m \<noteq> ReleaseTag_None"
    if "tsdocParserContext md = Some t" "2 \<le> releaseTagCount t" for t
    using declared that firstReleaseTag_not_None[of t] by simp
  from stored declared extra nonNone show ?thesis by blast
qed

theorem declared_release_tag_first_wins_witness:
  "declarationMetadata (classInitialized (Some (noTags\<lparr>isBeta := True, isInternal := True\<rparr>))) 10
     = Some (newInternalDeclarationMetadata
               \<lparr>tsdocParserContext := Some (noTags\<lparr>isBeta := True, isInternal := True\<rparr>)\<rparr>)
   \<and> \<not> isAncillary (newInternalDeclarationMetadata
               \<lparr>tsdocParserContext := Some (noTags\<lparr>isBeta := True, isInternal := True\<rparr>)\<rparr>)
   \<and> lookupEntity (classWithMethod (Some (noTags\<lparr>isBeta := True, isInternal := True\<rparr>))) 1
       = Some (AstSymbol ''K'' False None 1
                 [classK (Some (noTags\<lparr>isBeta := True, isInternal := True\<rparr>))])
   \<and> map_option declaredReleaseTag
        (metadataOf
           (calculateApiItemMetadata 1
              (classWithMethod (Some (noTags\<lparr>isBeta := True, isInternal := True\<rparr>))) exportedK
              (classK (Some (noTags\<lparr>isBeta := True, isInternal := True\<rparr>)))
              (classInitialized (Some (noTags\<lparr>isBeta := True, isInternal := True\<rparr>))))
           10)
       = Some ReleaseTag_Beta
   \<and> (ExtraReleaseTag, ''The doc comment should not contain more than one release tag'',
       OnDeclaration 10)
       \<in> set (messagesOf
                (calculateApiItemMetadata 1
                   (classWithMethod (Some (noTags\<lparr>isBeta := True, isInternal := True\<rparr>))) exportedK
                   (classK (Some (noTags\<lparr>isBeta := True, isInternal := True\<rparr>)))
                   (classInitialized (Some (noTags\<lparr>isBeta := True, isInternal := True\<rparr>)))))"
proof -
  let ?doc = "Some (noTags\<lparr>isBeta := True, isInternal := True\<rparr>)"
  let ?md = "newInternalDeclarationMetadata\<lparr>tsdocParserContext := ?doc\<rparr>"
  have h2: "declarationMetadata (classInitialized ?doc) (declId (classK ?doc)) = Some ?md"
    by (simp add: classInitialized_def classK_def)
  have h3: "\<not> isAncillary ?md"
    by (simp add: newInternalDeclarationMetadata_def)
  have h4: "lookupEntity (classWithMethod ?doc) (astSymbol (classK ?doc))
              = Some (AstSymbol ''K'' False None 1 [classK ?doc])"
    by (simp add: lookupEntity_def classWithMethod_def classK_def)
  have "\<exists>st'. calculateApiItemMetadata 1 (classWithMethod ?doc) exportedK (classK ?doc)
                (classInitialized ?doc) = Some (Inr st')"
    by (simp add: calculateApiItemMetadata.simps classWithMethod_def classK_def
          methodOfK_def classInitialized_def newMetadataState_def exportedK_def noTags_def
          newInternalDeclarationMetadata_def lookupEntity_def readDocComment_def
          readReleaseTags_def nextReleaseTag_def defaultOptions_def addAnalyzerIssue_def
          thenDo_def finishApiItemMetadata_def inheritReleaseTag_def healMissingReleaseTag_def
          attachApiItemMetadata_def Let_def)
  then obtain st' where h1: "calculateApiItemMetadata 1 (classWithMethod ?doc) exportedK
      (classK ?doc) (classInitialized ?doc) = Some (Inr st')" by blast
  have cnt: "2 \<le> releaseTagCount (noTags\<lparr>isBeta := True, isInternal := True\<rparr>)"
    by (simp add: releaseTagCount_def noTags_def)
  from declared_release_tag_first_wins[OF h1 h2 h3 h4] cnt
  have "map_option declaredReleaseTag (map_option snd (apiItemMetadata st' 10))
          = Some ReleaseTag_Beta"
    and "(ExtraReleaseTag, ''The doc comment should not contain more than one release tag'',
          OnDeclaration 10) \<in> set (messages st')"
    by (auto simp: classK_def firstReleaseTag_def noTags_def newInternalDeclarationMetadata_def)
  with h1 h2 h3 h4 show ?thesis
    by (simp add: metadataOf_def messagesOf_def classK_def)
qed

lemma fetchParentApiItemMetadata_resolved:
  assumes "fetchParentApiItemMetadata fuel fe ents d st1 = Some (Inr (po, st2))"
    and "parent d = Some pid" and "lookupDeclaration fe pid = Some pd"
    and "apiItemMetadata st1 (declId pd) = Some (a, pm)"
  shows "po = Some pm" and "st2 = st1"
  using assms
  by (auto simp: fetchParentApiItemMetadata_def fetchApiItemMetadata.simps thenDo_def
        dereference_def)

definition missingReleaseTagText :: "string \<Rightarrow> string" where
  "missingReleaseTagText n =
     dq @ n @ dq @ '' is exported by the package, but it is missing ''
     @ ''a release tag (@alpha, @beta, @public, or @internal)''"

lemma healMissingReleaseTag_messages:
  assumes "healMissingReleaseTag fe ents s x r options st = Some (options', st')"
    and "effectiveReleaseTag options = ReleaseTag_None" and "\<not> x"
  shows "messages st'
           = messages st
             @ (case getEntity ents r of
                  None \<Rightarrow> []
                | Some entity \<Rightarrow>
                    if consumable entity
                    then (case lookupEntity fe r of
                            None \<Rightarrow> []
                          | Some rootEntity \<Rightarrow>
                              if localName rootEntity \<noteq> ''_default''
                              then [(MissingReleaseTag,
                                     missingReleaseTagText (localName rootEntity), OnSymbol s)]
                              else [])
                    else [])"
  using assms
  by (auto simp: healMissingReleaseTag_def addAnalyzerIssue_def missingReleaseTagText_def
        split: option.splits if_splits)

text \<open>
  C4.  As the claim states it, a declaration without a declared tag and without a parent
  has the effective tag \<open>None\<close>.  For the class \<open>K\<close> without a doc comment, exported by the
  entry point, the code computes \<open>Public\<close>.
\<close>

theorem effective_tag_without_parent_counterexample:
  "parent (classK None) = None
   \<and> map_option declaredReleaseTag
        (metadataOf (calculateApiItemMetadata 1 (classWithMethod None) exportedK (classK None)
                       (classInitialized None)) 10)
       = Some ReleaseTag_None
   \<and> map_option effectiveReleaseTag
        (metadataOf (calculateApiItemMetadata 1 (classWithMethod None) exportedK (classK None)
                       (classInitialized None)) 10)
       = Some ReleaseTag_Public"
  by (simp add: calculateApiItemMetadata.simps metadataOf_def classWithMethod_def classK_def
        methodOfK_def classInitialized_def newMetadataState_def exportedK_def
        newInternalDeclarationMetadata_def newCollectorEntity_def lookupEntity_def
        readDocComment_def defaultOptions_def addAnalyzerIssue_def consumable_def exported_def
        thenDo_def finishApiItemMetadata_def inheritReleaseTag_def healMissingReleaseTag_def
        attachApiItemMetadata_def Let_def)

text \<open>
  C4, amended.  For a declaration that is not ancillary, the effective release tag is the
  declared tag if that is not \<open>None\<close>, otherwise the effective tag of the metadata that
  \<open>fetchApiItemMetadata\<close> returns for the parent declaration, otherwise (no parent)
  \<open>None\<close>; and a tag that is \<open>None\<close> by this rule is replaced by \<open>Public\<close> when the symbol is
  external or the node of its root symbol is consumable.  The parent's metadata is the
  object already attached to the parent when there is one.  In particular a declaration
  without a declared tag whose parent has the effective tag \<open>Public\<close> gets \<open>Public\<close>.
\<close>

theorem effective_release_tag_inherits_then_heals:
  assumes "calculateApiItemMetadata fuel fe ents d st = Some (Inr st')"
    and "declarationMetadata st (declId d) = Some md"
    and "\<not> isAncillary md"
    and "lookupEntity fe (astSymbol d) = Some (AstSymbol n x p r ds)"
  shows "\<exists>a m po st2.
           apiItemMetadata st' (declId d) = Some (a, m)
         \<and> fetchParentApiItemMetadata fuel fe ents d
               (snd (readDocComment fe d n x (tsdocParserContext md) st)) = Some (Inr (po, st2))
         \<and> ((po = None) = (parent d = None))
         \<and> (\<forall>pid pd a' pm. parent d = Some pid \<and> lookupDeclaration fe pid = Some pd
                \<and> apiItemMetadata st (declId pd) = Some (a', pm) \<longrightarrow> po = Some pm)
         \<and> effectiveReleaseTag m
             = specEffectiveReleaseTag (declaredReleaseTag m) (map_option effectiveReleaseTag po)
                 (missingTagIsHealed ents x r)
         \<and> (declaredReleaseTag m = ReleaseTag_None
              \<and> map_option effectiveReleaseTag po = Some ReleaseTag_Public
              \<longrightarrow> effectiveReleaseTag m = ReleaseTag_Public)"
proof -
  from calculateApiItemMetadata_steps[OF assms]
  obtain options st1 po st2 options' st3 where
    rd: "readDocComment fe d n x (tsdocParserContext md) st = (options, st1)" and
    fp: "fetchParentApiItemMetadata fuel fe ents d st1 = Some (Inr (po, st2))" and
    hl: "healMissingReleaseTag fe ents (astSymbol d) x r (inheritReleaseTag po options) st2
           = Some (options', st3)" and
    at: "attachApiItemMetadata d (tsdocParserContext md) options' st3 = Inr st'"
    by blast
  let ?m = "options'\<lparr>tsdocComment := tsdocParserContext md\<rparr>"
  have stored: "apiItemMetadata st' (declId d) = Some (nextAddress st3, ?m)"
    using attachApiItemMetadata_result(1)[OF at] .
  have fp': "fetchParentApiItemMetadata fuel fe ents d
               (snd (readDocComment fe d n x (tsdocParserContext md) st)) = Some (Inr (po, st2))"
    using rd fp by simp
  have none: "(po = None) = (parent d = None)"
    using fetchParentApiItemMetadata_None[OF fp] .
  have resolved: "po = Some pm"
    if "parent d = Some pid" "lookupDeclaration fe pid = Some pd"
       "apiItemMetadata st (declId pd) = Some (a', pm)" for pid pd a' pm
    using fetchParentApiItemMetadata_resolved(1)[OF fp that(1,2)] that(3)
      readDocComment_frame(1)[OF rd] by simp
  have declared: "declaredReleaseTag ?m = declaredReleaseTag options"
    using healMissingReleaseTag_result(2)[OF hl] by (simp add: inheritReleaseTag_result(2))
  have eff: "effectiveReleaseTag ?m
      = specEffectiveReleaseTag (declaredReleaseTag ?m) (map_option effectiveReleaseTag po)
          (missingTagIsHealed ents x r)"
    using healMissingReleaseTag_result(1)[OF hl] declared
    by (cases po) (simp_all add: inheritReleaseTag_result(1) specEffectiveReleaseTag_def Let_def)
  have pub: "effectiveReleaseTag ?m = ReleaseTag_Public"
    if "declaredReleaseTag ?m = ReleaseTag_None"
       "map_option effectiveReleaseTag po = Some ReleaseTag_Public"
    using eff that by (simp add: specEffectiveReleaseTag_def)
  show ?thesis
  proof (intro exI conjI)
    show "apiItemMetadata st' (declId d) = Some (nextAddress st3, ?m)" by (rule stored)
    show "fetchParentApiItemMetadata fuel fe ents d
            (snd (readDocComment fe d n x (tsdocParserContext md) st)) = Some (Inr (po, st2))"
      by (rule fp')
    show "(po = None) = (parent d = None)" by (rule none)
    show "\<forall>pid pd a' pm. parent d = Some pid \<and> lookupDeclaration fe pid = Some pd
            \<and> apiItemMetadata st (declId pd) = Some (a', pm) \<longrightarrow> po = Some pm"
      using resolved by blast
    show "effectiveReleaseTag ?m
            = specEffectiveReleaseTag (declaredReleaseTag ?m) (map_option effectiveReleaseTag po)
                (missingTagIsHealed ents x r)" by (rule eff)
    show "declaredReleaseTag ?m = ReleaseTag_None
            \<and> map_option effectiveReleaseTag po = Some ReleaseTag_Public
          \<longrightarrow> effectiveReleaseTag ?m = ReleaseTag_Public"
      using pub by blast
  qed
qed

text \<open>The state in which the class is resolved and the method is initialized.\<close>

definition publicClassMetadata :: ApiItemMetadata where
  "publicClassMetadata =
     defaultOptions\<lparr> declaredReleaseTag := ReleaseTag_Public,
                     effectiveReleaseTag := ReleaseTag_Public,
                     tsdocComment := Some (noTags\<lparr>isPublic := True\<rparr>) \<rparr>"

definition classResolved :: MetadataState where
  "classResolved =
     \<lparr> symbolMetadata = (\<lambda>s. None)(1 \<mapsto> ReleaseTag_Public),
       declarationMetadata =
         (\<lambda>d. None)(10 \<mapsto> newInternalDeclarationMetadata
                              \<lparr>tsdocParserContext := Some (noTags\<lparr>isPublic := True\<rparr>)\<rparr>,
                     20 \<mapsto> newInternalDeclarationMetadata),
       apiItemMetadata = (\<lambda>d. None)(10 \<mapsto> (0, publicClassMetadata)),
       nextAddress = 1,
       messages = [] \<rparr>"

theorem effective_release_tag_inherits_then_heals_witness:
  "declarationMetadata classResolved 20 = Some newInternalDeclarationMetadata
   \<and> \<not> isAncillary newInternalDeclarationMetadata
   \<and> lookupEntity (classWithMethod (Some (noTags\<lparr>isPublic := True\<rparr>))) 2
       = Some (AstSymbol ''m'' False (Some 1) 1 [methodOfK])
   \<and> map_option declaredReleaseTag
        (metadataOf (calculateApiItemMetadata 1
                       (classWithMethod (Some (noTags\<lparr>isPublic := True\<rparr>))) exportedK
                       methodOfK classResolved) 20)
       = Some ReleaseTag_None
   \<and> map_option effectiveReleaseTag
        (metadataOf (calculateApiItemMetadata 1
                       (classWithMethod (Some (noTags\<lparr>isPublic := True\<rparr>))) exportedK
                       methodOfK classResolved) 20)
       = Some ReleaseTag_Public"
proof -
  let ?fe = "classWithMethod (Some (noTags\<lparr>isPublic := True\<rparr>))"
  have h2: "declarationMetadata classResolved (declId methodOfK)
              = Some newInternalDeclarationMetadata"
    by (simp add: classResolved_def methodOfK_def)
  have h3: "\<not> isAncillary newInternalDeclarationMetadata"
    by (simp add: newInternalDeclarationMetadata_def)
  have h4: "lookupEntity ?fe (astSymbol methodOfK)
              = Some (AstSymbol ''m'' False (Some 1) 1 [methodOfK])"
    by (simp add: lookupEntity_def classWithMethod_def methodOfK_def)
  have pl: "lookupDeclaration ?fe 10 = Some (classK (Some (noTags\<lparr>isPublic := True\<rparr>)))"
    by (simp add: lookupDeclaration_def allDeclarations_def classWithMethod_def classK_def
          methodOfK_def)
  have "\<exists>st'. calculateApiItemMetadata 1 ?fe exportedK methodOfK classResolved = Some (Inr st')"
    by (simp add: calculateApiItemMetadata.simps fetchApiItemMetadata.simps
          lookupDeclaration_def allDeclarations_def
          lookupEntity_def classWithMethod_def classK_def methodOfK_def classResolved_def
          newInternalDeclarationMetadata_def readDocComment_def dereference_def
          defaultOptions_def publicClassMetadata_def
          thenDo_def finishApiItemMetadata_def inheritReleaseTag_def healMissingReleaseTag_def
          attachApiItemMetadata_def Let_def)
  then obtain st' where h1: "calculateApiItemMetadata 1 ?fe exportedK methodOfK classResolved
      = Some (Inr st')" by blast
  from effective_release_tag_inherits_then_heals[OF h1 h2 h3 h4]
  obtain a m po st2 where
    s: "apiItemMetadata st' (declId methodOfK) = Some (a, m)" and
    r: "\<forall>pid pd a' pm. parent methodOfK = Some pid \<and> lookupDeclaration ?fe pid = Some pd
            \<and> apiItemMetadata classResolved (declId pd) = Some (a', pm) \<longrightarrow> po = Some pm" and
    e: "declaredReleaseTag m = ReleaseTag_None
          \<and> map_option effectiveReleaseTag po = Some ReleaseTag_Public
          \<longrightarrow> effectiveReleaseTag m = ReleaseTag_Public"
    by blast
  have "po = Some publicClassMetadata"
    using r pl by (simp add: methodOfK_def classK_def classResolved_def)
  moreover have "declaredReleaseTag m = ReleaseTag_None"
    using calculateApiItemMetadata_declared[OF h1 h2 h3 h4 s]
    by (simp add: newInternalDeclarationMetadata_def)
  ultimately have "effectiveReleaseTag m = ReleaseTag_Public" "declaredReleaseTag m = ReleaseTag_None"
    using e by (simp_all add: publicClassMetadata_def defaultOptions_def)
  with h1 h2 h3 h4 s show ?thesis
    by (simp add: metadataOf_def methodOfK_def)
qed

text \<open>
  C7.  As the claim states it, every symbol of the graph that is not external and has no
  release tag gets the diagnostic and the tag \<open>Public\<close>.  For a forgotten export (a node
  without export names that is not reachable by inheritance) the code reports nothing
  and leaves the tag at \<open>None\<close>.
\<close>

theorem missing_tag_of_forgotten_export_counterexample:
  "map_option astEntity (getEntity forgottenK 1) = Some 1
   \<and> map_option effectiveReleaseTag
        (metadataOf (calculateApiItemMetadata 1 (classWithMethod None) forgottenK (classK None)
                       (classInitialized None)) 10)
       = Some ReleaseTag_None
   \<and> messagesOf (calculateApiItemMetadata 1 (classWithMethod None) forgottenK (classK None)
                   (classInitialized None)) = []"
  by (simp add: calculateApiItemMetadata.simps metadataOf_def messagesOf_def classWithMethod_def
        classK_def methodOfK_def classInitialized_def newMetadataState_def forgottenK_def
        newInternalDeclarationMetadata_def newCollectorEntity_def lookupEntity_def
        readDocComment_def defaultOptions_def addAnalyzerIssue_def consumable_def exported_def
        thenDo_def finishApiItemMetadata_def inheritReleaseTag_def healMissingReleaseTag_def
        attachApiItemMetadata_def Let_def)

text \<open>
  C7, amended.  Take a declaration, not ancillary, of a symbol that is not external, whose
  release tag is missing (neither declared nor inherited from the parent).  If the node
  of the root symbol exists and is consumable (exported, or reachable by inheritance), the
  effective release tag is set to \<open>Public\<close> and the diagnostic \<open>MissingReleaseTag\<close> is
  reported for the symbol, except that nothing is reported when the root symbol is named
  \<open>_default\<close>.  If the root symbol has no node or its node is not consumable (a forgotten
  export), nothing is reported and the effective tag stays \<open>None\<close>.  The messages are
  compared with the state \<open>st2\<close> in which the parent's metadata was fetched.
\<close>

theorem missing_release_tag_healed_when_consumable:
  assumes "calculateApiItemMetadata fuel fe ents d st = Some (Inr st')"
    and "declarationMetadata st (declId d) = Some md"
    and "\<not> isAncillary md"
    and "lookupEntity fe (astSymbol d) = Some (AstSymbol n x p r ds)"
    and "\<not> x"
  shows "\<exists>a m po st2.
           apiItemMetadata st' (declId d) = Some (a, m)
         \<and> fetchParentApiItemMetadata fuel fe ents d
               (snd (readDocComment fe d n x (tsdocParserContext md) st)) = Some (Inr (po, st2))
         \<and> (specEffectiveReleaseTag (declaredReleaseTag m) (map_option effectiveReleaseTag po)
               False = ReleaseTag_None
             \<longrightarrow> (case getEntity ents r of
                    None \<Rightarrow> effectiveReleaseTag m = ReleaseTag_None \<and> messages st' = messages st2
                  | Some entity \<Rightarrow>
                      if consumable entity
                      then effectiveReleaseTag m = ReleaseTag_Public
                           \<and> (\<exists>rootEntity. lookupEntity fe r = Some rootEntity
                                \<and> messages st'
                                    = messages st2
                                      @ (if localName rootEntity \<noteq> ''_default''
                                         then [(MissingReleaseTag,
                                                missingReleaseTagText (localName rootEntity),
                                                OnSymbol (astSymbol d))]
                                         else []))
                      else effectiveReleaseTag m = ReleaseTag_None
                           \<and> messages st' = messages st2))"
proof -
  from calculateApiItemMetadata_steps[OF assms(1-4)]
  obtain options st1 po st2 options' st3 where
    rd: "readDocComment fe d n x (tsdocParserContext md) st = (options, st1)" and
    fp: "fetchParentApiItemMetadata fuel fe ents d st1 = Some (Inr (po, st2))" and
    hl: "healMissingReleaseTag fe ents (astSymbol d) x r (inheritReleaseTag po options) st2
           = Some (options', st3)" and
    at: "attachApiItemMetadata d (tsdocParserContext md) options' st3 = Inr st'"
    by blast
  let ?m = "options'\<lparr>tsdocComment := tsdocParserContext md\<rparr>"
  let ?base = "specEffectiveReleaseTag (declaredReleaseTag ?m)
                 (map_option effectiveReleaseTag po) False"
  have stored: "apiItemMetadata st' (declId d) = Some (nextAddress st3, ?m)"
    using attachApiItemMetadata_result(1)[OF at] .
  have fp': "fetchParentApiItemMetadata fuel fe ents d
               (snd (readDocComment fe d n x (tsdocParserContext md) st)) = Some (Inr (po, st2))"
    using rd fp by simp
  have declared: "declaredReleaseTag ?m = declaredReleaseTag options"
    using healMissingReleaseTag_result(2)[OF hl] by (simp add: inheritReleaseTag_result(2))
  have base: "?base = effectiveReleaseTag (inheritReleaseTag po options)"
    using declared
    by (cases po) (simp_all add: inheritReleaseTag_result(1) specEffectiveReleaseTag_def)
  have msgs: "messages st' = messages st3"
    using attachApiItemMetadata_result(2)[OF at] .
  have main: "case getEntity ents r of
                None \<Rightarrow> effectiveReleaseTag ?m = ReleaseTag_None \<and> messages st' = messages st2
              | Some entity \<Rightarrow>
                  if consumable entity
                  then effectiveReleaseTag ?m = ReleaseTag_Public
                       \<and> (\<exists>rootEntity. lookupEntity fe r = Some rootEntity
                            \<and> messages st'
                                = messages st2
                                  @ (if localName rootEntity \<noteq> ''_default''
                                     then [(MissingReleaseTag,
                                            missingReleaseTagText (localName rootEntity),
                                            OnSymbol (astSymbol d))]
                                     else []))
                  else effectiveReleaseTag ?m = ReleaseTag_None \<and> messages st' = messages st2"
    if none: "?base = ReleaseTag_None"
  proof -
    from none base have e0: "effectiveReleaseTag (inheritReleaseTag po options) = ReleaseTag_None"
      by simp
    note m = healMissingReleaseTag_messages[OF hl e0 assms(5)]
    note e = healMissingReleaseTag_result(1)[OF hl]
    show ?thesis
    proof (cases "getEntity ents r")
      case None
      with m e e0 msgs assms(5) show ?thesis by (simp add: missingTagIsHealed_def)
    next
      case (Some entity)
      show ?thesis
      proof (cases "consumable entity")
        case False
        with Some m e e0 msgs assms(5) show ?thesis by (simp add: missingTagIsHealed_def)
      next
        case True
        from hl e0 assms(5) Some True obtain rootEntity where
          l: "lookupEntity fe r = Some rootEntity"
          by (auto simp: healMissingReleaseTag_def split: option.splits)
        with Some True m e e0 msgs assms(5) show ?thesis
          by (simp add: missingTagIsHealed_def)
      qed
    qed
  qed
  show ?thesis
  proof (intro exI conjI)
    show "apiItemMetadata st' (declId d) = Some (nextAddress st3, ?m)" by (rule stored)
    show "fetchParentApiItemMetadata fuel fe ents d
            (snd (readDocComment fe d n x (tsdocParserContext md) st)) = Some (Inr (po, st2))"
      by (rule fp')
    show "?base = ReleaseTag_None \<longrightarrow>
          (case getEntity ents r of
             None \<Rightarrow> effectiveReleaseTag ?m = ReleaseTag_None \<and> messages st' = messages st2
           | Some entity \<Rightarrow>
               if consumable entity
               then effectiveReleaseTag ?m = ReleaseTag_Public
                    \<and> (\<exists>rootEntity. lookupEntity fe r = Some rootEntity
                         \<and> messages st'
                             = messages st2
                               @ (if localName rootEntity \<noteq> ''_default''
                                  then [(MissingReleaseTag,
                                         missingReleaseTagText (localName rootEntity),
                                         OnSymbol (astSymbol d))]
                                  else []))
               else effectiveReleaseTag ?m = ReleaseTag_None \<and> messages st' = messages st2)"
      using main by blast
  qed
qed

theorem missing_release_tag_healed_when_consumable_witness:
  "declarationMetadata (classInitialized None) 10 = Some newInternalDeclarationMetadata
   \<and> \<not> isAncillary newInternalDeclarationMetadata
   \<and> lookupEntity (classWithMethod None) 1 = Some (AstSymbol ''K'' False None 1 [classK None])
   \<and> map_option consumable (getEntity exportedK 1) = Some True
   \<and> map_option effectiveReleaseTag
        (metadataOf (calculateApiItemMetadata 1 (classWithMethod None) exportedK (classK None)
                       (classInitialized None)) 10)
       = Some ReleaseTag_Public
   \<and> messagesOf (calculateApiItemMetadata 1 (classWithMethod None) exportedK (classK None)
                   (classInitialized None))
       = [(MissingReleaseTag, missingReleaseTagText ''K'', OnSymbol 1)]"
proof -
  let ?fe = "classWithMethod None"
  have h2: "declarationMetadata (classInitialized None) (declId (classK None))
              = Some newInternalDeclarationMetadata"
    by (simp add: classInitialized_def classK_def newInternalDeclarationMetadata_def)
  have h3: "\<not> isAncillary newInternalDeclarationMetadata"
    by (simp add: newInternalDeclarationMetadata_def)
  have h4: "lookupEntity ?fe (astSymbol (classK None))
              = Some (AstSymbol ''K'' False None 1 [classK None])"
    by (simp add: lookupEntity_def classWithMethod_def classK_def)
  have h5: "\<not> False" by simp
  have c: "getEntity exportedK 1 = Some ((newCollectorEntity 1)\<lparr>exportNames := [''K'']\<rparr>)"
    "consumable ((newCollectorEntity 1)\<lparr>exportNames := [''K'']\<rparr>)"
    by (simp_all add: exportedK_def newCollectorEntity_def consumable_def exported_def)
  have "\<exists>st'. calculateApiItemMetadata 1 ?fe exportedK (classK None) (classInitialized None)
                = Some (Inr st')"
    by (simp add: calculateApiItemMetadata.simps classWithMethod_def classK_def
          methodOfK_def classInitialized_def newMetadataState_def exportedK_def
          newInternalDeclarationMetadata_def newCollectorEntity_def lookupEntity_def
          readDocComment_def defaultOptions_def addAnalyzerIssue_def consumable_def exported_def
          thenDo_def finishApiItemMetadata_def inheritReleaseTag_def healMissingReleaseTag_def
          attachApiItemMetadata_def Let_def)
  then obtain st' where h1: "calculateApiItemMetadata 1 ?fe exportedK (classK None)
      (classInitialized None) = Some (Inr st')" by blast
  from missing_release_tag_healed_when_consumable[OF h1 h2 h3 h4 h5]
  obtain a m po st2 where
    s: "apiItemMetadata st' (declId (classK None)) = Some (a, m)" and
    f: "fetchParentApiItemMetadata 1 ?fe exportedK (classK None)
          (snd (readDocComment ?fe (classK None) ''K'' False
                  (tsdocParserContext newInternalDeclarationMetadata) (classInitialized None)))
        = Some (Inr (po, st2))" and
    k: "specEffectiveReleaseTag (declaredReleaseTag m) (map_option effectiveReleaseTag po)
          False = ReleaseTag_None
        \<longrightarrow> (case getEntity exportedK 1 of
               None \<Rightarrow> effectiveReleaseTag m = ReleaseTag_None \<and> messages st' = messages st2
             | Some entity \<Rightarrow>
                 if consumable entity
                 then effectiveReleaseTag m = ReleaseTag_Public
                      \<and> (\<exists>rootEntity. lookupEntity ?fe 1 = Some rootEntity
                           \<and> messages st'
                               = messages st2
                                 @ (if localName rootEntity \<noteq> ''_default''
                                    then [(MissingReleaseTag,
                                           missingReleaseTagText (localName rootEntity),
                                           OnSymbol (astSymbol (classK None)))]
                                    else []))
                 else effectiveReleaseTag m = ReleaseTag_None \<and> messages st' = messages st2)"
    by blast
  from f have po: "po = None" and st2: "messages st2 = []"
    by (auto simp: fetchParentApiItemMetadata_def classK_def readDocComment_def
          newInternalDeclarationMetadata_def classInitialized_def newMetadataState_def)
  have d: "declaredReleaseTag m = ReleaseTag_None"
    using calculateApiItemMetadata_declared[OF h1 h2 h3 h4 s]
    by (simp add: newInternalDeclarationMetadata_def)
  from k po d c st2 h4 have
    "effectiveReleaseTag m = ReleaseTag_Public"
    "messages st' = [(MissingReleaseTag, missingReleaseTagText ''K'', OnSymbol 1)]"
    by (auto simp: specEffectiveReleaseTag_def classK_def)
  with h1 h2 h3 h4 s c show ?thesis
    by (simp add: metadataOf_def messagesOf_def classK_def)
qed

section \<open>Properties of the model builder\<close>


text \<open>
  The declaration tree from which the private declarations below the root were cut, each
  with everything under it.
\<close>

definition isPrivate :: "AstDeclaration \<Rightarrow> bool" where
  "isPrivate d = (ModifierFlags_Private \<in> set (modifierFlags d))"

fun withoutPrivate :: "AstDeclaration \<Rightarrow> AstDeclaration" where
  "withoutPrivate (AstDeclaration i k m s p t refs cs) =
     AstDeclaration i k m s p t refs (map withoutPrivate (filter (\<lambda>c. \<not> isPrivate c) cs))"


lemma withoutPrivate_fields:
  "declId (withoutPrivate d) = declId d" "declKind (withoutPrivate d) = declKind d"
  "modifierFlags (withoutPrivate d) = modifierFlags d"
  "astSymbol (withoutPrivate d) = astSymbol d"
  "children (withoutPrivate d) = map withoutPrivate (filter (\<lambda>c. \<not> isPrivate c) (children d))"
  by (cases d; simp)+

lemma fetchApiItemMetadata_cong:
  "declId d' = declId d \<Longrightarrow> astSymbol d' = astSymbol d
     \<Longrightarrow> fetchApiItemMetadata fuel fe ents d' st = fetchApiItemMetadata fuel fe ents d st"
  by (simp add: fetchApiItemMetadata.simps split: option.splits)

lemma overloadPosition_cong:
  "declId d' = declId d \<Longrightarrow> declKind d' = declKind d
     \<Longrightarrow> overloadPosition d' ds i = overloadPosition d ds i"
  by (induction ds arbitrary: i) simp_all

lemma getOverloadIndex_cong:
  assumes "declId d' = declId d" "declKind d' = declKind d" "astSymbol d' = astSymbol d"
  shows "getOverloadIndex fe d' = getOverloadIndex fe d"
  unfolding getOverloadIndex_def assms(3) overloadPosition_cong[OF assms(1,2)] by (rule refl)

lemma containerKeyOf_cong:
  assumes "declId d' = declId d" "declKind d' = declKind d" "astSymbol d' = astSymbol d"
    "modifierFlags d' = modifierFlags d"
  shows "containerKeyOf fe d' k en = containerKeyOf fe d k en"
  unfolding containerKeyOf_def assms(3,4) getOverloadIndex_cong[OF assms(1,2,3)]
  by (rule refl)

lemma processDeclaration_private:
  "isPrivate d \<Longrightarrow> processDeclaration fuel fe ents d en p st = Some (Inr (p, st))"
  by (simp add: processDeclaration.simps isPrivate_def)

lemma fetchEffectiveReleaseTag_cong:
  assumes "declId d' = declId d" "astSymbol d' = astSymbol d"
  shows "fetchEffectiveReleaseTag fuel fe ents d' st = fetchEffectiveReleaseTag fuel fe ents d st"
  unfolding fetchEffectiveReleaseTag_def fetchApiItemMetadata_cong[OF assms] by (rule refl)

lemma processDeclaration_children_cong:
  assumes "declId d' = declId d" "declKind d' = declKind d" "astSymbol d' = astSymbol d"
    "modifierFlags d' = modifierFlags d"
    and c: "\<And>m st1. processChildDeclarations fuel fe ents (children d') m st1
                   = processChildDeclarations fuel fe ents (children d) m st1"
  shows "processDeclaration fuel fe ents d' en p st = processDeclaration fuel fe ents d en p st"
  unfolding processDeclaration.simps[of fuel fe ents d']
    processDeclaration.simps[of fuel fe ents d]
    assms(2,4) fetchEffectiveReleaseTag_cong[OF assms(1,3)]
    containerKeyOf_cong[OF assms(1-4)] c
  by (rule refl)

lemma processChildDeclarations_withoutPrivate:
  assumes "\<And>c en p st. c \<in> set cs \<Longrightarrow> \<not> isPrivate c
             \<Longrightarrow> processDeclaration fuel fe ents (withoutPrivate c) en p st
                 = processDeclaration fuel fe ents c en p st"
  shows "processChildDeclarations fuel fe ents
           (map withoutPrivate (filter (\<lambda>c. \<not> isPrivate c) cs)) p st
         = processChildDeclarations fuel fe ents cs p st"
  using assms
proof (induction cs arbitrary: p st)
  case Nil
  then show ?case by simp
next
  case (Cons c cs)
  have IH: "processChildDeclarations fuel fe ents
              (map withoutPrivate (filter (\<lambda>c. \<not> isPrivate c) cs)) p' st'
            = processChildDeclarations fuel fe ents cs p' st'" for p' st'
    by (rule Cons.IH) (simp add: Cons.prems)
  show ?case
  proof (cases "isPrivate c")
    case True
    then show ?thesis
      using IH
      by (simp add: processChildDeclarations.simps[of _ _ _ "c # cs"]
            processDeclaration_private thenDo_def)
  next
    case False
    then have "processDeclaration fuel fe ents (withoutPrivate c) None p st
               = processDeclaration fuel fe ents c None p st"
      by (simp add: Cons.prems)
    with False IH show ?thesis
      by (simp add: processChildDeclarations.simps[of _ _ _ "c # cs"]
            processChildDeclarations.simps[of _ _ _ "withoutPrivate c # _"]
            thenDo_def split: option.splits sum.splits)
  qed
qed

lemma processDeclaration_withoutPrivate:
  "processDeclaration fuel fe ents (withoutPrivate d) en p st
     = processDeclaration fuel fe ents d en p st"
proof (induction d arbitrary: en p st)
  case (AstDeclaration i k m s pa t refs cs)
  let ?d = "AstDeclaration i k m s pa t refs cs"
  have "processChildDeclarations fuel fe ents
          (map withoutPrivate (filter (\<lambda>c. \<not> isPrivate c) cs)) q st1
        = processChildDeclarations fuel fe ents cs q st1" for q st1
    by (rule processChildDeclarations_withoutPrivate) (rule AstDeclaration.IH)
  then have "processChildDeclarations fuel fe ents (children (withoutPrivate ?d)) q st1
             = processChildDeclarations fuel fe ents (children ?d) q st1" for q st1
    by simp
  then show ?case
    by (intro processDeclaration_children_cong) simp_all
qed

lemma processDeclarations_withoutPrivate:
  "processDeclarations fuel fe ents
     (map withoutPrivate (filter (\<lambda>d. \<not> isPrivate d) ds)) en p st
   = processDeclarations fuel fe ents ds en p st"
proof (induction ds arbitrary: p st)
  case Nil
  then show ?case by simp
next
  case (Cons d ds)
  then show ?case
    by (simp add: processDeclaration_private processDeclaration_withoutPrivate thenDo_def)
qed


























section \<open>Properties of ancillary declarations\<close>

text \<open>The parent declaration, if there is one, already has its metadata.\<close>

definition parentResolved :: "FrontEnd \<Rightarrow> MetadataState \<Rightarrow> AstDeclaration \<Rightarrow> bool" where
  "parentResolved fe st d =
     (case parent d of
        None \<Rightarrow> True
      | Some pid \<Rightarrow>
          (case lookupDeclaration fe pid of
             None \<Rightarrow> False
           | Some pd \<Rightarrow> apiItemMetadata st (declId pd) \<noteq> None))"

lemma fetchParentApiItemMetadata_when_resolved:
  assumes "parentResolved fe st d"
  shows "\<exists>po. fetchParentApiItemMetadata fuel fe ents d st = Some (Inr (po, st))"
  using assms
  by (auto simp: parentResolved_def fetchParentApiItemMetadata_def fetchApiItemMetadata.simps
        thenDo_def dereference_def split: option.splits)

lemma healMissingReleaseTag_succeeds:
  assumes "lookupEntity fe r \<noteq> None"
  shows "\<exists>options' st'. healMissingReleaseTag fe ents s x r options st = Some (options', st')
           \<and> declarationMetadata st' = declarationMetadata st
           \<and> apiItemMetadata st' = apiItemMetadata st
           \<and> symbolMetadata st' = symbolMetadata st"
  using assms
  by (auto simp: healMissingReleaseTag_def addAnalyzerIssue_def split: option.splits)

lemma shareApiItemMetadata_frame:
  "apiItemMetadata (shareApiItemMetadata ref as st)
     = (\<lambda>i. if i \<in> set as then Some ref else apiItemMetadata st i)"
  by (rule ext) (simp add: shareApiItemMetadata_apply)

text \<open>The computation for a main declaration whose parent is resolved.\<close>

lemma calculateApiItemMetadata_main:
  assumes md: "declarationMetadata st (declId d) = Some md" and na: "\<not> isAncillary md"
    and sym: "lookupEntity fe (astSymbol d) = Some (AstSymbol n x p r ds)"
    and pr: "parentResolved fe st d"
    and root: "lookupEntity fe r \<noteq> None"
  shows "\<exists>st' ref. calculateApiItemMetadata fuel fe ents d st = Some (Inr st')
           \<and> apiItemMetadata st'
               = (\<lambda>i. if i \<in> set (ancillaryDeclarations md) then Some ref
                       else if i = declId d then Some ref else apiItemMetadata st i)
           \<and> declarationMetadata st' = declarationMetadata st
           \<and> symbolMetadata st' = symbolMetadata st"
proof -
  obtain options st1 where rd: "readDocComment fe d n x (tsdocParserContext md) st = (options, st1)"
    by (cases "readDocComment fe d n x (tsdocParserContext md) st") auto
  note fr = readDocComment_frame[OF rd]
  from pr fr(1) have "parentResolved fe st1 d"
    by (auto simp: parentResolved_def split: option.splits)
  from fetchParentApiItemMetadata_when_resolved[OF this]
  obtain po where fp: "fetchParentApiItemMetadata fuel fe ents d st1 = Some (Inr (po, st1))"
    by blast
  from healMissingReleaseTag_succeeds[OF root]
  obtain options' st3 where
    hl: "healMissingReleaseTag fe ents (astSymbol d) x r (inheritReleaseTag po options) st1
           = Some (options', st3)" and
    h1: "declarationMetadata st3 = declarationMetadata st1" and
    h2: "apiItemMetadata st3 = apiItemMetadata st1" and
    h3: "symbolMetadata st3 = symbolMetadata st1"
    by blast
  let ?ref = "(nextAddress st3, options'\<lparr>tsdocComment := tsdocParserContext md\<rparr>)"
  let ?st' = "shareApiItemMetadata ?ref (ancillaryDeclarations md)
                (st3\<lparr> nextAddress := Suc (nextAddress st3),
                      apiItemMetadata := (apiItemMetadata st3)(declId d \<mapsto> ?ref) \<rparr>)"
  have at: "attachApiItemMetadata d (tsdocParserContext md) options' st3 = Inr ?st'"
    using md h1 fr(2) by (simp add: attachApiItemMetadata_def Let_def)
  have calc: "calculateApiItemMetadata fuel fe ents d st = Some (Inr ?st')"
    using md na sym rd fp hl at
    by (simp add: calculateApiItemMetadata.simps fetchParentApiItemMetadata_def thenDo_def
          finishApiItemMetadata_def)
  have a: "apiItemMetadata ?st'
             = (\<lambda>i. if i \<in> set (ancillaryDeclarations md) then Some ?ref
                     else if i = declId d then Some ?ref else apiItemMetadata st i)"
    using h2 fr(1) by (simp add: shareApiItemMetadata_frame fun_eq_iff)
  have b: "declarationMetadata ?st' = declarationMetadata st"
    using h1 fr(2) by (simp add: shareApiItemMetadata_other)
  have c: "symbolMetadata ?st' = symbolMetadata st"
    using h3 fr(3) by (simp add: shareApiItemMetadata_other)
  from calc a b c show ?thesis by blast
qed

lemma calculateApiItemMetadata_ancillary:
  assumes "declarationMetadata st (declId d) = Some md" and "isAncillary md"
    and "lookupEntity fe (astSymbol d) = Some (AstSymbol n x p r ds)"
  shows "\<exists>st'. calculateApiItemMetadata fuel fe ents d st = Some (Inr st')
           \<and> apiItemMetadata st' = apiItemMetadata st
           \<and> declarationMetadata st' = declarationMetadata st
           \<and> symbolMetadata st' = symbolMetadata st"
  using assms
  by (simp add: calculateApiItemMetadata.simps skipAncillary_def addAnalyzerIssue_def)

text \<open>
  The state in which \<open>_fetchSymbolMetadata\<close> has solved the parent of a property with
  one getter \<open>g\<close> and one setter \<open>t\<close>: the two are the declarations of the symbol \<open>s\<close> (in
  either order), nothing of the symbol is computed yet, and the metadata of the parent
  symbol and of the getter's parent declaration are there.
\<close>

definition accessorsReady ::
  "FrontEnd \<Rightarrow> nat \<Rightarrow> AstDeclaration \<Rightarrow> AstDeclaration \<Rightarrow> MetadataState \<Rightarrow> bool" where
  "accessorsReady fe s g t st =
     (case lookupEntity fe s of
        Some (AstSymbol n x p r ds) \<Rightarrow>
          (ds = [g, t] \<or> ds = [t, g])
          \<and> declKind g = GetAccessor \<and> declKind t = SetAccessor
          \<and> astSymbol g = s \<and> astSymbol t = s \<and> declId g \<noteq> declId t
          \<and> symbolMetadata st s = None
          \<and> declarationMetadata st (declId g) = None \<and> declarationMetadata st (declId t) = None
          \<and> apiItemMetadata st (declId g) = None \<and> apiItemMetadata st (declId t) = None
          \<and> (case p of None \<Rightarrow> True | Some ps \<Rightarrow> symbolMetadata st ps \<noteq> None)
          \<and> parentResolved fe st g
          \<and> lookupEntity fe r \<noteq> None
      | _ \<Rightarrow> False)"

lemma accessors_declarationMetadata:
  assumes l: "lookupEntity fe s = Some (AstSymbol n x p r ds)"
    and o: "ds = [g, t] \<or> ds = [t, g]"
    and k: "declKind g = GetAccessor" "declKind t = SetAccessor"
    and y: "astSymbol g = s" "astSymbol t = s" and ne: "declId g \<noteq> declId t"
    and f: "declarationMetadata st (declId g) = None" "declarationMetadata st (declId t) = None"
           "apiItemMetadata st (declId g) = None" "apiItemMetadata st (declId t) = None"
  shows "\<exists>st'. calculateDeclarationMetadataForDeclarations fe ds st = Some (Inr st')
           \<and> declarationMetadata st' (declId g)
               = Some (newInternalDeclarationMetadata
                         \<lparr>tsdocParserContext := declTsdoc g, ancillaryDeclarations := [declId t]\<rparr>)
           \<and> declarationMetadata st' (declId t)
               = Some (newInternalDeclarationMetadata
                         \<lparr>tsdocParserContext := declTsdoc t, isAncillary := True\<rparr>)
           \<and> apiItemMetadata st' = apiItemMetadata st
           \<and> symbolMetadata st' = symbolMetadata st"
  using o
proof
  assume "ds = [g, t]"
  with l k y ne f show ?thesis
    by (simp add: calculateDeclarationMetadataForDeclarations_def addAncillaryDeclaration_def
          newInternalDeclarationMetadata_def Let_def)
next
  assume "ds = [t, g]"
  with l k y ne f show ?thesis
    by (simp add: calculateDeclarationMetadataForDeclarations_def addAncillaryDeclaration_def
          newInternalDeclarationMetadata_def Let_def)
qed

lemma maxEffectiveReleaseTag_defined:
  "\<forall>d \<in> set ds. apiItemMetadata st (declId d) \<noteq> None
     \<Longrightarrow> \<exists>m. maxEffectiveReleaseTag st ds m0 = Inr m"
  by (induction ds arbitrary: m0) (auto split: option.splits)

lemma setSymbolMetadata_defined:
  assumes "\<forall>d \<in> set ds. apiItemMetadata st (declId d) \<noteq> None"
  shows "\<exists>m. setSymbolMetadata s ds st
               = Some (Inr (st\<lparr>symbolMetadata := (symbolMetadata st)(s \<mapsto> m)\<rparr>))"
  using maxEffectiveReleaseTag_defined[OF assms, of ReleaseTag_None]
  by (auto simp: setSymbolMetadata_def)

text \<open>What \<open>_fetchSymbolMetadata\<close> leaves for the accessor pair.\<close>

lemma accessorsReady_fetchSymbolMetadata:
  assumes "accessorsReady fe s g t st"
  shows "\<exists>st' ref. fetchSymbolMetadata_private (Suc k) fe ents s st = Some (Inr st')
           \<and> apiItemMetadata st' (declId g) = Some ref
           \<and> apiItemMetadata st' (declId t) = Some ref
           \<and> declarationMetadata st' (declId g)
               = Some (newInternalDeclarationMetadata
                         \<lparr>tsdocParserContext := declTsdoc g, ancillaryDeclarations := [declId t]\<rparr>)
           \<and> declarationMetadata st' (declId t)
               = Some (newInternalDeclarationMetadata
                         \<lparr>tsdocParserContext := declTsdoc t, isAncillary := True\<rparr>)"
proof -
  from assms obtain n x p r ds where
    l: "lookupEntity fe s = Some (AstSymbol n x p r ds)" and
    o: "ds = [g, t] \<or> ds = [t, g]" and
    k: "declKind g = GetAccessor" "declKind t = SetAccessor" and
    y: "astSymbol g = s" "astSymbol t = s" and ne: "declId g \<noteq> declId t" and
    sm: "symbolMetadata st s = None" and
    f: "declarationMetadata st (declId g) = None" "declarationMetadata st (declId t) = None"
       "apiItemMetadata st (declId g) = None" "apiItemMetadata st (declId t) = None" and
    ps: "case p of None \<Rightarrow> True | Some ps \<Rightarrow> symbolMetadata st ps \<noteq> None" and
    pr: "parentResolved fe st g" and
    root: "lookupEntity fe r \<noteq> None"
    by (auto simp: accessorsReady_def split: option.splits AstEntity.splits)
  let ?mg = "newInternalDeclarationMetadata
               \<lparr>tsdocParserContext := declTsdoc g, ancillaryDeclarations := [declId t]\<rparr>"
  let ?mt = "newInternalDeclarationMetadata
               \<lparr>tsdocParserContext := declTsdoc t, isAncillary := True\<rparr>"
  have parentStep:
    "(case p of None \<Rightarrow> Some (Inr st)
      | Some ps \<Rightarrow> if symbolMetadata st ps = None
                   then fetchSymbolMetadata_private k fe ents ps st
                   else Some (Inr st)) = Some (Inr st)"
    using ps by (auto split: option.splits)
  from accessors_declarationMetadata[OF l o k y ne f]
  obtain st2 where
    c2: "calculateDeclarationMetadataForDeclarations fe ds st = Some (Inr st2)" and
    g2: "declarationMetadata st2 (declId g) = Some ?mg" and
    t2: "declarationMetadata st2 (declId t) = Some ?mt" and
    a2: "apiItemMetadata st2 = apiItemMetadata st" and
    s2: "symbolMetadata st2 = symbolMetadata st"
    by blast
  have nag: "\<not> isAncillary ?mg" and at: "isAncillary ?mt"
    and ancg: "ancillaryDeclarations ?mg = [declId t]"
    by (simp_all add: newInternalDeclarationMetadata_def)
  have lg: "lookupEntity fe (astSymbol g) = Some (AstSymbol n x p r ds)"
    and lt: "lookupEntity fe (astSymbol t) = Some (AstSymbol n x p r ds)"
    using l y by simp_all
  have loop: "\<exists>st4 ref. calculateApiItemMetadataForDeclarations k fe ents ds st2 = Some (Inr st4)
                \<and> apiItemMetadata st4 (declId g) = Some ref
                \<and> apiItemMetadata st4 (declId t) = Some ref
                \<and> declarationMetadata st4 = declarationMetadata st2
                \<and> symbolMetadata st4 = symbolMetadata st2"
    using o
  proof
    assume ds: "ds = [g, t]"
    from pr a2 have pr2: "parentResolved fe st2 g"
      by (auto simp: parentResolved_def split: option.splits)
    from calculateApiItemMetadata_main[OF g2 nag lg pr2 root, of k ents]
    obtain st3 ref where
      c3: "calculateApiItemMetadata k fe ents g st2 = Some (Inr st3)" and
      a3: "apiItemMetadata st3
             = (\<lambda>i. if i \<in> set (ancillaryDeclarations ?mg) then Some ref
                     else if i = declId g then Some ref else apiItemMetadata st2 i)" and
      d3: "declarationMetadata st3 = declarationMetadata st2" and
      s3: "symbolMetadata st3 = symbolMetadata st2"
      by blast
    from t2 d3 have t3: "declarationMetadata st3 (declId t) = Some ?mt" by simp
    from calculateApiItemMetadata_ancillary[OF t3 at lt, of k ents]
    obtain st4 where
      c4: "calculateApiItemMetadata k fe ents t st3 = Some (Inr st4)" and
      a4: "apiItemMetadata st4 = apiItemMetadata st3" and
      d4: "declarationMetadata st4 = declarationMetadata st3" and
      s4: "symbolMetadata st4 = symbolMetadata st3"
      by blast
    have "calculateApiItemMetadataForDeclarations k fe ents ds st2 = Some (Inr st4)"
      using ds c3 c4 by (simp add: calculateApiItemMetadataForDeclarations.simps thenDo_def)
    moreover have "apiItemMetadata st4 (declId g) = Some ref"
      "apiItemMetadata st4 (declId t) = Some ref"
      using a4 a3 ancg by simp_all
    ultimately show ?thesis using d4 d3 s4 s3 by auto
  next
    assume ds: "ds = [t, g]"
    from calculateApiItemMetadata_ancillary[OF t2 at lt, of k ents]
    obtain st3 where
      c3: "calculateApiItemMetadata k fe ents t st2 = Some (Inr st3)" and
      a3: "apiItemMetadata st3 = apiItemMetadata st2" and
      d3: "declarationMetadata st3 = declarationMetadata st2" and
      s3: "symbolMetadata st3 = symbolMetadata st2"
      by blast
    from g2 d3 have g3: "declarationMetadata st3 (declId g) = Some ?mg" by simp
    from pr a2 a3 have pr3: "parentResolved fe st3 g"
      by (auto simp: parentResolved_def split: option.splits)
    from calculateApiItemMetadata_main[OF g3 nag lg pr3 root, of k ents]
    obtain st4 ref where
      c4: "calculateApiItemMetadata k fe ents g st3 = Some (Inr st4)" and
      a4: "apiItemMetadata st4
             = (\<lambda>i. if i \<in> set (ancillaryDeclarations ?mg) then Some ref
                     else if i = declId g then Some ref else apiItemMetadata st3 i)" and
      d4: "declarationMetadata st4 = declarationMetadata st3" and
      s4: "symbolMetadata st4 = symbolMetadata st3"
      by blast
    have "calculateApiItemMetadataForDeclarations k fe ents ds st2 = Some (Inr st4)"
      using ds c3 c4 by (simp add: calculateApiItemMetadataForDeclarations.simps thenDo_def)
    moreover have "apiItemMetadata st4 (declId g) = Some ref"
      "apiItemMetadata st4 (declId t) = Some ref"
      using a4 ancg by simp_all
    ultimately show ?thesis using d4 d3 s4 s3 by auto
  qed
  then obtain st4 ref where
    c4: "calculateApiItemMetadataForDeclarations k fe ents ds st2 = Some (Inr st4)" and
    ag: "apiItemMetadata st4 (declId g) = Some ref" and
    at4: "apiItemMetadata st4 (declId t) = Some ref" and
    d4: "declarationMetadata st4 = declarationMetadata st2" and
    s4: "symbolMetadata st4 = symbolMetadata st2"
    by blast
  have "\<forall>d \<in> set ds. apiItemMetadata st4 (declId d) \<noteq> None"
    using o ag at4 by auto
  from setSymbolMetadata_defined[OF this, of s]
  obtain m where
    fin: "setSymbolMetadata s ds st4
            = Some (Inr (st4\<lparr>symbolMetadata := (symbolMetadata st4)(s \<mapsto> m)\<rparr>))"
    by blast
  let ?st' = "st4\<lparr>symbolMetadata := (symbolMetadata st4)(s \<mapsto> m)\<rparr>"
  have "fetchSymbolMetadata_private (Suc k) fe ents s st = Some (Inr ?st')"
    using sm l parentStep c2 c4 fin
    by (simp add: fetchSymbolMetadata_private.simps thenDo_def)
  moreover have "apiItemMetadata ?st' (declId g) = Some ref"
    "apiItemMetadata ?st' (declId t) = Some ref"
    "declarationMetadata ?st' (declId g) = Some ?mg"
    "declarationMetadata ?st' (declId t) = Some ?mt"
    using ag at4 d4 g2 t2 by simp_all
  ultimately show ?thesis by blast
qed

text \<open>
  The invariant behind the exclusion: only setters are marked ancillary and only getters
  have ancillary declarations.  It needs that an identity denotes one declaration.
\<close>

definition uniqueDeclarationIds :: "FrontEnd \<Rightarrow> bool" where
  "uniqueDeclarationIds fe =
     (\<forall>d \<in> set (allDeclarations fe). \<forall>d' \<in> set (allDeclarations fe).
        declId d = declId d' \<longrightarrow> d = d')"

definition ancillaryInvariant :: "FrontEnd \<Rightarrow> MetadataState \<Rightarrow> bool" where
  "ancillaryInvariant fe st =
     (\<forall>i md. declarationMetadata st i = Some md \<longrightarrow>
        (\<exists>d \<in> set (allDeclarations fe). declId d = i)
        \<and> (\<forall>d \<in> set (allDeclarations fe). declId d = i \<longrightarrow>
              (isAncillary md \<longrightarrow> declKind d = SetAccessor)
              \<and> (ancillaryDeclarations md \<noteq> [] \<longrightarrow> declKind d = GetAccessor)))"

definition ancillaryExclusive :: "MetadataState \<Rightarrow> bool" where
  "ancillaryExclusive st =
     (\<forall>i md. declarationMetadata st i = Some md \<longrightarrow>
        \<not> (isAncillary md \<and> ancillaryDeclarations md \<noteq> []))"

lemma ancillaryInvariant_exclusive:
  assumes "ancillaryInvariant fe st"
  shows "ancillaryExclusive st"
  unfolding ancillaryExclusive_def
proof (intro allI impI notI)
  fix i md
  assume m: "declarationMetadata st i = Some md"
    and b: "isAncillary md \<and> ancillaryDeclarations md \<noteq> []"
  from assms m obtain d where d: "d \<in> set (allDeclarations fe)" "declId d = i"
    unfolding ancillaryInvariant_def by blast
  from assms m d b have "declKind d = SetAccessor" "declKind d = GetAccessor"
    unfolding ancillaryInvariant_def by blast+
  then show False by simp
qed

lemma ancillaryInvariant_cong:
  "declarationMetadata st' = declarationMetadata st
     \<Longrightarrow> ancillaryInvariant fe st' = ancillaryInvariant fe st"
  by (simp add: ancillaryInvariant_def)

lemma declarationsRecursive_self: "d \<in> set (declarationsRecursive d)"
  by (cases d) simp

lemma symbol_declarations_in_table:
  assumes "lookupEntity fe s = Some (AstSymbol n x p r ds)"
  shows "set ds \<subseteq> set (allDeclarations fe)"
proof
  fix d assume d: "d \<in> set ds"
  from assms have "(s, AstSymbol n x p r ds) \<in> set (astEntities fe)"
    by (simp add: lookupEntity_def map_of_SomeD)
  moreover have "d \<in> set (concat (map declarationsRecursive ds))"
    using d declarationsRecursive_self by auto
  ultimately show "d \<in> set (allDeclarations fe)"
    unfolding allDeclarations_def by force
qed

lemma initializeDeclarationMetadata_invariant:
  "initializeDeclarationMetadata ds st = Inr st' \<Longrightarrow> set ds \<subseteq> set (allDeclarations fe)
     \<Longrightarrow> ancillaryInvariant fe st \<Longrightarrow> ancillaryInvariant fe st'"
proof (induction ds arbitrary: st)
  case Nil
  then show ?case by simp
next
  case (Cons d ds)
  let ?st1 = "st\<lparr>declarationMetadata := (declarationMetadata st)
                 (declId d \<mapsto> newInternalDeclarationMetadata\<lparr>tsdocParserContext := declTsdoc d\<rparr>)\<rparr>"
  from Cons.prems(1) have r: "initializeDeclarationMetadata ds ?st1 = Inr st'"
    by (simp split: if_splits)
  have "ancillaryInvariant fe ?st1"
    using Cons.prems(2,3)
    by (auto simp: ancillaryInvariant_def newInternalDeclarationMetadata_def)
  with Cons.IH[OF r] Cons.prems(2) show ?case by simp
qed

lemma addAncillaryDeclaration_invariant:
  assumes "addAncillaryDeclaration g t st = Inr st'"
    and u: "uniqueDeclarationIds fe"
    and gi: "g \<in> set (allDeclarations fe)" and ti: "t \<in> set (allDeclarations fe)"
    and kg: "declKind g = GetAccessor" and kt: "declKind t = SetAccessor"
    and inv: "ancillaryInvariant fe st"
  shows "ancillaryInvariant fe st'"
proof (cases "st' = st")
  case True
  with inv show ?thesis by simp
next
  case False
  with assms(1) obtain mg mt where
    mg: "declarationMetadata st (declId g) = Some mg" and
    mt: "declarationMetadata st (declId t) = Some mt"
    by (auto simp: addAncillaryDeclaration_def Let_def split: option.splits if_splits)
  from False assms(1) mg mt obtain m where
    st': "st' = st\<lparr>declarationMetadata :=
                   ((declarationMetadata st)(declId t \<mapsto> mt\<lparr>isAncillary := True\<rparr>))
                     (declId g \<mapsto> m\<lparr>ancillaryDeclarations :=
                                       ancillaryDeclarations m @ [declId t]\<rparr>)\<rparr>"
    and m: "((declarationMetadata st)(declId t \<mapsto> mt\<lparr>isAncillary := True\<rparr>)) (declId g) = Some m"
    by (auto simp: addAncillaryDeclaration_def Let_def split: option.splits if_splits)
  have uniq: "d = g" if "d \<in> set (allDeclarations fe)" "declId d = declId g" for d
    using u gi that unfolding uniqueDeclarationIds_def by blast
  have uniqt: "d = t" if "d \<in> set (allDeclarations fe)" "declId d = declId t" for d
    using u ti that unfolding uniqueDeclarationIds_def by blast
  have ne: "declId g \<noteq> declId t"
    using uniq[OF ti] kg kt by auto
  from m ne have mm: "m = mg" using mg by simp
  show ?thesis
    unfolding ancillaryInvariant_def
  proof (intro allI impI)
    fix i md
    assume a: "declarationMetadata st' i = Some md"
    show "(\<exists>d \<in> set (allDeclarations fe). declId d = i)
          \<and> (\<forall>d \<in> set (allDeclarations fe). declId d = i \<longrightarrow>
                (isAncillary md \<longrightarrow> declKind d = SetAccessor)
                \<and> (ancillaryDeclarations md \<noteq> [] \<longrightarrow> declKind d = GetAccessor))"
    proof (cases "i = declId g")
      case True
      with a st' mm have md: "md = mg\<lparr>ancillaryDeclarations := ancillaryDeclarations mg @ [declId t]\<rparr>"
        by simp
      from inv mg have "\<forall>d \<in> set (allDeclarations fe). declId d = declId g \<longrightarrow>
                          (isAncillary mg \<longrightarrow> declKind d = SetAccessor)"
        unfolding ancillaryInvariant_def by blast
      with True md gi kg uniq show ?thesis by auto
    next
      case ng: False
      show ?thesis
      proof (cases "i = declId t")
        case True
        with a st' ng have md: "md = mt\<lparr>isAncillary := True\<rparr>" by simp
        from inv mt have "\<forall>d \<in> set (allDeclarations fe). declId d = declId t \<longrightarrow>
                            (ancillaryDeclarations mt \<noteq> [] \<longrightarrow> declKind d = GetAccessor)"
          unfolding ancillaryInvariant_def by blast
        with True md ti kt uniqt show ?thesis by auto
      next
        case False
        with a st' ng have "declarationMetadata st i = Some md" by simp
        with inv show ?thesis unfolding ancillaryInvariant_def by blast
      qed
    qed
  qed
qed

lemma linkGetters_invariant:
  "linkGetters t gs found st = Inr (found', st') \<Longrightarrow> uniqueDeclarationIds fe
     \<Longrightarrow> set gs \<subseteq> set (allDeclarations fe) \<Longrightarrow> t \<in> set (allDeclarations fe)
     \<Longrightarrow> declKind t = SetAccessor \<Longrightarrow> ancillaryInvariant fe st
     \<Longrightarrow> ancillaryInvariant fe st'"
proof (induction gs arbitrary: found st)
  case Nil
  then show ?case by simp
next
  case (Cons g gs)
  show ?case
  proof (cases "declKind g = GetAccessor")
    case False
    with Cons.prems(1) have "linkGetters t gs found st = Inr (found', st')" by simp
    from Cons.IH[OF this Cons.prems(2) _ Cons.prems(4,5,6)] Cons.prems(3) show ?thesis by simp
  next
    case True
    with Cons.prems(1) obtain st1 where
      a: "addAncillaryDeclaration g t st = Inr st1" and
      b: "linkGetters t gs True st1 = Inr (found', st')"
      by (auto split: sum.splits)
    from Cons.prems(3) have gi: "g \<in> set (allDeclarations fe)" by simp
    from addAncillaryDeclaration_invariant[OF a Cons.prems(2) gi Cons.prems(4) True
           Cons.prems(5,6)]
    have "ancillaryInvariant fe st1" .
    from Cons.IH[OF b Cons.prems(2) _ Cons.prems(4,5) this] Cons.prems(3) show ?thesis by simp
  qed
qed

lemma detectAncillaryDeclarations_invariant:
  "detectAncillaryDeclarations fe ds st = Some (Inr st') \<Longrightarrow> uniqueDeclarationIds fe
     \<Longrightarrow> set ds \<subseteq> set (allDeclarations fe) \<Longrightarrow> ancillaryInvariant fe st
     \<Longrightarrow> ancillaryInvariant fe st'"
proof (induction ds arbitrary: st)
  case Nil
  then show ?case by simp
next
  case (Cons d ds)
  show ?case
  proof (cases "declKind d = SetAccessor")
    case False
    with Cons.prems(1) have "detectAncillaryDeclarations fe ds st = Some (Inr st')" by simp
    from Cons.IH[OF this Cons.prems(2) _ Cons.prems(4)] Cons.prems(3) show ?thesis by simp
  next
    case True
    with Cons.prems(1) obtain n x p r gs found st1 where
      le: "lookupEntity fe (astSymbol d) = Some (AstSymbol n x p r gs)" and
      l: "linkGetters d gs False st = Inr (found, st1)" and
      rest: "detectAncillaryDeclarations fe ds
               (if \<not> found
                then addAnalyzerIssue MissingGetter
                       (''The property '' @ dq @ n @ dq @ '' has a setter but no getter.'')
                       (OnDeclaration (declId d)) st1
                else st1) = Some (Inr st')"
      by (auto split: option.splits AstEntity.splits sum.splits)
    from Cons.prems(3) have di: "d \<in> set (allDeclarations fe)" by simp
    from linkGetters_invariant[OF l Cons.prems(2) symbol_declarations_in_table[OF le] di True
           Cons.prems(4)]
    have "ancillaryInvariant fe st1" .
    then have "ancillaryInvariant fe
                 (if \<not> found
                  then addAnalyzerIssue MissingGetter
                         (''The property '' @ dq @ n @ dq @ '' has a setter but no getter.'')
                         (OnDeclaration (declId d)) st1
                  else st1)"
      by (simp add: ancillaryInvariant_def addAnalyzerIssue_def)
    from Cons.IH[OF rest Cons.prems(2) _ this] Cons.prems(3) show ?thesis by simp
  qed
qed

lemma calculateDeclarationMetadataForDeclarations_invariant:
  assumes "lookupEntity fe s = Some (AstSymbol n x p r ds)"
    and "calculateDeclarationMetadataForDeclarations fe ds st = Some (Inr st')"
    and "uniqueDeclarationIds fe" and "ancillaryInvariant fe st"
  shows "ancillaryInvariant fe st'"
proof -
  note sub = symbol_declarations_in_table[OF assms(1)]
  from assms(2) obtain st1 where
    a: "initializeDeclarationMetadata ds st = Inr st1" and
    b: "detectAncillaryDeclarations fe ds st1 = Some (Inr st')"
    by (auto simp: calculateDeclarationMetadataForDeclarations_def split: sum.splits)
  from initializeDeclarationMetadata_invariant[OF a sub assms(4)]
  have "ancillaryInvariant fe st1" .
  from detectAncillaryDeclarations_invariant[OF b assms(3) sub this] show ?thesis .
qed

lemma fetchSymbolMetadata_private_invariant:
  assumes "fetchSymbolMetadata_private fuel fe ents s st = Some (Inr st')"
    and "uniqueDeclarationIds fe" and "ancillaryInvariant fe st"
  shows "ancillaryInvariant fe st'"
proof -
  have "uniqueDeclarationIds fe \<and> ancillaryInvariant fe st \<longrightarrow> ancillaryInvariant fe st'"
  proof (rule propagator_preserves(1)
           [where R = "\<lambda>fe st st'. uniqueDeclarationIds fe \<and> ancillaryInvariant fe st
                                   \<longrightarrow> ancillaryInvariant fe st'", OF _ _ _ _ _ _ assms(1)])
    show "\<And>fe s n x p r ds st st'. lookupEntity fe s = Some (AstSymbol n x p r ds)
            \<Longrightarrow> calculateDeclarationMetadataForDeclarations fe ds st = Some (Inr st')
            \<Longrightarrow> uniqueDeclarationIds fe \<and> ancillaryInvariant fe st \<longrightarrow> ancillaryInvariant fe st'"
      using calculateDeclarationMetadataForDeclarations_invariant by blast
    show "\<And>fe d pc opts st st'. attachApiItemMetadata d pc opts st = Inr st'
            \<Longrightarrow> uniqueDeclarationIds fe \<and> ancillaryInvariant fe st \<longrightarrow> ancillaryInvariant fe st'"
      using attachApiItemMetadata_result(3) ancillaryInvariant_cong by blast
    show "\<And>fe st i t x. uniqueDeclarationIds fe \<and> ancillaryInvariant fe st
            \<longrightarrow> ancillaryInvariant fe (addAnalyzerIssue i t x st)"
      by (simp add: ancillaryInvariant_def addAnalyzerIssue_def)
    show "\<And>fe st s m. uniqueDeclarationIds fe \<and> ancillaryInvariant fe st
            \<longrightarrow> ancillaryInvariant fe (st\<lparr>symbolMetadata := (symbolMetadata st)(s \<mapsto> m)\<rparr>)"
      by (simp add: ancillaryInvariant_def)
  qed blast+
  with assms(2,3) show ?thesis by blast
qed

lemma getNonAncillaryDeclarations_resolved:
  assumes "declarationMetadata st (declId g) = Some mg" "\<not> isAncillary mg"
    and "declarationMetadata st (declId t) = Some mt" "isAncillary mt"
    and "ds = [g, t] \<or> ds = [t, g]"
  shows "getNonAncillaryDeclarations fuel fe ents ds st = Some (Inr ([g], st))"
  using assms by (auto simp: fetchDeclarationMetadata_def thenDo_def)


section \<open>Solving a symbol with its parents\<close>

text \<open>
  The symbols above a symbol: \<open>lineage fe a as\<close> says that \<open>as\<close> are the parent of \<open>a\<close>, the
  parent of that parent, and so on up to a symbol without parent.
\<close>

definition declarationsOf :: "FrontEnd \<Rightarrow> nat \<Rightarrow> AstDeclaration list" where
  "declarationsOf fe a =
     (case lookupEntity fe a of Some (AstSymbol n x p r ds) \<Rightarrow> ds | _ \<Rightarrow> [])"

fun lineage :: "FrontEnd \<Rightarrow> nat \<Rightarrow> nat list \<Rightarrow> bool" where
  "lineage fe a [] =
     (case lookupEntity fe a of Some (AstSymbol n x p r ds) \<Rightarrow> p = None | _ \<Rightarrow> False)"
| "lineage fe a (b # bs) =
     (case lookupEntity fe a of
        Some (AstSymbol n x p r ds) \<Rightarrow> p = Some b \<and> lineage fe b bs
      | _ \<Rightarrow> False)"

text \<open>
  The parent declaration of \<open>d\<close>, if it has one, is a declaration of the nearest of the
  symbols \<open>as\<close>.
\<close>

definition parentIn :: "FrontEnd \<Rightarrow> nat list \<Rightarrow> AstDeclaration \<Rightarrow> bool" where
  "parentIn fe as d =
     (case parent d of
        None \<Rightarrow> True
      | Some pid \<Rightarrow>
          (case lookupDeclaration fe pid of
             None \<Rightarrow> False
           | Some pd \<Rightarrow> as \<noteq> [] \<and> declId pd \<in> declId ` set (declarationsOf fe (hd as))))"

text \<open>
  A symbol without setters, whose declarations name it as their symbol and have their
  parents in the symbol above, and whose root symbol is in the table.
\<close>

definition plainSymbol :: "FrontEnd \<Rightarrow> nat \<Rightarrow> nat list \<Rightarrow> bool" where
  "plainSymbol fe a as =
     (case lookupEntity fe a of
        Some (AstSymbol n x p r ds) \<Rightarrow>
          (\<forall>d \<in> set ds. declKind d \<noteq> SetAccessor \<and> astSymbol d = a \<and> parentIn fe as d)
          \<and> lookupEntity fe r \<noteq> None
      | _ \<Rightarrow> False)"

fun plainLineage :: "FrontEnd \<Rightarrow> nat list \<Rightarrow> bool" where
  "plainLineage fe [] = True"
| "plainLineage fe (a # as) = (plainSymbol fe a as \<and> plainLineage fe as)"

definition lineageDeclIds :: "FrontEnd \<Rightarrow> nat list \<Rightarrow> nat list" where
  "lineageDeclIds fe as = concat (map (\<lambda>a. map declId (declarationsOf fe a)) as)"

text \<open>
  A symbol of which nothing is computed, and a symbol that \<open>_fetchSymbolMetadata\<close> has
  solved.
\<close>

definition untouched :: "FrontEnd \<Rightarrow> MetadataState \<Rightarrow> nat \<Rightarrow> bool" where
  "untouched fe st a =
     (symbolMetadata st a = None
      \<and> (\<forall>d \<in> set (declarationsOf fe a).
            declarationMetadata st (declId d) = None \<and> apiItemMetadata st (declId d) = None))"

definition solved :: "FrontEnd \<Rightarrow> MetadataState \<Rightarrow> nat \<Rightarrow> bool" where
  "solved fe st a =
     (symbolMetadata st a \<noteq> None
      \<and> (\<forall>d \<in> set (declarationsOf fe a). apiItemMetadata st (declId d) \<noteq> None))"

lemma initializeDeclarationMetadata_fresh:
  assumes "distinct (map declId ds)"
    and "\<forall>d \<in> set ds. declarationMetadata st (declId d) = None"
  shows "\<exists>st'. initializeDeclarationMetadata ds st = Inr st'
           \<and> (\<forall>d \<in> set ds. declarationMetadata st' (declId d)
                 = Some (newInternalDeclarationMetadata\<lparr>tsdocParserContext := declTsdoc d\<rparr>))
           \<and> (\<forall>i. i \<notin> declId ` set ds \<longrightarrow> declarationMetadata st' i = declarationMetadata st i)
           \<and> apiItemMetadata st' = apiItemMetadata st
           \<and> symbolMetadata st' = symbolMetadata st"
  using assms
proof (induction ds arbitrary: st)
  case Nil
  then show ?case by simp
next
  case (Cons d ds)
  let ?st1 = "st\<lparr>declarationMetadata := (declarationMetadata st)
                 (declId d \<mapsto> newInternalDeclarationMetadata\<lparr>tsdocParserContext := declTsdoc d\<rparr>)\<rparr>"
  have a: "distinct (map declId ds)" using Cons.prems(1) by simp
  have nd: "declId e \<noteq> declId d" if "e \<in> set ds" for e
    using Cons.prems(1) that by (auto simp: image_iff)
  have b: "\<forall>e \<in> set ds. declarationMetadata ?st1 (declId e) = None"
    using Cons.prems(2) nd by simp
  from Cons.IH[OF a b] obtain st' where
    r: "initializeDeclarationMetadata ds ?st1 = Inr st'" and
    m: "\<forall>e \<in> set ds. declarationMetadata st' (declId e)
          = Some (newInternalDeclarationMetadata\<lparr>tsdocParserContext := declTsdoc e\<rparr>)" and
    f: "\<forall>i. i \<notin> declId ` set ds \<longrightarrow> declarationMetadata st' i = declarationMetadata ?st1 i" and
    g: "apiItemMetadata st' = apiItemMetadata ?st1" "symbolMetadata st' = symbolMetadata ?st1"
    by blast
  have "initializeDeclarationMetadata (d # ds) st = Inr st'"
    using r Cons.prems(2) by simp
  moreover have "declarationMetadata st' (declId d)
      = Some (newInternalDeclarationMetadata\<lparr>tsdocParserContext := declTsdoc d\<rparr>)"
    using f Cons.prems(1) by auto
  moreover have "\<forall>i. i \<notin> declId ` set (d # ds)
                    \<longrightarrow> declarationMetadata st' i = declarationMetadata st i"
    using f by auto
  ultimately show ?case using m g by auto
qed

lemma detectAncillaryDeclarations_plain:
  "\<forall>d \<in> set ds. declKind d \<noteq> SetAccessor
     \<Longrightarrow> detectAncillaryDeclarations fe ds st = Some (Inr st)"
  by (induction ds) simp_all

lemma parentResolved_mono:
  assumes "parentResolved fe st d"
    and "\<And>i. apiItemMetadata st i \<noteq> None \<Longrightarrow> apiItemMetadata st' i \<noteq> None"
  shows "parentResolved fe st' d"
  using assms by (auto simp: parentResolved_def split: option.splits)

text \<open>The loop over the declarations of a symbol without setters.\<close>

lemma calculateApiItemMetadataForDeclarations_plain:
  assumes "\<forall>d \<in> set ds. \<exists>md. declarationMetadata st (declId d) = Some md
              \<and> \<not> isAncillary md \<and> ancillaryDeclarations md = []"
    and "\<forall>d \<in> set ds. \<exists>n x p r es. lookupEntity fe (astSymbol d) = Some (AstSymbol n x p r es)
              \<and> lookupEntity fe r \<noteq> None"
    and "\<forall>d \<in> set ds. parentResolved fe st d"
  shows "\<exists>st'. calculateApiItemMetadataForDeclarations fuel fe ents ds st = Some (Inr st')
           \<and> (\<forall>d \<in> set ds. apiItemMetadata st' (declId d) \<noteq> None)
           \<and> (\<forall>i. apiItemMetadata st i \<noteq> None \<longrightarrow> apiItemMetadata st' i \<noteq> None)
           \<and> (\<forall>i. i \<notin> declId ` set ds \<longrightarrow> apiItemMetadata st' i = apiItemMetadata st i)
           \<and> declarationMetadata st' = declarationMetadata st
           \<and> symbolMetadata st' = symbolMetadata st"
  using assms
proof (induction ds arbitrary: st)
  case Nil
  then show ?case by (simp add: calculateApiItemMetadataForDeclarations.simps)
next
  case (Cons d ds)
  from Cons.prems(1) obtain md where
    md: "declarationMetadata st (declId d) = Some md" and na: "\<not> isAncillary md"
    and anc: "ancillaryDeclarations md = []"
    by auto
  from Cons.prems(2) obtain n x p r es where
    l: "lookupEntity fe (astSymbol d) = Some (AstSymbol n x p r es)" and
    root: "lookupEntity fe r \<noteq> None"
    by auto
  from Cons.prems(3) have pr: "parentResolved fe st d" by simp
  from calculateApiItemMetadata_main[OF md na l pr root, of fuel ents]
  obtain st1 ref where
    c1: "calculateApiItemMetadata fuel fe ents d st = Some (Inr st1)" and
    a1: "apiItemMetadata st1
           = (\<lambda>i. if i \<in> set (ancillaryDeclarations md) then Some ref
                   else if i = declId d then Some ref else apiItemMetadata st i)" and
    d1: "declarationMetadata st1 = declarationMetadata st" and
    s1: "symbolMetadata st1 = symbolMetadata st"
    by blast
  from a1 anc have a1': "apiItemMetadata st1 = (apiItemMetadata st)(declId d \<mapsto> ref)"
    by (auto simp: fun_eq_iff)
  have grow: "apiItemMetadata st i \<noteq> None \<Longrightarrow> apiItemMetadata st1 i \<noteq> None" for i
    using a1' by simp
  have p1: "\<forall>e \<in> set ds. \<exists>md. declarationMetadata st1 (declId e) = Some md
              \<and> \<not> isAncillary md \<and> ancillaryDeclarations md = []"
    using Cons.prems(1) d1 by simp
  have p2: "\<forall>e \<in> set ds. \<exists>n x p r es. lookupEntity fe (astSymbol e)
              = Some (AstSymbol n x p r es) \<and> lookupEntity fe r \<noteq> None"
    using Cons.prems(2) by simp
  have p3: "\<forall>e \<in> set ds. parentResolved fe st1 e"
    using Cons.prems(3) grow by (auto intro: parentResolved_mono)
  from Cons.IH[OF p1 p2 p3] obtain st' where
    r: "calculateApiItemMetadataForDeclarations fuel fe ents ds st1 = Some (Inr st')" and
    all: "\<forall>e \<in> set ds. apiItemMetadata st' (declId e) \<noteq> None" and
    mono: "\<forall>i. apiItemMetadata st1 i \<noteq> None \<longrightarrow> apiItemMetadata st' i \<noteq> None" and
    fr: "\<forall>i. i \<notin> declId ` set ds \<longrightarrow> apiItemMetadata st' i = apiItemMetadata st1 i" and
    d': "declarationMetadata st' = declarationMetadata st1" and
    s': "symbolMetadata st' = symbolMetadata st1"
    by blast
  have "calculateApiItemMetadataForDeclarations fuel fe ents (d # ds) st = Some (Inr st')"
    using c1 r
    by (simp add: calculateApiItemMetadataForDeclarations.simps[of _ _ _ "d # ds"] thenDo_def)
  moreover have "apiItemMetadata st' (declId d) \<noteq> None"
    using mono a1' by simp
  moreover have "\<forall>i. apiItemMetadata st i \<noteq> None \<longrightarrow> apiItemMetadata st' i \<noteq> None"
    using mono grow by blast
  moreover have "\<forall>i. i \<notin> declId ` set (d # ds)
                    \<longrightarrow> apiItemMetadata st' i = apiItemMetadata st i"
    using fr a1' by auto
  ultimately show ?case using all d' d1 s' s1 by auto
qed

lemma parentIn_resolved:
  assumes "parentIn fe as d" and "as \<noteq> [] \<longrightarrow> solved fe st (hd as)"
  shows "parentResolved fe st d"
  using assms
  by (auto simp: parentIn_def parentResolved_def solved_def split: option.splits)

text \<open>
  What \<open>_fetchSymbolMetadata\<close> does for a symbol without setters after it has solved the
  parent.
\<close>

lemma solveDeclarations_plain:
  assumes l: "lookupEntity fe a = Some (AstSymbol n x p r ds)"
    and pl: "\<forall>d \<in> set ds. declKind d \<noteq> SetAccessor \<and> astSymbol d = a"
    and root: "lookupEntity fe r \<noteq> None"
    and di: "distinct (map declId ds)"
    and un: "\<forall>d \<in> set ds. declarationMetadata st (declId d) = None"
    and pr: "\<forall>d \<in> set ds. parentResolved fe st d"
  shows "\<exists>st' m.
           thenDo (calculateDeclarationMetadataForDeclarations fe ds st)
             (\<lambda>st2. thenDo (calculateApiItemMetadataForDeclarations k fe ents ds st2)
                (\<lambda>st3. setSymbolMetadata a ds st3)) = Some (Inr st')
           \<and> symbolMetadata st' = (symbolMetadata st)(a \<mapsto> m)
           \<and> (\<forall>d \<in> set ds. apiItemMetadata st' (declId d) \<noteq> None)
           \<and> (\<forall>i. apiItemMetadata st i \<noteq> None \<longrightarrow> apiItemMetadata st' i \<noteq> None)
           \<and> (\<forall>i. i \<notin> declId ` set ds
                  \<longrightarrow> apiItemMetadata st' i = apiItemMetadata st i
                      \<and> declarationMetadata st' i = declarationMetadata st i)"
proof -
  from initializeDeclarationMetadata_fresh[OF di un] obtain st2 where
    i2: "initializeDeclarationMetadata ds st = Inr st2" and
    m2: "\<forall>d \<in> set ds. declarationMetadata st2 (declId d)
           = Some (newInternalDeclarationMetadata\<lparr>tsdocParserContext := declTsdoc d\<rparr>)" and
    f2: "\<forall>i. i \<notin> declId ` set ds \<longrightarrow> declarationMetadata st2 i = declarationMetadata st i" and
    a2: "apiItemMetadata st2 = apiItemMetadata st" and
    s2: "symbolMetadata st2 = symbolMetadata st"
    by blast
  from pl have "\<forall>d \<in> set ds. declKind d \<noteq> SetAccessor" by simp
  from detectAncillaryDeclarations_plain[OF this, of fe st2] i2
  have c2: "calculateDeclarationMetadataForDeclarations fe ds st = Some (Inr st2)"
    by (simp add: calculateDeclarationMetadataForDeclarations_def)
  have q1: "\<forall>d \<in> set ds. \<exists>md. declarationMetadata st2 (declId d) = Some md
              \<and> \<not> isAncillary md \<and> ancillaryDeclarations md = []"
    using m2 by (simp add: newInternalDeclarationMetadata_def)
  have q2: "\<forall>d \<in> set ds. \<exists>n x p r es. lookupEntity fe (astSymbol d)
              = Some (AstSymbol n x p r es) \<and> lookupEntity fe r \<noteq> None"
    using pl l root by auto
  have q3: "\<forall>d \<in> set ds. parentResolved fe st2 d"
    using pr a2 by (auto intro: parentResolved_mono)
  from calculateApiItemMetadataForDeclarations_plain[OF q1 q2 q3, of k ents]
  obtain st3 where
    c3: "calculateApiItemMetadataForDeclarations k fe ents ds st2 = Some (Inr st3)" and
    all3: "\<forall>d \<in> set ds. apiItemMetadata st3 (declId d) \<noteq> None" and
    mono3: "\<forall>i. apiItemMetadata st2 i \<noteq> None \<longrightarrow> apiItemMetadata st3 i \<noteq> None" and
    fr3: "\<forall>i. i \<notin> declId ` set ds \<longrightarrow> apiItemMetadata st3 i = apiItemMetadata st2 i" and
    d3: "declarationMetadata st3 = declarationMetadata st2" and
    s3: "symbolMetadata st3 = symbolMetadata st2"
    by blast
  from setSymbolMetadata_defined[OF all3, of a] obtain m where
    fin: "setSymbolMetadata a ds st3
            = Some (Inr (st3\<lparr>symbolMetadata := (symbolMetadata st3)(a \<mapsto> m)\<rparr>))"
    by blast
  let ?st' = "st3\<lparr>symbolMetadata := (symbolMetadata st3)(a \<mapsto> m)\<rparr>"
  have "thenDo (calculateDeclarationMetadataForDeclarations fe ds st)
          (\<lambda>st2. thenDo (calculateApiItemMetadataForDeclarations k fe ents ds st2)
             (\<lambda>st3. setSymbolMetadata a ds st3)) = Some (Inr ?st')"
    using c2 c3 fin by (simp add: thenDo_def)
  moreover have "symbolMetadata ?st' = (symbolMetadata st)(a \<mapsto> m)"
    using s3 s2 by simp
  moreover have "\<forall>d \<in> set ds. apiItemMetadata ?st' (declId d) \<noteq> None"
    using all3 by simp
  moreover have "\<forall>i. apiItemMetadata st i \<noteq> None \<longrightarrow> apiItemMetadata ?st' i \<noteq> None"
    using mono3 a2 by simp
  moreover have "\<forall>i. i \<notin> declId ` set ds
                   \<longrightarrow> apiItemMetadata ?st' i = apiItemMetadata st i
                       \<and> declarationMetadata ?st' i = declarationMetadata st i"
    using fr3 a2 d3 f2 by simp
  ultimately show ?thesis by blast
qed

lemma lineageDeclIds_Cons:
  "lineageDeclIds fe (a # as) = map declId (declarationsOf fe a) @ lineageDeclIds fe as"
  by (simp add: lineageDeclIds_def)

lemma lineageDeclIds_member:
  "b \<in> set as \<Longrightarrow> d \<in> set (declarationsOf fe b) \<Longrightarrow> declId d \<in> set (lineageDeclIds fe as)"
  by (auto simp: lineageDeclIds_def)

text \<open>
  \<open>_fetchSymbolMetadata\<close> solves a symbol without setters together with the symbols above
  it, when each of them is solved or not touched yet, and leaves everything else as it
  is.
\<close>

lemma solve_lineage:
  assumes "lineage fe a as" and "plainLineage fe (a # as)" and "distinct (a # as)"
    and "distinct (lineageDeclIds fe (a # as))"
    and "\<forall>b \<in> set (a # as). untouched fe st b \<or> solved fe st b"
    and "length as < fuel"
  shows "\<exists>st'. fetchSymbolMetadata_private fuel fe ents a st = Some (Inr st')
           \<and> solved fe st' a
           \<and> (\<forall>b \<in> set as. untouched fe st' b \<or> solved fe st' b)
           \<and> (\<forall>i. i \<notin> set (lineageDeclIds fe (a # as))
                  \<longrightarrow> declarationMetadata st' i = declarationMetadata st i
                      \<and> apiItemMetadata st' i = apiItemMetadata st i)
           \<and> (\<forall>b. b \<notin> set (a # as) \<longrightarrow> symbolMetadata st' b = symbolMetadata st b)"
  using assms
proof (induction as arbitrary: a st fuel)
  case Nil
  from Nil.prems(6) obtain k where fuel: "fuel = Suc k" by (cases fuel) auto
  from Nil.prems(1) obtain n x r ds where
    l: "lookupEntity fe a = Some (AstSymbol n x None r ds)"
    by (auto split: option.splits AstEntity.splits)
  then have dof: "declarationsOf fe a = ds" by (simp add: declarationsOf_def)
  show ?case
  proof (cases "symbolMetadata st a = None")
    case False
    then have "fetchSymbolMetadata_private fuel fe ents a st = Some (Inr st)"
      by (simp add: fuel fetchSymbolMetadata_private.simps)
    moreover from False Nil.prems(5) have "solved fe st a" by (auto simp: untouched_def)
    ultimately show ?thesis by simp
  next
    case True
    with Nil.prems(5) have un: "untouched fe st a" by (auto simp: solved_def)
    from Nil.prems(2) l have
      pl: "\<forall>d \<in> set ds. declKind d \<noteq> SetAccessor \<and> astSymbol d = a" and
      pin: "\<forall>d \<in> set ds. parentIn fe [] d" and
      root: "lookupEntity fe r \<noteq> None"
      by (auto simp: plainSymbol_def)
    from Nil.prems(4) dof have di: "distinct (map declId ds)"
      by (simp add: lineageDeclIds_Cons)
    from un dof have un': "\<forall>d \<in> set ds. declarationMetadata st (declId d) = None"
      by (simp add: untouched_def)
    from pin have pr: "\<forall>d \<in> set ds. parentResolved fe st d"
      by (auto intro: parentIn_resolved)
    from solveDeclarations_plain[OF l pl root di un' pr, of k ents]
    obtain st' m where
      c: "thenDo (calculateDeclarationMetadataForDeclarations fe ds st)
            (\<lambda>st2. thenDo (calculateApiItemMetadataForDeclarations k fe ents ds st2)
               (\<lambda>st3. setSymbolMetadata a ds st3)) = Some (Inr st')" and
      s: "symbolMetadata st' = (symbolMetadata st)(a \<mapsto> m)" and
      all: "\<forall>d \<in> set ds. apiItemMetadata st' (declId d) \<noteq> None" and
      fr: "\<forall>i. i \<notin> declId ` set ds
             \<longrightarrow> apiItemMetadata st' i = apiItemMetadata st i
                 \<and> declarationMetadata st' i = declarationMetadata st i"
      by blast
    have "fetchSymbolMetadata_private fuel fe ents a st = Some (Inr st')"
      using True l c by (simp add: fuel fetchSymbolMetadata_private.simps thenDo_def)
    moreover have "solved fe st' a" using s all dof by (simp add: solved_def)
    moreover have "\<forall>i. i \<notin> set (lineageDeclIds fe [a])
                     \<longrightarrow> declarationMetadata st' i = declarationMetadata st i
                         \<and> apiItemMetadata st' i = apiItemMetadata st i"
      using fr dof by (simp add: lineageDeclIds_Cons lineageDeclIds_def)
    moreover have "\<forall>b. b \<notin> set [a] \<longrightarrow> symbolMetadata st' b = symbolMetadata st b"
      using s by simp
    ultimately show ?thesis by simp
  qed
next
  case (Cons b bs)
  from Cons.prems(6) obtain k where fuel: "fuel = Suc k" and k: "length bs < k"
    by (cases fuel) auto
  from Cons.prems(1) obtain n x r ds where
    l: "lookupEntity fe a = Some (AstSymbol n x (Some b) r ds)" and
    lin: "lineage fe b bs"
    by (auto split: option.splits AstEntity.splits)
  then have dof: "declarationsOf fe a = ds" by (simp add: declarationsOf_def)
  show ?case
  proof (cases "symbolMetadata st a = None")
    case False
    then have "fetchSymbolMetadata_private fuel fe ents a st = Some (Inr st)"
      by (simp add: fuel fetchSymbolMetadata_private.simps)
    moreover from False Cons.prems(5) have "solved fe st a" by (auto simp: untouched_def)
    ultimately show ?thesis using Cons.prems(5) by simp
  next
    case True
    with Cons.prems(5) have un: "untouched fe st a" by (auto simp: solved_def)
    from Cons.prems(2) l have
      pl: "\<forall>d \<in> set ds. declKind d \<noteq> SetAccessor \<and> astSymbol d = a" and
      pin: "\<forall>d \<in> set ds. parentIn fe (b # bs) d" and
      root: "lookupEntity fe r \<noteq> None" and
      plb: "plainLineage fe (b # bs)"
      by (auto simp: plainSymbol_def)
    from Cons.prems(4) dof have di: "distinct (map declId ds)"
      and dib: "distinct (lineageDeclIds fe (b # bs))"
      and disj: "\<forall>d \<in> set ds. declId d \<notin> set (lineageDeclIds fe (b # bs))"
      by (auto simp: lineageDeclIds_Cons[of fe a])
    from Cons.prems(3) have ab: "a \<notin> set (b # bs)" and db: "distinct (b # bs)" by simp_all
    have cb: "\<forall>c \<in> set (b # bs). untouched fe st c \<or> solved fe st c"
      using Cons.prems(5) by simp
    have parent: "\<exists>st1. (if symbolMetadata st b = None
                          then fetchSymbolMetadata_private k fe ents b st
                          else Some (Inr st)) = Some (Inr st1)
             \<and> solved fe st1 b
             \<and> (\<forall>c \<in> set bs. untouched fe st1 c \<or> solved fe st1 c)
             \<and> (\<forall>i. i \<notin> set (lineageDeclIds fe (b # bs))
                    \<longrightarrow> declarationMetadata st1 i = declarationMetadata st i
                        \<and> apiItemMetadata st1 i = apiItemMetadata st i)
             \<and> (\<forall>c. c \<notin> set (b # bs) \<longrightarrow> symbolMetadata st1 c = symbolMetadata st c)"
    proof (cases "symbolMetadata st b = None")
      case True
      from Cons.IH[OF lin plb db dib cb k] True show ?thesis by simp
    next
      case False
      with cb have "solved fe st b" by (auto simp: untouched_def)
      with False cb show ?thesis by auto
    qed
    then obtain st1 where
      ps: "(if symbolMetadata st b = None
            then fetchSymbolMetadata_private k fe ents b st
            else Some (Inr st)) = Some (Inr st1)" and
      sb: "solved fe st1 b" and
      cbs: "\<forall>c \<in> set bs. untouched fe st1 c \<or> solved fe st1 c" and
      fr1: "\<forall>i. i \<notin> set (lineageDeclIds fe (b # bs))
              \<longrightarrow> declarationMetadata st1 i = declarationMetadata st i
                  \<and> apiItemMetadata st1 i = apiItemMetadata st i" and
      sy1: "\<forall>c. c \<notin> set (b # bs) \<longrightarrow> symbolMetadata st1 c = symbolMetadata st c"
      by blast
    from un dof disj fr1 have un1: "\<forall>d \<in> set ds. declarationMetadata st1 (declId d) = None"
      by (simp add: untouched_def)
    from pin sb have pr: "\<forall>d \<in> set ds. parentResolved fe st1 d"
      by (auto intro: parentIn_resolved)
    from solveDeclarations_plain[OF l pl root di un1 pr, of k ents]
    obtain st' m where
      c: "thenDo (calculateDeclarationMetadataForDeclarations fe ds st1)
            (\<lambda>st2. thenDo (calculateApiItemMetadataForDeclarations k fe ents ds st2)
               (\<lambda>st3. setSymbolMetadata a ds st3)) = Some (Inr st')" and
      s: "symbolMetadata st' = (symbolMetadata st1)(a \<mapsto> m)" and
      all: "\<forall>d \<in> set ds. apiItemMetadata st' (declId d) \<noteq> None" and
      mono: "\<forall>i. apiItemMetadata st1 i \<noteq> None \<longrightarrow> apiItemMetadata st' i \<noteq> None" and
      fr: "\<forall>i. i \<notin> declId ` set ds
             \<longrightarrow> apiItemMetadata st' i = apiItemMetadata st1 i
                 \<and> declarationMetadata st' i = declarationMetadata st1 i"
      by blast
    have run: "fetchSymbolMetadata_private fuel fe ents a st = Some (Inr st')"
      using True l ps c by (simp add: fuel fetchSymbolMetadata_private.simps thenDo_def)
    have sa: "solved fe st' a" using s all dof by (simp add: solved_def)
    have keep: "untouched fe st' c \<or> solved fe st' c"
      if c: "c \<in> set (b # bs)" and h: "untouched fe st1 c \<or> solved fe st1 c" for c
    proof -
      from c ab have ca: "c \<noteq> a" by auto
      have ids: "declId d \<notin> declId ` set ds" if "d \<in> set (declarationsOf fe c)" for d
        using lineageDeclIds_member[OF c that] disj by auto
      from h show ?thesis
      proof
        assume "untouched fe st1 c"
        then have "untouched fe st' c"
          using s ca ids fr by (simp add: untouched_def)
        then show ?thesis by simp
      next
        assume "solved fe st1 c"
        then have "solved fe st' c"
          using s ca mono by (simp add: solved_def)
        then show ?thesis by simp
      qed
    qed
    have cs: "\<forall>c \<in> set (b # bs). untouched fe st' c \<or> solved fe st' c"
      using keep sb cbs by auto
    have frame: "\<forall>i. i \<notin> set (lineageDeclIds fe (a # b # bs))
                   \<longrightarrow> declarationMetadata st' i = declarationMetadata st i
                       \<and> apiItemMetadata st' i = apiItemMetadata st i"
      using fr fr1 dof by (simp add: lineageDeclIds_Cons[of fe a])
    have syms: "\<forall>c. c \<notin> set (a # b # bs) \<longrightarrow> symbolMetadata st' c = symbolMetadata st c"
      using s sy1 by simp
    from run sa cs frame syms show ?thesis by blast
  qed
qed

text \<open>
  The scenario of a property with one getter \<open>g\<close> and one setter \<open>t\<close>: the two are the
  declarations of the symbol \<open>s\<close> (in either order); the symbols \<open>as\<close> above \<open>s\<close> have no
  setters; the parent declaration of the getter is a declaration of the symbol above; a
  symbol occurs once and an identity denotes one declaration; nothing of \<open>s\<close> is computed
  yet, and each symbol above is solved or not touched yet.  The state of a new collector
  is such a state.
\<close>

definition accessorPair ::
  "FrontEnd \<Rightarrow> nat \<Rightarrow> AstDeclaration \<Rightarrow> AstDeclaration \<Rightarrow> nat list \<Rightarrow> MetadataState \<Rightarrow> bool" where
  "accessorPair fe s g t as st =
     ((case lookupEntity fe s of
         Some (AstSymbol n x p r ds) \<Rightarrow>
           (ds = [g, t] \<or> ds = [t, g])
           \<and> declKind g = GetAccessor \<and> declKind t = SetAccessor
           \<and> astSymbol g = s \<and> astSymbol t = s
           \<and> lookupEntity fe r \<noteq> None
       | _ \<Rightarrow> False)
      \<and> lineage fe s as \<and> plainLineage fe as \<and> parentIn fe as g
      \<and> distinct (s # as) \<and> distinct (lineageDeclIds fe (s # as))
      \<and> untouched fe st s
      \<and> (\<forall>b \<in> set as. untouched fe st b \<or> solved fe st b))"

lemma accessorPair_solved:
  assumes ap: "accessorPair fe s g t as st" and len: "length as \<le> k"
  shows "\<exists>st' ref. fetchSymbolMetadata_private (Suc k) fe ents s st = Some (Inr st')
           \<and> apiItemMetadata st' (declId g) = Some ref
           \<and> apiItemMetadata st' (declId t) = Some ref
           \<and> declarationMetadata st' (declId g)
               = Some (newInternalDeclarationMetadata
                         \<lparr>tsdocParserContext := declTsdoc g, ancillaryDeclarations := [declId t]\<rparr>)
           \<and> declarationMetadata st' (declId t)
               = Some (newInternalDeclarationMetadata
                         \<lparr>tsdocParserContext := declTsdoc t, isAncillary := True\<rparr>)"
proof -
  from ap obtain n x p r ds where
    l: "lookupEntity fe s = Some (AstSymbol n x p r ds)" and
    o: "ds = [g, t] \<or> ds = [t, g]" and
    k: "declKind g = GetAccessor" "declKind t = SetAccessor" and
    y: "astSymbol g = s" "astSymbol t = s" and
    root: "lookupEntity fe r \<noteq> None"
    by (auto simp: accessorPair_def split: option.splits AstEntity.splits)
  from ap have lin: "lineage fe s as" and pla: "plainLineage fe as"
    and pin: "parentIn fe as g" and dis: "distinct (s # as)"
    and did: "distinct (lineageDeclIds fe (s # as))"
    and un: "untouched fe st s"
    and co: "\<forall>b \<in> set as. untouched fe st b \<or> solved fe st b"
    by (simp_all add: accessorPair_def)
  from l have dof: "declarationsOf fe s = ds" by (simp add: declarationsOf_def)
  from o have gt: "g \<in> set ds" "t \<in> set ds" by auto
  from did dof o have ne: "declId g \<noteq> declId t"
    by (auto simp: lineageDeclIds_Cons[of fe s])
  from did dof gt have out: "declId g \<notin> set (lineageDeclIds fe as)"
    "declId t \<notin> set (lineageDeclIds fe as)"
    by (auto simp: lineageDeclIds_Cons[of fe s])
  from un dof gt have sm: "symbolMetadata st s = None"
    and f: "declarationMetadata st (declId g) = None" "declarationMetadata st (declId t) = None"
           "apiItemMetadata st (declId g) = None" "apiItemMetadata st (declId t) = None"
    by (simp_all add: untouched_def)
  let ?rest = "\<lambda>st1. thenDo (calculateDeclarationMetadataForDeclarations fe ds st1)
                 (\<lambda>st2. thenDo (calculateApiItemMetadataForDeclarations k fe ents ds st2)
                    (\<lambda>st3. setSymbolMetadata s ds st3))"
  have "\<exists>st1. fetchSymbolMetadata_private (Suc k) fe ents s st
                = fetchSymbolMetadata_private (Suc k) fe ents s st1
             \<and> accessorsReady fe s g t st1"
  proof (cases as)
    case Nil
    with lin l have p: "p = None" by simp
    from pin Nil have "parentResolved fe st g" by (auto intro: parentIn_resolved)
    with l o k y ne sm f p root have "accessorsReady fe s g t st"
      by (simp add: accessorsReady_def)
    then show ?thesis by blast
  next
    case (Cons b bs)
    with lin l have p: "p = Some b" and linb: "lineage fe b bs" by simp_all
    from pla Cons have plb: "plainLineage fe (b # bs)" by simp
    from dis Cons have sb: "s \<notin> set (b # bs)" and db: "distinct (b # bs)" by simp_all
    from did Cons have dib: "distinct (lineageDeclIds fe (b # bs))"
      by (simp add: lineageDeclIds_Cons[of fe s])
    from co Cons have cb: "\<forall>c \<in> set (b # bs). untouched fe st c \<or> solved fe st c" by simp
    from len Cons have kb: "length bs < k" by simp
    have "\<exists>st1. (if symbolMetadata st b = None
                  then fetchSymbolMetadata_private k fe ents b st
                  else Some (Inr st)) = Some (Inr st1)
             \<and> solved fe st1 b
             \<and> (\<forall>i. i \<notin> set (lineageDeclIds fe (b # bs))
                    \<longrightarrow> declarationMetadata st1 i = declarationMetadata st i
                        \<and> apiItemMetadata st1 i = apiItemMetadata st i)
             \<and> (\<forall>c. c \<notin> set (b # bs) \<longrightarrow> symbolMetadata st1 c = symbolMetadata st c)"
    proof (cases "symbolMetadata st b = None")
      case True
      from solve_lineage[OF linb plb db dib cb kb, of ents] True show ?thesis by auto
    next
      case False
      with cb have "solved fe st b" by (auto simp: untouched_def)
      with False show ?thesis by auto
    qed
    then obtain st1 where
      ps: "(if symbolMetadata st b = None
            then fetchSymbolMetadata_private k fe ents b st
            else Some (Inr st)) = Some (Inr st1)" and
      solb: "solved fe st1 b" and
      fr1: "\<forall>i. i \<notin> set (lineageDeclIds fe (b # bs))
              \<longrightarrow> declarationMetadata st1 i = declarationMetadata st i
                  \<and> apiItemMetadata st1 i = apiItemMetadata st i" and
      sy1: "\<forall>c. c \<notin> set (b # bs) \<longrightarrow> symbolMetadata st1 c = symbolMetadata st c"
      by blast
    from sy1 sb sm have sm1: "symbolMetadata st1 s = None" by simp
    from solb have pb1: "symbolMetadata st1 b \<noteq> None" by (simp add: solved_def)
    from fr1 out f Cons have f1:
      "declarationMetadata st1 (declId g) = None" "declarationMetadata st1 (declId t) = None"
      "apiItemMetadata st1 (declId g) = None" "apiItemMetadata st1 (declId t) = None"
      by simp_all
    from pin solb Cons have pr1: "parentResolved fe st1 g"
      by (auto intro: parentIn_resolved)
    from l o k y ne sm1 f1 p pb1 pr1 root have rdy: "accessorsReady fe s g t st1"
      by (simp add: accessorsReady_def)
    have L: "fetchSymbolMetadata_private (Suc k) fe ents s st = ?rest st1"
      using sm l p ps by (simp add: fetchSymbolMetadata_private.simps[of "Suc k"] thenDo_def)
    have R: "fetchSymbolMetadata_private (Suc k) fe ents s st1 = ?rest st1"
      using sm1 l p pb1
      by (auto simp: fetchSymbolMetadata_private.simps[of "Suc k"] thenDo_def)
    from L R have "fetchSymbolMetadata_private (Suc k) fe ents s st
                    = fetchSymbolMetadata_private (Suc k) fe ents s st1"
      by simp
    with rdy show ?thesis by blast
  qed
  then obtain st1 where
    e: "fetchSymbolMetadata_private (Suc k) fe ents s st
          = fetchSymbolMetadata_private (Suc k) fe ents s st1" and
    rdy: "accessorsReady fe s g t st1"
    by blast
  from accessorsReady_fetchSymbolMetadata[OF rdy, of k ents] e show ?thesis by simp
qed

text \<open>
  C5.  For a property with a getter and a setter (the scenario \<open>accessorPair\<close>, with
  enough fuel for the symbols above the property): fetching the metadata of the setter
  or of the getter, whichever comes first, solves the symbol, links the setter as
  ancillary to the getter, and returns one and the same object (the same address) in the
  same state; later fetches of either return that object again; and
  \<open>getNonAncillaryDeclarations\<close> returns only the getter, before anything of the symbol is
  computed as well as afterwards.  And on every declaration, \<open>isAncillary\<close> and a non-empty
  list of ancillary declarations exclude each other: the invariant that only setters are
  ancillary and only getters have ancillary declarations holds in every state the
  propagator reaches from a state where it holds (such as the initial one), when an
  identity denotes one declaration.
\<close>

theorem accessor_pair_shares_metadata:
  "(accessorPair fe s g t as st \<and> length as \<le> k \<longrightarrow>
      (\<exists>st' ref.
         fetchApiItemMetadata (Suc k) fe ents t st = Some (Inr (Some ref, st'))
         \<and> fetchApiItemMetadata (Suc k) fe ents g st = Some (Inr (Some ref, st'))
         \<and> fetchApiItemMetadata (Suc k) fe ents g st' = Some (Inr (Some ref, st'))
         \<and> fetchApiItemMetadata (Suc k) fe ents t st' = Some (Inr (Some ref, st'))
         \<and> (\<exists>mdT. declarationMetadata st' (declId t) = Some mdT \<and> isAncillary mdT
                \<and> ancillaryDeclarations mdT = [])
         \<and> (\<exists>mdG. declarationMetadata st' (declId g) = Some mdG \<and> \<not> isAncillary mdG
                \<and> ancillaryDeclarations mdG = [declId t])
         \<and> getNonAncillaryDeclarations (Suc k) fe ents (declarationsOf fe s) st
             = Some (Inr ([g], st'))
         \<and> getNonAncillaryDeclarations (Suc k) fe ents (declarationsOf fe s) st'
             = Some (Inr ([g], st'))))
   \<and> (uniqueDeclarationIds fe \<and> ancillaryInvariant fe before
        \<and> fetchSymbolMetadata_private fuel fe ents symb before = Some (Inr after)
        \<longrightarrow> ancillaryInvariant fe after \<and> ancillaryExclusive after)"
proof (intro conjI impI)
  assume h: "accessorPair fe s g t as st \<and> length as \<le> k"
  then have ap: "accessorPair fe s g t as st" and len: "length as \<le> k" by simp_all
  let ?mg = "newInternalDeclarationMetadata
               \<lparr>tsdocParserContext := declTsdoc g, ancillaryDeclarations := [declId t]\<rparr>"
  let ?mt = "newInternalDeclarationMetadata
               \<lparr>tsdocParserContext := declTsdoc t, isAncillary := True\<rparr>"
  from ap obtain n x p r ds where
    l: "lookupEntity fe s = Some (AstSymbol n x p r ds)" and
    o: "ds = [g, t] \<or> ds = [t, g]" and
    y: "astSymbol g = s" "astSymbol t = s"
    by (auto simp: accessorPair_def split: option.splits AstEntity.splits)
  from l have dof: "declarationsOf fe s = ds" by (simp add: declarationsOf_def)
  from ap dof o have f: "apiItemMetadata st (declId t) = None"
    "apiItemMetadata st (declId g) = None"
    "declarationMetadata st (declId t) = None" "declarationMetadata st (declId g) = None"
    by (auto simp: accessorPair_def untouched_def)
  from accessorPair_solved[OF ap len, of ents]
  obtain st' ref where
    c: "fetchSymbolMetadata_private (Suc k) fe ents s st = Some (Inr st')" and
    ag: "apiItemMetadata st' (declId g) = Some ref" and
    at: "apiItemMetadata st' (declId t) = Some ref" and
    dg: "declarationMetadata st' (declId g) = Some ?mg" and
    dt: "declarationMetadata st' (declId t) = Some ?mt"
    by blast
  have nag: "\<not> isAncillary ?mg" "ancillaryDeclarations ?mg = [declId t]" "isAncillary ?mt"
    "ancillaryDeclarations ?mt = []"
    by (simp_all add: newInternalDeclarationMetadata_def)
  have 1: "fetchApiItemMetadata (Suc k) fe ents t st = Some (Inr (Some ref, st'))"
    using f y c at by (simp add: fetchApiItemMetadata.simps thenDo_def)
  have 2: "fetchApiItemMetadata (Suc k) fe ents g st = Some (Inr (Some ref, st'))"
    using f y c ag by (simp add: fetchApiItemMetadata.simps thenDo_def)
  have 3: "fetchApiItemMetadata (Suc k) fe ents g st' = Some (Inr (Some ref, st'))"
    using ag by (simp add: fetchApiItemMetadata.simps)
  have 4: "fetchApiItemMetadata (Suc k) fe ents t st' = Some (Inr (Some ref, st'))"
    using at by (simp add: fetchApiItemMetadata.simps)
  have 5: "getNonAncillaryDeclarations (Suc k) fe ents ds st = Some (Inr ([g], st'))"
    using o
  proof
    assume "ds = [g, t]"
    with f y c dg dt nag show ?thesis
      by (simp add: fetchDeclarationMetadata_def thenDo_def)
  next
    assume "ds = [t, g]"
    with f y c dg dt nag show ?thesis
      by (simp add: fetchDeclarationMetadata_def thenDo_def)
  qed
  have 6: "getNonAncillaryDeclarations (Suc k) fe ents ds st' = Some (Inr ([g], st'))"
    by (rule getNonAncillaryDeclarations_resolved[OF dg nag(1) dt nag(3) o])
  show "\<exists>st' ref.
         fetchApiItemMetadata (Suc k) fe ents t st = Some (Inr (Some ref, st'))
         \<and> fetchApiItemMetadata (Suc k) fe ents g st = Some (Inr (Some ref, st'))
         \<and> fetchApiItemMetadata (Suc k) fe ents g st' = Some (Inr (Some ref, st'))
         \<and> fetchApiItemMetadata (Suc k) fe ents t st' = Some (Inr (Some ref, st'))
         \<and> (\<exists>mdT. declarationMetadata st' (declId t) = Some mdT \<and> isAncillary mdT
                \<and> ancillaryDeclarations mdT = [])
         \<and> (\<exists>mdG. declarationMetadata st' (declId g) = Some mdG \<and> \<not> isAncillary mdG
                \<and> ancillaryDeclarations mdG = [declId t])
         \<and> getNonAncillaryDeclarations (Suc k) fe ents (declarationsOf fe s) st
             = Some (Inr ([g], st'))
         \<and> getNonAncillaryDeclarations (Suc k) fe ents (declarationsOf fe s) st'
             = Some (Inr ([g], st'))"
  proof (intro exI conjI)
    show "fetchApiItemMetadata (Suc k) fe ents t st = Some (Inr (Some ref, st'))" by (rule 1)
    show "fetchApiItemMetadata (Suc k) fe ents g st = Some (Inr (Some ref, st'))" by (rule 2)
    show "fetchApiItemMetadata (Suc k) fe ents g st' = Some (Inr (Some ref, st'))" by (rule 3)
    show "fetchApiItemMetadata (Suc k) fe ents t st' = Some (Inr (Some ref, st'))" by (rule 4)
    show "declarationMetadata st' (declId t) = Some ?mt" by (rule dt)
    show "isAncillary ?mt" by (rule nag(3))
    show "ancillaryDeclarations ?mt = []" by (rule nag(4))
    show "declarationMetadata st' (declId g) = Some ?mg" by (rule dg)
    show "\<not> isAncillary ?mg" by (rule nag(1))
    show "ancillaryDeclarations ?mg = [declId t]" by (rule nag(2))
    show "getNonAncillaryDeclarations (Suc k) fe ents (declarationsOf fe s) st
            = Some (Inr ([g], st'))"
      using 5 dof by simp
    show "getNonAncillaryDeclarations (Suc k) fe ents (declarationsOf fe s) st'
            = Some (Inr ([g], st'))"
      using 6 dof by simp
  qed
next
  assume a: "uniqueDeclarationIds fe \<and> ancillaryInvariant fe before
             \<and> fetchSymbolMetadata_private fuel fe ents symb before = Some (Inr after)"
  then show "ancillaryInvariant fe after"
    using fetchSymbolMetadata_private_invariant by blast
  then show "ancillaryExclusive after" by (rule ancillaryInvariant_exclusive)
qed

text \<open>A class \<open>Box\<close> with a property \<open>size\<close> that has a getter and a setter.\<close>

definition getterOfSize :: AstDeclaration where
  "getterOfSize =
     AstDeclaration 20 GetAccessor [] 2 (Some 10) (Some (noTags\<lparr>isPublic := True\<rparr>)) [] []"

definition setterOfSize :: AstDeclaration where
  "setterOfSize = AstDeclaration 21 SetAccessor [] 2 (Some 10) None [] []"

definition classBox :: AstDeclaration where
  "classBox =
     AstDeclaration 10 ClassDeclaration [] 1 None (Some (noTags\<lparr>isPublic := True\<rparr>)) []
       [getterOfSize, setterOfSize]"

definition propertyWithAccessors :: FrontEnd where
  "propertyWithAccessors =
     \<lparr> astEntities = [(1, AstSymbol ''Box'' False None 1 [classBox]),
                      (2, AstSymbol ''size'' False (Some 1) 1 [getterOfSize, setterOfSize])],
       exportedLocalEntities = [(''Box'', 1)], globalNames = [],
       preapprovedTagDefined = False, includeForgottenExports = False \<rparr>"

lemma propertyWithAccessors_scenario:
  "accessorPair propertyWithAccessors 2 getterOfSize setterOfSize [1] newMetadataState"
  by (simp add: accessorPair_def lookupEntity_def propertyWithAccessors_def
        plainSymbol_def parentIn_def lookupDeclaration_def allDeclarations_def
        declarationsOf_def lineageDeclIds_def untouched_def
        getterOfSize_def setterOfSize_def classBox_def newMetadataState_def)

theorem accessor_pair_shares_metadata_witness:
  "accessorPair propertyWithAccessors 2 getterOfSize setterOfSize [1] newMetadataState
   \<and> length [1::nat] \<le> 1
   \<and> declarationsOf propertyWithAccessors 2 = [getterOfSize, setterOfSize]
   \<and> (\<exists>st' ref.
         fetchApiItemMetadata 2 propertyWithAccessors [] setterOfSize newMetadataState
           = Some (Inr (Some ref, st'))
         \<and> fetchApiItemMetadata 2 propertyWithAccessors [] getterOfSize newMetadataState
             = Some (Inr (Some ref, st'))
         \<and> fetchApiItemMetadata 2 propertyWithAccessors [] getterOfSize st'
             = Some (Inr (Some ref, st'))
         \<and> getNonAncillaryDeclarations 2 propertyWithAccessors []
               [getterOfSize, setterOfSize] newMetadataState
             = Some (Inr ([getterOfSize], st')))
   \<and> uniqueDeclarationIds propertyWithAccessors
   \<and> ancillaryInvariant propertyWithAccessors newMetadataState
   \<and> (\<exists>st1. fetchSymbolMetadata_private 2 propertyWithAccessors [] 2 newMetadataState
               = Some (Inr st1)
            \<and> ancillaryExclusive st1)"
proof -
  let ?fe = propertyWithAccessors
  note ap = propertyWithAccessors_scenario
  have dof: "declarationsOf ?fe 2 = [getterOfSize, setterOfSize]"
    by (simp add: declarationsOf_def lookupEntity_def propertyWithAccessors_def)
  have u: "uniqueDeclarationIds ?fe"
    by (simp add: uniqueDeclarationIds_def allDeclarations_def propertyWithAccessors_def
          getterOfSize_def setterOfSize_def classBox_def)
  have i: "ancillaryInvariant ?fe newMetadataState"
    by (simp add: ancillaryInvariant_def newMetadataState_def)
  from accessorPair_solved[OF ap, of 1 "[]"]
  obtain st1 where
    f: "fetchSymbolMetadata_private 2 ?fe [] 2 newMetadataState = Some (Inr st1)"
    by (auto simp: numeral_2_eq_2)
  note inst = accessor_pair_shares_metadata
               [where fe = ?fe and s = 2 and g = getterOfSize and t = setterOfSize
                  and as = "[1]" and st = newMetadataState and k = 1 and ents = "[]"
                  and before = newMetadataState and fuel = 2 and symb = 2 and after = st1]
  from inst ap dof have a: "\<exists>st' ref.
         fetchApiItemMetadata 2 ?fe [] setterOfSize newMetadataState
           = Some (Inr (Some ref, st'))
         \<and> fetchApiItemMetadata 2 ?fe [] getterOfSize newMetadataState
             = Some (Inr (Some ref, st'))
         \<and> fetchApiItemMetadata 2 ?fe [] getterOfSize st' = Some (Inr (Some ref, st'))
         \<and> getNonAncillaryDeclarations 2 ?fe [] [getterOfSize, setterOfSize] newMetadataState
             = Some (Inr ([getterOfSize], st'))"
    by (simp only: numeral_2_eq_2 One_nat_def) (simp, blast)
  from inst u i f have "ancillaryExclusive st1" by blast
  with ap dof a u i f show ?thesis by auto
qed

section \<open>Properties of the name assigner\<close>

lemma chooseUniqueName_free:
  "\<not> nameTaken fe usedNames (chooseUniqueName fe usedNames ideal suffix candidate)"
proof (induction fe usedNames ideal suffix candidate rule: chooseUniqueName.induct)
  case (1 fe usedNames ideal suffix candidate)
  then show ?case by (subst chooseUniqueName.simps) simp
qed

lemma chooseUniqueName_first:
  "\<not> nameTaken fe usedNames candidate
     \<Longrightarrow> chooseUniqueName fe usedNames ideal suffix candidate = candidate"
  by (subst chooseUniqueName.simps) simp

lemma collectExportNames_result:
  "collectExportNames ns u = Inr u' \<Longrightarrow> u' = u @ ns \<and> (distinct u \<longrightarrow> distinct u')"
proof (induction ns arbitrary: u)
  case Nil
  then show ?case by simp
next
  case (Cons a ns)
  from Cons.prems have na: "a \<notin> set u" and r: "collectExportNames ns (u @ [a]) = Inr u'"
    by (auto split: if_splits)
  from Cons.IH[OF r] have e: "u' = (u @ [a]) @ ns"
    and d: "distinct (u @ [a]) \<longrightarrow> distinct u'" by blast+
  from e have "u' = u @ a # ns" by simp
  moreover from d na have "distinct u \<longrightarrow> distinct u'" by simp
  ultimately show ?case by blast
qed

lemma collectAllExportNames_result:
  "collectAllExportNames es u = Inr u'
     \<Longrightarrow> u' = u @ concat (map exportNames es) \<and> (distinct u \<longrightarrow> distinct u')"
proof (induction es arbitrary: u)
  case Nil
  then show ?case by simp
next
  case (Cons e es)
  from Cons.prems obtain u1 where
    a: "collectExportNames (exportNames e) u = Inr u1" and
    b: "collectAllExportNames es u1 = Inr u'"
    by (auto split: sum.splits)
  from collectExportNames_result[OF a] have
    a1: "u1 = u @ exportNames e" and a2: "distinct u \<longrightarrow> distinct u1" by blast+
  from Cons.IH[OF b] have
    b1: "u' = u1 @ concat (map exportNames es)" and b2: "distinct u1 \<longrightarrow> distinct u'"
    by blast+
  from a1 b1 have "u' = u @ concat (map exportNames (e # es))" by simp
  moreover from a2 b2 have "distinct u \<longrightarrow> distinct u'" by blast
  ultimately show ?case by blast
qed

text \<open>What the second loop does to one node.\<close>

definition namedAs :: "FrontEnd \<Rightarrow> CollectorEntity \<Rightarrow> CollectorEntity \<Rightarrow> bool" where
  "namedAs fe e e' =
     (nameForEmit e' \<noteq> None \<and> e' = e\<lparr>nameForEmit := nameForEmit e'\<rparr>
      \<and> (\<forall>n. exportNames e = [n] \<and> n \<noteq> ''default'' \<and> CHR ''.'' \<notin> set n
               \<and> \<not> hasGlobalName fe n \<longrightarrow> nameForEmit e' = Some n))"

lemma idealNameForEmit_single:
  "exportNames e = [n] \<Longrightarrow> n \<noteq> ''default'' \<Longrightarrow> CHR ''.'' \<notin> set n
     \<Longrightarrow> idealNameForEmit e local = n"
  by (simp add: idealNameForEmit_def singleExportName_def)

lemma assignNames_namedAs:
  "assignNames fe es usedNames = Some es' \<Longrightarrow> list_all2 (namedAs fe) es es'"
proof (induction es arbitrary: usedNames es')
  case Nil
  then show ?case by simp
next
  case (Cons e es)
  from Cons.prems obtain a where l: "lookupEntity fe (astEntity e) = Some a"
    by (auto split: option.splits)
  let ?ideal = "idealNameForEmit e (localName a)"
  show ?case
  proof (cases "?ideal \<in> set (exportNames e) \<and> \<not> hasGlobalName fe ?ideal
                 \<and> ?ideal \<noteq> ''default''")
    case True
    with Cons.prems l obtain rest where
      r: "assignNames fe es usedNames = Some rest" and
      e: "es' = e\<lparr>nameForEmit := Some ?ideal\<rparr> # rest"
      by (auto simp: Let_def)
    have "namedAs fe e (e\<lparr>nameForEmit := Some ?ideal\<rparr>)"
      by (auto simp: namedAs_def idealNameForEmit_single)
    with Cons.IH[OF r] e show ?thesis by simp
  next
    case False
    let ?n = "chooseUniqueName fe usedNames ?ideal 1 ?ideal"
    from False Cons.prems l obtain rest where
      r: "assignNames fe es (usedNames @ [?n]) = Some rest" and
      e: "es' = e\<lparr>nameForEmit := Some ?n\<rparr> # rest"
      by (auto simp: Let_def)
    have "namedAs fe e (e\<lparr>nameForEmit := Some ?n\<rparr>)"
      using False by (auto simp: namedAs_def idealNameForEmit_single)
    with Cons.IH[OF r] e show ?thesis by simp
  qed
qed

lemma assignNames_distinct:
  "assignNames fe es usedNames = Some es'
     \<Longrightarrow> \<forall>e \<in> set es. set (exportNames e) \<subseteq> set usedNames
     \<Longrightarrow> distinct (concat (map exportNames es))
     \<Longrightarrow> distinct (map nameForEmit es')
         \<and> (\<forall>e' \<in> set es'. \<forall>n. nameForEmit e' = Some n \<and> n \<in> set usedNames
               \<longrightarrow> n \<in> set (concat (map exportNames es)))"
proof (induction es arbitrary: usedNames es')
  case Nil
  then show ?case by simp
next
  case (Cons e es)
  from Cons.prems(1) obtain a where l: "lookupEntity fe (astEntity e) = Some a"
    by (auto split: option.splits)
  let ?ideal = "idealNameForEmit e (localName a)"
  from Cons.prems(3) have drest: "distinct (concat (map exportNames es))"
    and disj: "set (exportNames e) \<inter> set (concat (map exportNames es)) = {}"
    by auto
  from assignNames_namedAs[OF Cons.prems(1)] have some: "\<forall>e' \<in> set es'. nameForEmit e' \<noteq> None"
    by (auto simp: list_all2_conv_all_nth namedAs_def in_set_conv_nth)
  show ?case
  proof (cases "?ideal \<in> set (exportNames e) \<and> \<not> hasGlobalName fe ?ideal
                 \<and> ?ideal \<noteq> ''default''")
    case True
    with Cons.prems(1) l obtain rest where
      r: "assignNames fe es usedNames = Some rest" and
      e: "es' = e\<lparr>nameForEmit := Some ?ideal\<rparr> # rest"
      by (auto simp: Let_def)
    from Cons.prems(2) have sub: "\<forall>e \<in> set es. set (exportNames e) \<subseteq> set usedNames" by simp
    from Cons.IH[OF r sub drest] have
      d: "distinct (map nameForEmit rest)" and
      u: "\<forall>e' \<in> set rest. \<forall>n. nameForEmit e' = Some n \<and> n \<in> set usedNames
            \<longrightarrow> n \<in> set (concat (map exportNames es))"
      by blast+
    from True Cons.prems(2) have iu: "?ideal \<in> set usedNames" by auto
    have "Some ?ideal \<notin> set (map nameForEmit rest)"
    proof
      assume "Some ?ideal \<in> set (map nameForEmit rest)"
      then obtain e' where "e' \<in> set rest" "nameForEmit e' = Some ?ideal" by auto
      with u iu have "?ideal \<in> set (concat (map exportNames es))" by blast
      with True disj show False by blast
    qed
    with d e u True show ?thesis by auto
  next
    case False
    let ?n = "chooseUniqueName fe usedNames ?ideal 1 ?ideal"
    from False Cons.prems(1) l obtain rest where
      r: "assignNames fe es (usedNames @ [?n]) = Some rest" and
      e: "es' = e\<lparr>nameForEmit := Some ?n\<rparr> # rest"
      by (auto simp: Let_def)
    from Cons.prems(2) have sub0: "\<forall>e \<in> set es. set (exportNames e) \<subseteq> set usedNames" by simp
    then have sub: "\<forall>e \<in> set es. set (exportNames e) \<subseteq> set (usedNames @ [?n])" by auto
    from Cons.IH[OF r sub drest] have
      d: "distinct (map nameForEmit rest)" and
      u: "\<forall>e' \<in> set rest. \<forall>n. nameForEmit e' = Some n \<and> n \<in> set (usedNames @ [?n])
            \<longrightarrow> n \<in> set (concat (map exportNames es))"
      by blast+
    have free: "?n \<notin> set usedNames"
      using chooseUniqueName_free[of fe usedNames ?ideal 1 ?ideal]
      by (simp add: nameTaken_def)
    have "Some ?n \<notin> set (map nameForEmit rest)"
    proof
      assume "Some ?n \<in> set (map nameForEmit rest)"
      then obtain e' where "e' \<in> set rest" "nameForEmit e' = Some ?n" by auto
      with u have "?n \<in> set (concat (map exportNames es))" by auto
      with sub0 have "?n \<in> set usedNames" by auto
      with free show False by simp
    qed
    with d e u free show ?thesis by auto
  qed
qed

lemma list_all2_namedAs_maps:
  "list_all2 (namedAs fe) es es'
     \<Longrightarrow> map astEntity es' = map astEntity es \<and> map exportNames es' = map exportNames es"
proof (induction rule: list_all2_induct)
  case Nil
  then show ?case by simp
next
  case (Cons e es e' es')
  from Cons.hyps(1) have "astEntity e' = astEntity e" "exportNames e' = exportNames e"
    unfolding namedAs_def by (metis CollectorEntity.simps(6,7) CollectorEntity.select_convs(1,2)
      CollectorEntity.surjective CollectorEntity.update_convs(4))+
  with Cons.IH show ?case by simp
qed

lemma makeUniqueNames_result:
  assumes "makeUniqueNames fe ents = Some (Inr ents')"
  shows "distinct (map nameForEmit ents')" and "list_all2 (namedAs fe) ents ents'"
proof -
  from assms obtain usedNames where
    c: "collectAllExportNames ents [] = Inr usedNames" and
    a: "assignNames fe ents usedNames = Some ents'"
    by (auto simp: makeUniqueNames_def split: sum.splits)
  from collectAllExportNames_result[OF c] have
    u: "usedNames = concat (map exportNames ents)" and d: "distinct usedNames" by auto
  have "\<forall>e \<in> set ents. set (exportNames e) \<subseteq> set usedNames" using u by auto
  from assignNames_distinct[OF a this] d u show "distinct (map nameForEmit ents')" by simp
  from assignNames_namedAs[OF a] show "list_all2 (namedAs fe) ents ents'" .
qed

lemma assignNames_ideal:
  assumes "assignNames fe es usedNames = Some es'"
    and "i < length es"
    and "lookupEntity fe (astEntity (es ! i)) = Some a"
    and "\<not> nameTaken fe usedNames (idealNameForEmit (es ! i) (localName a))"
    and "\<forall>j < i. nameForEmit (es' ! j) \<noteq> Some (idealNameForEmit (es ! i) (localName a))"
  shows "nameForEmit (es' ! i) = Some (idealNameForEmit (es ! i) (localName a))"
  using assms
proof (induction es arbitrary: usedNames es' i)
  case Nil
  then show ?case by simp
next
  case (Cons entity es)
  from Cons.prems(1) obtain b where b: "lookupEntity fe (astEntity entity) = Some b"
    by (auto split: option.splits)
  let ?ideal = "idealNameForEmit entity (localName b)"
  let ?n = "chooseUniqueName fe usedNames ?ideal 1 ?ideal"
  let ?fast = "?ideal \<in> set (exportNames entity) \<and> \<not> hasGlobalName fe ?ideal
               \<and> ?ideal \<noteq> ''default''"
  show ?case
  proof (cases ?fast)
    case True
    with Cons.prems(1) b obtain rest where
      rest: "assignNames fe es usedNames = Some rest"
      and es': "es' = entity\<lparr>nameForEmit := Some ?ideal\<rparr> # rest"
      by (auto simp: Let_def)
    show ?thesis
    proof (cases i)
      case 0
      with Cons.prems(3) b es' show ?thesis by simp
    next
      case (Suc k)
      have "nameForEmit (rest ! k) = Some (idealNameForEmit (es ! k) (localName a))"
      proof (rule Cons.IH[OF rest])
        show "k < length es" using Cons.prems(2) Suc by simp
        show "lookupEntity fe (astEntity (es ! k)) = Some a" using Cons.prems(3) Suc by simp
        show "\<not> nameTaken fe usedNames (idealNameForEmit (es ! k) (localName a))"
          using Cons.prems(4) Suc by simp
        show "\<forall>j < k. nameForEmit (rest ! j) \<noteq> Some (idealNameForEmit (es ! k) (localName a))"
        proof (intro allI impI)
          fix j assume "j < k"
          then have "Suc j < i" using Suc by simp
          with Cons.prems(5) have
            "nameForEmit (es' ! Suc j) \<noteq> Some (idealNameForEmit ((entity # es) ! i) (localName a))"
            by blast
          then show "nameForEmit (rest ! j) \<noteq> Some (idealNameForEmit (es ! k) (localName a))"
            using es' Suc by simp
        qed
      qed
      with es' Suc show ?thesis by simp
    qed
  next
    case False
    with Cons.prems(1) b obtain rest where
      rest: "assignNames fe es (usedNames @ [?n]) = Some rest"
      and es': "es' = entity\<lparr>nameForEmit := Some ?n\<rparr> # rest"
      by (auto simp: Let_def)
    show ?thesis
    proof (cases i)
      case 0
      with Cons.prems(3) b have ab: "a = b" by simp
      from Cons.prems(4) 0 ab have "\<not> nameTaken fe usedNames ?ideal" by simp
      then have "?n = ?ideal" by (rule chooseUniqueName_first)
      with 0 es' ab show ?thesis by simp
    next
      case (Suc k)
      from Cons.prems(5) Suc have
        "nameForEmit (es' ! 0) \<noteq> Some (idealNameForEmit ((entity # es) ! i) (localName a))"
        by blast
      then have ne: "?n \<noteq> idealNameForEmit (es ! k) (localName a)"
        using es' Suc by simp
      have "nameForEmit (rest ! k) = Some (idealNameForEmit (es ! k) (localName a))"
      proof (rule Cons.IH[OF rest])
        show "k < length es" using Cons.prems(2) Suc by simp
        show "lookupEntity fe (astEntity (es ! k)) = Some a" using Cons.prems(3) Suc by simp
        show "\<not> nameTaken fe (usedNames @ [?n]) (idealNameForEmit (es ! k) (localName a))"
          using Cons.prems(4) Suc ne by (auto simp: nameTaken_def)
        show "\<forall>j < k. nameForEmit (rest ! j) \<noteq> Some (idealNameForEmit (es ! k) (localName a))"
        proof (intro allI impI)
          fix j assume "j < k"
          then have "Suc j < i" using Suc by simp
          with Cons.prems(5) have
            "nameForEmit (es' ! Suc j) \<noteq> Some (idealNameForEmit ((entity # es) ! i) (localName a))"
            by blast
          then show "nameForEmit (rest ! j) \<noteq> Some (idealNameForEmit (es ! k) (localName a))"
            using es' Suc by simp
        qed
      qed
      with es' Suc show ?thesis by simp
    qed
  qed
qed

lemma suffixed_not_ideal: "suffixed ideal k \<noteq> ideal"
  by (simp add: suffixed_def)

lemma chooseUniqueName_cases:
  "chooseUniqueName fe usedNames ideal suffix candidate = candidate
   \<or> (\<exists>k > suffix. chooseUniqueName fe usedNames ideal suffix candidate = suffixed ideal k)"
proof (induction fe usedNames ideal suffix candidate rule: chooseUniqueName.induct)
  case (1 fe usedNames ideal suffix candidate)
  show ?case
  proof (cases "nameTaken fe usedNames candidate")
    case True
    then have e: "chooseUniqueName fe usedNames ideal suffix candidate
          = chooseUniqueName fe usedNames ideal (Suc suffix) (suffixed ideal (Suc suffix))"
      by (subst chooseUniqueName.simps) simp
    from 1[OF True] show ?thesis
      unfolding e using Suc_lessD lessI by blast
  next
    case False
    then show ?thesis by (simp add: chooseUniqueName_first)
  qed
qed

lemma chooseUniqueName_taken:
  assumes "nameTaken fe usedNames ideal"
  shows "\<exists>k \<ge> 2. chooseUniqueName fe usedNames ideal 1 ideal = suffixed ideal k"
proof -
  from chooseUniqueName_free[of fe usedNames ideal 1 ideal] assms
  have "chooseUniqueName fe usedNames ideal 1 ideal \<noteq> ideal" by auto
  with chooseUniqueName_cases[of fe usedNames ideal 1 ideal]
  obtain k where "k > 1" "chooseUniqueName fe usedNames ideal 1 ideal = suffixed ideal k"
    by blast
  then show ?thesis by (intro exI[of _ k]) simp
qed

lemma assignNames_suffixed:
  assumes "assignNames fe es usedNames = Some es'"
    and "i < length es"
    and "lookupEntity fe (astEntity (es ! i)) = Some a"
    and "\<forall>e \<in> set es. set (exportNames e) \<subseteq> set usedNames"
    and "\<not> (idealNameForEmit (es ! i) (localName a) \<in> set (exportNames (es ! i))
            \<and> \<not> hasGlobalName fe (idealNameForEmit (es ! i) (localName a))
            \<and> idealNameForEmit (es ! i) (localName a) \<noteq> ''default'')"
    and "nameTaken fe usedNames (idealNameForEmit (es ! i) (localName a))
         \<or> (\<exists>j < i. nameForEmit (es' ! j) = Some (idealNameForEmit (es ! i) (localName a)))"
  shows "\<exists>k \<ge> 2. nameForEmit (es' ! i)
                    = Some (suffixed (idealNameForEmit (es ! i) (localName a)) k)"
  using assms
proof (induction es arbitrary: usedNames es' i)
  case Nil
  then show ?case by simp
next
  case (Cons entity es)
  from Cons.prems(1) obtain b where b: "lookupEntity fe (astEntity entity) = Some b"
    by (auto split: option.splits)
  let ?ideal = "idealNameForEmit entity (localName b)"
  let ?n = "chooseUniqueName fe usedNames ?ideal 1 ?ideal"
  let ?fast = "?ideal \<in> set (exportNames entity) \<and> \<not> hasGlobalName fe ?ideal
               \<and> ?ideal \<noteq> ''default''"
  let ?I = "idealNameForEmit ((entity # es) ! i) (localName a)"
  show ?case
  proof (cases i)
    case 0
    with Cons.prems(3) b have ab: "a = b" by simp
    from Cons.prems(5) 0 ab have nf: "\<not> ?fast" by simp
    from Cons.prems(6) 0 ab have tk: "nameTaken fe usedNames ?ideal" by simp
    from nf Cons.prems(1) b obtain rest where
      es': "es' = entity\<lparr>nameForEmit := Some ?n\<rparr> # rest"
      by (auto simp: Let_def)
    from chooseUniqueName_taken[OF tk] es' 0 ab show ?thesis by simp
  next
    case (Suc k)
    then have I: "?I = idealNameForEmit (es ! k) (localName a)" by simp
    show ?thesis
    proof (cases ?fast)
      case True
      with Cons.prems(1) b obtain rest where
        rest: "assignNames fe es usedNames = Some rest"
        and es': "es' = entity\<lparr>nameForEmit := Some ?ideal\<rparr> # rest"
        by (auto simp: Let_def)
      have tk: "nameTaken fe usedNames ?I \<or> (\<exists>j < k. nameForEmit (rest ! j) = Some ?I)"
      proof -
        from Cons.prems(6) consider "nameTaken fe usedNames ?I"
          | j where "j < i" "nameForEmit (es' ! j) = Some ?I" by blast
        then show ?thesis
        proof cases
          case 1
          then show ?thesis by simp
        next
          case 2
          show ?thesis
          proof (cases j)
            case 0
            with 2 es' have "?ideal = ?I" by simp
            with True Cons.prems(4) have "?I \<in> set usedNames" by auto
            then show ?thesis by (simp add: nameTaken_def)
          next
            case (Suc j')
            with 2 es' \<open>i = Suc k\<close> show ?thesis by auto
          qed
        qed
      qed
      have "\<exists>m \<ge> 2. nameForEmit (rest ! k)
               = Some (suffixed (idealNameForEmit (es ! k) (localName a)) m)"
      proof (rule Cons.IH[OF rest])
        show "k < length es" using Cons.prems(2) Suc by simp
        show "lookupEntity fe (astEntity (es ! k)) = Some a" using Cons.prems(3) Suc by simp
        show "\<forall>e \<in> set es. set (exportNames e) \<subseteq> set usedNames" using Cons.prems(4) by simp
        show "\<not> (idealNameForEmit (es ! k) (localName a) \<in> set (exportNames (es ! k))
                 \<and> \<not> hasGlobalName fe (idealNameForEmit (es ! k) (localName a))
                 \<and> idealNameForEmit (es ! k) (localName a) \<noteq> ''default'')"
          using Cons.prems(5) Suc by simp
        show "nameTaken fe usedNames (idealNameForEmit (es ! k) (localName a))
              \<or> (\<exists>j < k. nameForEmit (rest ! j)
                             = Some (idealNameForEmit (es ! k) (localName a)))"
          using tk I by simp
      qed
      with es' Suc show ?thesis by simp
    next
      case False
      with Cons.prems(1) b obtain rest where
        rest: "assignNames fe es (usedNames @ [?n]) = Some rest"
        and es': "es' = entity\<lparr>nameForEmit := Some ?n\<rparr> # rest"
        by (auto simp: Let_def)
      have tk: "nameTaken fe (usedNames @ [?n]) ?I
                \<or> (\<exists>j < k. nameForEmit (rest ! j) = Some ?I)"
      proof -
        from Cons.prems(6) consider "nameTaken fe usedNames ?I"
          | j where "j < i" "nameForEmit (es' ! j) = Some ?I" by blast
        then show ?thesis
        proof cases
          case 1
          then show ?thesis by (auto simp: nameTaken_def)
        next
          case 2
          show ?thesis
          proof (cases j)
            case 0
            with 2 es' have "?n = ?I" by simp
            then show ?thesis by (simp add: nameTaken_def)
          next
            case (Suc j')
            with 2 es' \<open>i = Suc k\<close> show ?thesis by auto
          qed
        qed
      qed
      have "\<exists>m \<ge> 2. nameForEmit (rest ! k)
               = Some (suffixed (idealNameForEmit (es ! k) (localName a)) m)"
      proof (rule Cons.IH[OF rest])
        show "k < length es" using Cons.prems(2) Suc by simp
        show "lookupEntity fe (astEntity (es ! k)) = Some a" using Cons.prems(3) Suc by simp
        show "\<forall>e \<in> set es. set (exportNames e) \<subseteq> set (usedNames @ [?n])"
          using Cons.prems(4) by auto
        show "\<not> (idealNameForEmit (es ! k) (localName a) \<in> set (exportNames (es ! k))
                 \<and> \<not> hasGlobalName fe (idealNameForEmit (es ! k) (localName a))
                 \<and> idealNameForEmit (es ! k) (localName a) \<noteq> ''default'')"
          using Cons.prems(5) Suc by simp
        show "nameTaken fe (usedNames @ [?n]) (idealNameForEmit (es ! k) (localName a))
              \<or> (\<exists>j < k. nameForEmit (rest ! j)
                             = Some (idealNameForEmit (es ! k) (localName a)))"
          using tk I by simp
      qed
      with es' Suc show ?thesis by simp
    qed
  qed
qed

lemma assignNames_defined:
  assumes "assignNames fe es usedNames = Some es'" and "i < length es"
  shows "\<exists>a. lookupEntity fe (astEntity (es ! i)) = Some a"
  using assms
proof (induction es arbitrary: usedNames es' i)
  case Nil
  then show ?case by simp
next
  case (Cons entity es)
  from Cons.prems(1) obtain b where b: "lookupEntity fe (astEntity entity) = Some b"
    by (auto split: option.splits)
  show ?case
  proof (cases i)
    case 0
    with b show ?thesis by simp
  next
    case (Suc k)
    from Cons.prems(1) b obtain u rest where "assignNames fe es u = Some rest"
      by (auto simp: Let_def split: if_splits)
    from Cons.IH[OF this, of k] Cons.prems(2) Suc show ?thesis by simp
  qed
qed

lemma assignNames_fast:
  assumes "assignNames fe es usedNames = Some es'"
    and "i < length es"
    and "lookupEntity fe (astEntity (es ! i)) = Some a"
    and "idealNameForEmit (es ! i) (localName a) \<in> set (exportNames (es ! i))"
    and "\<not> hasGlobalName fe (idealNameForEmit (es ! i) (localName a))"
    and "idealNameForEmit (es ! i) (localName a) \<noteq> ''default''"
  shows "nameForEmit (es' ! i) = Some (idealNameForEmit (es ! i) (localName a))"
  using assms
proof (induction es arbitrary: usedNames es' i)
  case Nil
  then show ?case by simp
next
  case (Cons entity es)
  from Cons.prems(1) obtain b where b: "lookupEntity fe (astEntity entity) = Some b"
    by (auto split: option.splits)
  show ?case
  proof (cases i)
    case 0
    with Cons.prems b show ?thesis by (auto simp: Let_def)
  next
    case (Suc k)
    from Cons.prems(1) b obtain u e' rest where
      rest: "assignNames fe es u = Some rest" and es': "es' = e' # rest"
      by (auto simp: Let_def split: if_splits)
    from Cons.IH[OF rest, of k] Cons.prems(2-6) Suc es' show ?thesis by simp
  qed
qed

text \<open>
  The name that a node with the ideal name \<open>X\<close> at position \<open>i\<close> can have unchanged: \<open>X\<close> is
  not \<open>default\<close> and not a global name, and it is an export name of the node itself, or
  it is no export name of any node and was not given to an earlier node.
\<close>

definition canEmitAs ::
  "FrontEnd \<Rightarrow> CollectorEntity list \<Rightarrow> CollectorEntity list \<Rightarrow> nat \<Rightarrow> string \<Rightarrow> bool" where
  "canEmitAs fe ents ents' i X =
     (X \<noteq> ''default'' \<and> \<not> hasGlobalName fe X
      \<and> (X \<in> set (exportNames (ents ! i))
          \<or> ((\<forall>e \<in> set ents. X \<notin> set (exportNames e))
              \<and> (\<forall>j < i. nameForEmit (ents' ! j) \<noteq> Some X))))"

lemma makeUniqueNames_ideal:
  assumes m: "makeUniqueNames fe ents = Some (Inr ents')"
    and i: "i < length ents"
    and a: "lookupEntity fe (astEntity (ents ! i)) = Some a"
    and X: "idealNameForEmit (ents ! i) (localName a) = X"
  shows "if canEmitAs fe ents ents' i X then nameForEmit (ents' ! i) = Some X
         else (\<exists>k \<ge> 2. nameForEmit (ents' ! i) = Some (suffixed X k))"
proof -
  from m obtain usedNames where
    c: "collectAllExportNames ents [] = Inr usedNames" and
    s: "assignNames fe ents usedNames = Some ents'"
    by (auto simp: makeUniqueNames_def split: sum.splits)
  from collectAllExportNames_result[OF c] have
    u: "usedNames = concat (map exportNames ents)" by auto
  have sub: "\<forall>e \<in> set ents. set (exportNames e) \<subseteq> set usedNames" using u by auto
  show ?thesis
  proof (cases "canEmitAs fe ents ents' i X")
    case True
    then have ok: "X \<noteq> ''default''" "\<not> hasGlobalName fe X" by (simp_all add: canEmitAs_def)
    from True consider "X \<in> set (exportNames (ents ! i))"
      | "X \<notin> set (exportNames (ents ! i))" "\<forall>e \<in> set ents. X \<notin> set (exportNames e)"
        "\<forall>j < i. nameForEmit (ents' ! j) \<noteq> Some X"
      by (auto simp: canEmitAs_def)
    then have "nameForEmit (ents' ! i) = Some X"
    proof cases
      case 1
      with assignNames_fast[OF s i a] X ok show ?thesis by simp
    next
      case 2
      have "\<not> nameTaken fe usedNames X" using ok 2(2) u by (auto simp: nameTaken_def)
      with assignNames_ideal[OF s i a] X 2(3) show ?thesis by simp
    qed
    with True show ?thesis by simp
  next
    case False
    have nf: "\<not> (X \<in> set (exportNames (ents ! i)) \<and> \<not> hasGlobalName fe X \<and> X \<noteq> ''default'')"
      using False by (auto simp: canEmitAs_def)
    have tk: "nameTaken fe usedNames X \<or> (\<exists>j < i. nameForEmit (ents' ! j) = Some X)"
      using False u by (auto simp: canEmitAs_def nameTaken_def)
    from assignNames_suffixed[OF s i a sub] X nf tk
    have "\<exists>k \<ge> 2. nameForEmit (ents' ! i) = Some (suffixed X k)" by simp
    with False show ?thesis by simp
  qed
qed

lemma idealNameForEmit_local:
  assumes "length (exportNames e) \<noteq> 1 \<or> exportNames e = [''default'']"
    and "CHR ''.'' \<notin> set local"
  shows "idealNameForEmit e local = local"
proof -
  from assms(1) have "singleExportName e = None \<or> singleExportName e = Some ''default''"
    by (cases "exportNames e") (auto simp: singleExportName_def split: list.splits)
  with assms(2) show ?thesis by (auto simp: idealNameForEmit_def)
qed

text \<open>
  The third example of the comment in \<open>_makeUniqueNames\<close>:
  \<open>class X {}  export { X as A, X as B };  class Y {}  export { Y as X };\<close>.
\<close>

definition twoAliases :: FrontEnd where
  "twoAliases =
     \<lparr> astEntities = [(1, AstSymbol ''X'' False None 1 []), (2, AstSymbol ''Y'' False None 2 [])],
       exportedLocalEntities = [(''A'', 1), (''B'', 1), (''X'', 2)],
       globalNames = [], preapprovedTagDefined = False, includeForgottenExports = False \<rparr>"

text \<open>
  C3.  As the claim states it, an entity exported under two aliases is emitted under
  the local name of its symbol.  Here \<open>X\<close> is exported under the two aliases \<open>A\<close> and \<open>B\<close> and
  is emitted as \<open>X_2\<close>, because \<open>X\<close> is the export name of \<open>Y\<close>.
\<close>

theorem two_aliases_suffixed_counterexample:
  "createExportedCollectorEntities (exportedLocalEntities twoAliases) []
     = [(newCollectorEntity 1)\<lparr>exportNames := [''A'', ''B'']\<rparr>,
        (newCollectorEntity 2)\<lparr>exportNames := [''X'']\<rparr>]
   \<and> lookupEntity twoAliases 1 = Some (AstSymbol ''X'' False None 1 [])
   \<and> makeUniqueNames twoAliases
        [(newCollectorEntity 1)\<lparr>exportNames := [''A'', ''B'']\<rparr>,
         (newCollectorEntity 2)\<lparr>exportNames := [''X'']\<rparr>]
       = Some (Inr [(newCollectorEntity 1)\<lparr>exportNames := [''A'', ''B''],
                                              nameForEmit := Some ''X_2''\<rparr>,
                    (newCollectorEntity 2)\<lparr>exportNames := [''X''],
                                              nameForEmit := Some ''X''\<rparr>])"
  by (simp add: twoAliases_def createCollectorEntity_def newCollectorEntity_def
        addExportName_def hasGlobalName_def makeUniqueNames_def lookupEntity_def
        idealNameForEmit_def singleExportName_def chooseUniqueName.simps nameTaken_def
        suffixed_def showNat.simps digitChar_def Let_def char_of_def bit_iff_odd)

text \<open>
  C3, amended.  After \<open>_makeUniqueNames\<close> has run without error, every node has an emitted
  name, the emitted names of the nodes are pairwise different, and only the emitted
  names were changed.  A node whose sole export name \<open>n\<close> is not \<open>default\<close> and contains no
  dot is emitted as \<open>n\<close> when \<open>n\<close> is not a global name, and as \<open>n_k\<close> with some \<open>k\<close> from 2 on
  when it is.  A node that has not exactly one export name, or whose sole export name is
  \<open>default\<close>, and whose entity has the local name \<open>X\<close> without a dot, is emitted as \<open>X\<close> when
  \<open>X\<close> is not \<open>default\<close>, not a global name, and either an export name of the node itself
  or neither an export name of any node nor the emitted name of an earlier node
  (\<open>canEmitAs\<close>); otherwise it is emitted as \<open>X_k\<close> with some \<open>k\<close> from 2 on.  For
  \<open>export { X as P, X as Q }\<close>, with \<open>P\<close> and \<open>Q\<close> two different names that are not empty,
  there is one node, with the export names \<open>P\<close> and \<open>Q\<close>.
\<close>

theorem emitted_names_unique_and_preferred:
  "(makeUniqueNames fe ents = Some (Inr ents') \<longrightarrow>
      distinct (map nameForEmit ents')
      \<and> (\<forall>e' \<in> set ents'. nameForEmit e' \<noteq> None)
      \<and> map astEntity ents' = map astEntity ents
      \<and> map exportNames ents' = map exportNames ents
      \<and> (\<forall>i < length ents. \<forall>n.
             exportNames (ents ! i) = [n] \<and> n \<noteq> ''default'' \<and> CHR ''.'' \<notin> set n \<longrightarrow>
             (if \<not> hasGlobalName fe n then nameForEmit (ents' ! i) = Some n
              else (\<exists>k \<ge> 2. nameForEmit (ents' ! i) = Some (suffixed n k))))
      \<and> (\<forall>i < length ents. \<forall>a.
             lookupEntity fe (astEntity (ents ! i)) = Some a
             \<and> (length (exportNames (ents ! i)) \<noteq> 1 \<or> exportNames (ents ! i) = [''default''])
             \<and> CHR ''.'' \<notin> set (localName a) \<longrightarrow>
             (if canEmitAs fe ents ents' i (localName a)
              then nameForEmit (ents' ! i) = Some (localName a)
              else (\<exists>k \<ge> 2. nameForEmit (ents' ! i) = Some (suffixed (localName a) k)))))
   \<and> (P \<noteq> Q \<and> P \<noteq> [] \<and> Q \<noteq> [] \<longrightarrow>
        createExportedCollectorEntities [(P, x), (Q, x)] []
          = [(newCollectorEntity x)\<lparr>exportNames := [P, Q]\<rparr>])"
proof (intro conjI impI)
  assume m: "makeUniqueNames fe ents = Some (Inr ents')"
  note r = makeUniqueNames_result[OF m]
  from m obtain usedNames where s: "assignNames fe ents usedNames = Some ents'"
    by (auto simp: makeUniqueNames_def split: sum.splits)
  show "distinct (map nameForEmit ents')" by (rule r(1))
  show "\<forall>e' \<in> set ents'. nameForEmit e' \<noteq> None"
    using r(2) by (auto simp: list_all2_conv_all_nth namedAs_def in_set_conv_nth)
  show "map astEntity ents' = map astEntity ents"
    and "map exportNames ents' = map exportNames ents"
    using list_all2_namedAs_maps[OF r(2)] by simp_all
  show "\<forall>i < length ents. \<forall>n.
          exportNames (ents ! i) = [n] \<and> n \<noteq> ''default'' \<and> CHR ''.'' \<notin> set n \<longrightarrow>
          (if \<not> hasGlobalName fe n then nameForEmit (ents' ! i) = Some n
           else (\<exists>k \<ge> 2. nameForEmit (ents' ! i) = Some (suffixed n k)))"
  proof (intro allI impI)
    fix i n
    assume i: "i < length ents"
      and h: "exportNames (ents ! i) = [n] \<and> n \<noteq> ''default'' \<and> CHR ''.'' \<notin> set n"
    from s i obtain a where a: "lookupEntity fe (astEntity (ents ! i)) = Some a"
      using assignNames_defined by blast
    from h have X: "idealNameForEmit (ents ! i) (localName a) = n"
      by (simp add: idealNameForEmit_single)
    from h have c: "canEmitAs fe ents ents' i n = (\<not> hasGlobalName fe n)"
      by (auto simp: canEmitAs_def)
    from makeUniqueNames_ideal[OF m i a X] c
    show "if \<not> hasGlobalName fe n then nameForEmit (ents' ! i) = Some n
          else (\<exists>k \<ge> 2. nameForEmit (ents' ! i) = Some (suffixed n k))"
      by simp
  qed
  show "\<forall>i < length ents. \<forall>a.
          lookupEntity fe (astEntity (ents ! i)) = Some a
          \<and> (length (exportNames (ents ! i)) \<noteq> 1 \<or> exportNames (ents ! i) = [''default''])
          \<and> CHR ''.'' \<notin> set (localName a) \<longrightarrow>
          (if canEmitAs fe ents ents' i (localName a)
           then nameForEmit (ents' ! i) = Some (localName a)
           else (\<exists>k \<ge> 2. nameForEmit (ents' ! i) = Some (suffixed (localName a) k)))"
  proof (intro allI impI)
    fix i a
    assume i: "i < length ents"
      and h: "lookupEntity fe (astEntity (ents ! i)) = Some a
              \<and> (length (exportNames (ents ! i)) \<noteq> 1 \<or> exportNames (ents ! i) = [''default''])
              \<and> CHR ''.'' \<notin> set (localName a)"
    from h have X: "idealNameForEmit (ents ! i) (localName a) = localName a"
      by (simp add: idealNameForEmit_local)
    from h have a: "lookupEntity fe (astEntity (ents ! i)) = Some a" by simp
    from makeUniqueNames_ideal[OF m i a X]
    show "if canEmitAs fe ents ents' i (localName a)
          then nameForEmit (ents' ! i) = Some (localName a)
          else (\<exists>k \<ge> 2. nameForEmit (ents' ! i) = Some (suffixed (localName a) k))" .
  qed
next
  assume "P \<noteq> Q \<and> P \<noteq> [] \<and> Q \<noteq> []"
  then show "createExportedCollectorEntities [(P, x), (Q, x)] []
               = [(newCollectorEntity x)\<lparr>exportNames := [P, Q]\<rparr>]"
    by (auto simp: createCollectorEntity_def newCollectorEntity_def addExportName_def)
qed

text \<open>
  Four classes: \<open>X\<close> exported as \<open>A\<close>, \<open>Y\<close> exported as \<open>P\<close> and \<open>Q\<close>, \<open>A\<close> not exported, and
  \<open>Z\<close> exported as \<open>Z\<close> and \<open>R\<close>.
\<close>

definition fourClasses :: FrontEnd where
  "fourClasses =
     \<lparr> astEntities = [(1, AstSymbol ''X'' False None 1 []), (2, AstSymbol ''Y'' False None 2 []),
                      (3, AstSymbol ''A'' False None 3 []), (4, AstSymbol ''Z'' False None 4 [])],
       exportedLocalEntities = [(''A'', 1), (''P'', 2), (''Q'', 2), (''Z'', 4), (''R'', 4)],
       globalNames = [],
       preapprovedTagDefined = False, includeForgottenExports = False \<rparr>"

definition fourClassesNodes :: "CollectorEntity list" where
  "fourClassesNodes =
     [(newCollectorEntity 1)\<lparr>exportNames := [''A'']\<rparr>,
      (newCollectorEntity 2)\<lparr>exportNames := [''P'', ''Q'']\<rparr>,
      newCollectorEntity 3,
      (newCollectorEntity 4)\<lparr>exportNames := [''Z'', ''R'']\<rparr>]"

definition fourClassesNamed :: "CollectorEntity list" where
  "fourClassesNamed =
     [(newCollectorEntity 1)\<lparr>exportNames := [''A''], nameForEmit := Some ''A''\<rparr>,
      (newCollectorEntity 2)\<lparr>exportNames := [''P'', ''Q''], nameForEmit := Some ''Y''\<rparr>,
      (newCollectorEntity 3)\<lparr>nameForEmit := Some ''A_2''\<rparr>,
      (newCollectorEntity 4)\<lparr>exportNames := [''Z'', ''R''], nameForEmit := Some ''Z''\<rparr>]"

lemma fourClasses_names:
  "makeUniqueNames fourClasses fourClassesNodes = Some (Inr fourClassesNamed)"
  by (simp add: fourClasses_def fourClassesNodes_def fourClassesNamed_def
        newCollectorEntity_def
        makeUniqueNames_def lookupEntity_def hasGlobalName_def idealNameForEmit_def
        singleExportName_def chooseUniqueName.simps nameTaken_def suffixed_def
        showNat.simps digitChar_def Let_def char_of_def bit_iff_odd)

lemma fourClasses_lookup:
  "lookupEntity fourClasses (astEntity (fourClassesNodes ! 1))
     = Some (AstSymbol ''Y'' False None 2 [])"
  "lookupEntity fourClasses (astEntity (fourClassesNodes ! 2))
     = Some (AstSymbol ''A'' False None 3 [])"
  "lookupEntity fourClasses (astEntity (fourClassesNodes ! 3))
     = Some (AstSymbol ''Z'' False None 4 [])"
  by (simp_all add: lookupEntity_def fourClasses_def fourClassesNodes_def
        newCollectorEntity_def)

lemma fourClasses_canEmitAs:
  "canEmitAs fourClasses fourClassesNodes fourClassesNamed 1 ''Y''"
  "\<not> canEmitAs fourClasses fourClassesNodes fourClassesNamed 2 ''A''"
  "canEmitAs fourClasses fourClassesNodes fourClassesNamed 3 ''Z''"
  by (simp_all add: canEmitAs_def fourClasses_def fourClassesNodes_def fourClassesNamed_def
        newCollectorEntity_def hasGlobalName_def less_Suc_eq numeral_2_eq_2 numeral_3_eq_3)

theorem emitted_names_unique_and_preferred_witness:
  "makeUniqueNames fourClasses fourClassesNodes = Some (Inr fourClassesNamed)
   \<and> distinct (map nameForEmit fourClassesNamed)
   \<and> map exportNames fourClassesNamed = map exportNames fourClassesNodes
   \<and> exportNames (fourClassesNodes ! 0) = [''A''] \<and> \<not> hasGlobalName fourClasses ''A''
   \<and> nameForEmit (fourClassesNamed ! 0) = Some ''A''
   \<and> canEmitAs fourClasses fourClassesNodes fourClassesNamed 1 ''Y''
   \<and> nameForEmit (fourClassesNamed ! 1) = Some ''Y''
   \<and> \<not> canEmitAs fourClasses fourClassesNodes fourClassesNamed 2 ''A''
   \<and> (\<exists>k \<ge> 2. nameForEmit (fourClassesNamed ! 2) = Some (suffixed ''A'' k))
   \<and> canEmitAs fourClasses fourClassesNodes fourClassesNamed 3 ''Z''
   \<and> nameForEmit (fourClassesNamed ! 3) = Some ''Z''
   \<and> createExportedCollectorEntities [(''P'', 2), (''Q'', 2)] []
       = [(newCollectorEntity 2)\<lparr>exportNames := [''P'', ''Q'']\<rparr>]"
proof -
  note inst = emitted_names_unique_and_preferred
                [where fe = fourClasses and ents = fourClassesNodes
                   and ents' = fourClassesNamed
                   and P = "''P''" and Q = "''Q''" and x = 2]
  from inst fourClasses_names have d: "distinct (map nameForEmit fourClassesNamed)"
    by blast
  from inst fourClasses_names
  have e: "map exportNames fourClassesNamed = map exportNames fourClassesNodes"
    by blast
  have len: "0 < length fourClassesNodes" "1 < length fourClassesNodes"
    "2 < length fourClassesNodes" "3 < length fourClassesNodes"
    by (simp_all add: fourClassesNodes_def)
  from inst fourClasses_names have
    single: "\<forall>i < length fourClassesNodes. \<forall>n.
               exportNames (fourClassesNodes ! i) = [n] \<and> n \<noteq> ''default''
               \<and> CHR ''.'' \<notin> set n \<longrightarrow>
               (if \<not> hasGlobalName fourClasses n
                then nameForEmit (fourClassesNamed ! i) = Some n
                else (\<exists>k \<ge> 2. nameForEmit (fourClassesNamed ! i) = Some (suffixed n k)))"
    by blast
  have x0: "exportNames (fourClassesNodes ! 0) = [''A'']"
    and g0: "\<not> hasGlobalName fourClasses ''A''"
    by (simp_all add: fourClassesNodes_def newCollectorEntity_def hasGlobalName_def
          fourClasses_def)
  from single len(1) x0 have
    "if \<not> hasGlobalName fourClasses ''A''
     then nameForEmit (fourClassesNamed ! 0) = Some ''A''
     else (\<exists>k \<ge> 2. nameForEmit (fourClassesNamed ! 0) = Some (suffixed ''A'' k))"
    by simp
  with g0 have n0: "nameForEmit (fourClassesNamed ! 0) = Some ''A''" by simp
  from inst fourClasses_names have
    loc: "\<forall>i < length fourClassesNodes. \<forall>a.
             lookupEntity fourClasses (astEntity (fourClassesNodes ! i)) = Some a
             \<and> (length (exportNames (fourClassesNodes ! i)) \<noteq> 1
                 \<or> exportNames (fourClassesNodes ! i) = [''default''])
             \<and> CHR ''.'' \<notin> set (localName a) \<longrightarrow>
             (if canEmitAs fourClasses fourClassesNodes fourClassesNamed i (localName a)
              then nameForEmit (fourClassesNamed ! i) = Some (localName a)
              else (\<exists>k \<ge> 2. nameForEmit (fourClassesNamed ! i)
                                = Some (suffixed (localName a) k)))"
    by blast
  have many: "length (exportNames (fourClassesNodes ! 1)) \<noteq> 1"
    "length (exportNames (fourClassesNodes ! 2)) \<noteq> 1"
    "length (exportNames (fourClassesNodes ! 3)) \<noteq> 1"
    by (simp_all add: fourClassesNodes_def newCollectorEntity_def)
  from loc len(2) fourClasses_lookup(1) many(1) have
    "if canEmitAs fourClasses fourClassesNodes fourClassesNamed 1 ''Y''
     then nameForEmit (fourClassesNamed ! 1) = Some ''Y''
     else (\<exists>k \<ge> 2. nameForEmit (fourClassesNamed ! 1) = Some (suffixed ''Y'' k))"
    by fastforce
  with fourClasses_canEmitAs(1) have n1: "nameForEmit (fourClassesNamed ! 1) = Some ''Y''"
    by simp
  from loc len(3) fourClasses_lookup(2) many(2) have
    "if canEmitAs fourClasses fourClassesNodes fourClassesNamed 2 ''A''
     then nameForEmit (fourClassesNamed ! 2) = Some ''A''
     else (\<exists>k \<ge> 2. nameForEmit (fourClassesNamed ! 2) = Some (suffixed ''A'' k))"
    by fastforce
  with fourClasses_canEmitAs(2) have
    n2: "\<exists>k \<ge> 2. nameForEmit (fourClassesNamed ! 2) = Some (suffixed ''A'' k)"
    by simp
  from loc len(4) fourClasses_lookup(3) many(3) have
    "if canEmitAs fourClasses fourClassesNodes fourClassesNamed 3 ''Z''
     then nameForEmit (fourClassesNamed ! 3) = Some ''Z''
     else (\<exists>k \<ge> 2. nameForEmit (fourClassesNamed ! 3) = Some (suffixed ''Z'' k))"
    by fastforce
  with fourClasses_canEmitAs(3) have n3: "nameForEmit (fourClassesNamed ! 3) = Some ''Z''"
    by simp
  from inst have c: "createExportedCollectorEntities [(''P'', 2), (''Q'', 2)] []
       = [(newCollectorEntity 2)\<lparr>exportNames := [''P'', ''Q'']\<rparr>]"
    by simp
  from fourClasses_names d e x0 g0 n0 fourClasses_canEmitAs n1 n2 n3 c show ?thesis
    by simp
qed

section \<open>Properties of the inheritance flag\<close>

definition entitiesOf :: "Collector outcome \<Rightarrow> CollectorEntity list option" where
  "entitiesOf r = (case r of Some (Inr c) \<Rightarrow> Some (entities c) | _ \<Rightarrow> None)"

lemma entitiesOf_analyze:
  assumes "\<not> astEntryPoint c"
    and "map_option (map_sum id fst)
           (createIndirectEntities fuel fe (map snd (exportedLocalEntities fe))
              (createExportedCollectorEntities (exportedLocalEntities fe) (entities c), [])
              (metadata c))
         = Some (Inr (ents, seen))"
    and "makeUniqueNames fe ents = Some (Inr named)"
  shows "entitiesOf (analyze fuel fe c) = Some (sort_key getSortKey named)"
proof -
  from assms(2) obtain st where
    "createIndirectEntities fuel fe (map snd (exportedLocalEntities fe))
       (createExportedCollectorEntities (exportedLocalEntities fe) (entities c), [])
       (metadata c) = Some (Inr ((ents, seen), st))"
    by (cases "createIndirectEntities fuel fe (map snd (exportedLocalEntities fe))
                 (createExportedCollectorEntities (exportedLocalEntities fe) (entities c), [])
                 (metadata c)")
       (auto simp: map_sum_def split: sum.splits)
  with assms(1,3) show ?thesis
    by (simp add: analyze_def entitiesOf_def thenDo_def)
qed

text \<open>
  \<open>export function f(c: C): void;  export class A extends C {}  class C extends D {}
  class D {}\<close>, with the export table in the order given by \<open>exports\<close>.
\<close>

definition baseOfBase :: "(string \<times> nat) list \<Rightarrow> FrontEnd" where
  "baseOfBase exports =
     \<lparr> astEntities =
         [(1, AstSymbol ''f'' False None 1
                [AstDeclaration 10 FunctionDeclaration [] 1 None None [(3, Plain)] []]),
          (2, AstSymbol ''A'' False None 2
                [AstDeclaration 20 ClassDeclaration [] 2 None None [(3, Inheritance)] []]),
          (3, AstSymbol ''C'' False None 3
                [AstDeclaration 30 ClassDeclaration [] 3 None None [(4, Inheritance)] []]),
          (4, AstSymbol ''D'' False None 4
                [AstDeclaration 40 ClassDeclaration [] 4 None None [] []])],
       exportedLocalEntities = exports, globalNames = [],
       preapprovedTagDefined = False, includeForgottenExports = False \<rparr>"

lemma baseOfBase_graph_fA:
  "map_option (map_sum id fst)
     (createIndirectEntities 2 (baseOfBase [(''f'', 1), (''A'', 2)])
        (map snd (exportedLocalEntities (baseOfBase [(''f'', 1), (''A'', 2)])))
        (createExportedCollectorEntities
           (exportedLocalEntities (baseOfBase [(''f'', 1), (''A'', 2)]))
           (entities newCollector), [])
        (metadata newCollector))
   = Some (Inr ([(newCollectorEntity 1)\<lparr>exportNames := [''f'']\<rparr>,
                 (newCollectorEntity 2)\<lparr>exportNames := [''A'']\<rparr>,
                 (newCollectorEntity 3)\<lparr>consumableViaInheritance := True\<rparr>,
                 newCollectorEntity 4], [1, 3, 4, 2]))"
  by (simp add: createEntityForIndirectReferences.simps baseOfBase_def newCollector_def
        createCollectorEntity_def lookupEntity_def symbolReferences_def
        newCollectorEntity_def addExportName_def createReferencedEntity_def
        consumable_def exported_def Let_def
        fetchExportedSymbolMetadata_def fetchSymbolMetadata_def
        fetchSymbolMetadata_private.simps calculateApiItemMetadataForDeclarations.simps
        calculateApiItemMetadata.simps calculateDeclarationMetadataForDeclarations_def
        setSymbolMetadata_def newMetadataState_def
        newInternalDeclarationMetadata_def
        readDocComment_def defaultOptions_def
        addAnalyzerIssue_def thenDo_def finishApiItemMetadata_def inheritReleaseTag_def
        healMissingReleaseTag_def attachApiItemMetadata_def)

lemma baseOfBase_graph_Af:
  "map_option (map_sum id fst)
     (createIndirectEntities 2 (baseOfBase [(''A'', 2), (''f'', 1)])
        (map snd (exportedLocalEntities (baseOfBase [(''A'', 2), (''f'', 1)])))
        (createExportedCollectorEntities
           (exportedLocalEntities (baseOfBase [(''A'', 2), (''f'', 1)]))
           (entities newCollector), [])
        (metadata newCollector))
   = Some (Inr ([(newCollectorEntity 2)\<lparr>exportNames := [''A'']\<rparr>,
                 (newCollectorEntity 1)\<lparr>exportNames := [''f'']\<rparr>,
                 (newCollectorEntity 3)\<lparr>consumableViaInheritance := True\<rparr>,
                 (newCollectorEntity 4)\<lparr>consumableViaInheritance := True\<rparr>], [2, 3, 4, 1]))"
  by (simp add: createEntityForIndirectReferences.simps baseOfBase_def newCollector_def
        createCollectorEntity_def lookupEntity_def symbolReferences_def
        newCollectorEntity_def addExportName_def createReferencedEntity_def
        consumable_def exported_def Let_def
        fetchExportedSymbolMetadata_def fetchSymbolMetadata_def
        fetchSymbolMetadata_private.simps calculateApiItemMetadataForDeclarations.simps
        calculateApiItemMetadata.simps calculateDeclarationMetadataForDeclarations_def
        setSymbolMetadata_def newMetadataState_def
        newInternalDeclarationMetadata_def
        readDocComment_def defaultOptions_def
        addAnalyzerIssue_def thenDo_def finishApiItemMetadata_def inheritReleaseTag_def
        healMissingReleaseTag_def attachApiItemMetadata_def)

lemma baseOfBase_names_fA:
  "makeUniqueNames (baseOfBase [(''f'', 1), (''A'', 2)])
     [(newCollectorEntity 1)\<lparr>exportNames := [''f'']\<rparr>,
      (newCollectorEntity 2)\<lparr>exportNames := [''A'']\<rparr>,
      (newCollectorEntity 3)\<lparr>consumableViaInheritance := True\<rparr>,
      newCollectorEntity 4]
   = Some (Inr [(newCollectorEntity 1)\<lparr>exportNames := [''f''], nameForEmit := Some ''f''\<rparr>,
                (newCollectorEntity 2)\<lparr>exportNames := [''A''], nameForEmit := Some ''A''\<rparr>,
                (newCollectorEntity 3)\<lparr>consumableViaInheritance := True,
                                        nameForEmit := Some ''C''\<rparr>,
                (newCollectorEntity 4)\<lparr>nameForEmit := Some ''D''\<rparr>])"
  by (simp add: baseOfBase_def newCollectorEntity_def
        makeUniqueNames_def lookupEntity_def hasGlobalName_def idealNameForEmit_def
        singleExportName_def chooseUniqueName.simps nameTaken_def Let_def)

lemma baseOfBase_names_Af:
  "makeUniqueNames (baseOfBase [(''A'', 2), (''f'', 1)])
     [(newCollectorEntity 2)\<lparr>exportNames := [''A'']\<rparr>,
      (newCollectorEntity 1)\<lparr>exportNames := [''f'']\<rparr>,
      (newCollectorEntity 3)\<lparr>consumableViaInheritance := True\<rparr>,
      (newCollectorEntity 4)\<lparr>consumableViaInheritance := True\<rparr>]
   = Some (Inr [(newCollectorEntity 2)\<lparr>exportNames := [''A''], nameForEmit := Some ''A''\<rparr>,
                (newCollectorEntity 1)\<lparr>exportNames := [''f''], nameForEmit := Some ''f''\<rparr>,
                (newCollectorEntity 3)\<lparr>consumableViaInheritance := True,
                                        nameForEmit := Some ''C''\<rparr>,
                (newCollectorEntity 4)\<lparr>consumableViaInheritance := True,
                                        nameForEmit := Some ''D''\<rparr>])"
  by (simp add: baseOfBase_def newCollectorEntity_def
        makeUniqueNames_def lookupEntity_def hasGlobalName_def idealNameForEmit_def
        singleExportName_def chooseUniqueName.simps nameTaken_def Let_def)

text \<open>
  C2.  The inheritance flag depends on the order of the traversal.  With the export
  table in the order \<open>f\<close>, \<open>A\<close> the class \<open>C\<close> is first reached by the plain reference of \<open>f\<close>
  and expanded while it is not consumable, so that its base class \<open>D\<close> gets no flag; the
  inheritance reference of the exported \<open>A\<close> then raises the flag of \<open>C\<close>, but \<open>C\<close> is
  already visited and \<open>D\<close> is not reached again.  After \<open>analyze\<close> the node of \<open>D\<close>, which has
  no export name and is reached only by the inheritance reference from the consumable
  \<open>C\<close>, has \<open>consumableViaInheritance = false\<close>.  With the export table in the order \<open>A\<close>,
  \<open>f\<close> the same node has the flag.
\<close>

theorem inheritance_flag_depends_on_order:
  "entitiesOf (analyze 2 (baseOfBase [(''f'', 1), (''A'', 2)]) newCollector)
     = Some [(newCollectorEntity 2)\<lparr>exportNames := [''A''], nameForEmit := Some ''A''\<rparr>,
             (newCollectorEntity 3)\<lparr>consumableViaInheritance := True,
                                     nameForEmit := Some ''C''\<rparr>,
             (newCollectorEntity 4)\<lparr>nameForEmit := Some ''D''\<rparr>,
             (newCollectorEntity 1)\<lparr>exportNames := [''f''], nameForEmit := Some ''f''\<rparr>]
   \<and> entitiesOf (analyze 2 (baseOfBase [(''A'', 2), (''f'', 1)]) newCollector)
       = Some [(newCollectorEntity 2)\<lparr>exportNames := [''A''], nameForEmit := Some ''A''\<rparr>,
               (newCollectorEntity 3)\<lparr>consumableViaInheritance := True,
                                       nameForEmit := Some ''C''\<rparr>,
               (newCollectorEntity 4)\<lparr>consumableViaInheritance := True,
                                       nameForEmit := Some ''D''\<rparr>,
               (newCollectorEntity 1)\<lparr>exportNames := [''f''], nameForEmit := Some ''f''\<rparr>]"
proof -
  have n: "\<not> astEntryPoint newCollector" by (simp add: newCollector_def)
  show ?thesis
    unfolding entitiesOf_analyze[OF n baseOfBase_graph_fA baseOfBase_names_fA]
      entitiesOf_analyze[OF n baseOfBase_graph_Af baseOfBase_names_Af]
    by (simp add: getSortKey_def getSortKeyIgnoringUnderscore_def toLowerCase_def
          lowerCaseCode_def newCollectorEntity_def)
qed

end
